(* ===== verification/Prelude.thy ===== *)
theory Prelude
  imports Main "HOL-Library.Word" "HOL-Library.Finite_Map" "HOL-Library.State_Monad"
begin

text \<open>
  Shared material: bytes and Go strings, big-endian encoding of machine words
  (\<^verbatim>\<open>encoding/binary\<close>), the result type of a fallible Go function, and the interface of a
  transition system whose invariant every step keeps.

  A Go \<^verbatim>\<open>string\<close> is an immutable byte sequence and is modelled by \<^typ>\<open>string\<close>: a
  \<^typ>\<open>char\<close> of HOL is exactly one byte. A Go \<^verbatim>\<open>[]byte\<close> is a list of \<^verbatim>\<open>8 word\<close>; the nil
  slice and the empty slice are both the empty list, because no code under verification
  tells them apart.
\<close>

unbundle bit_operations_syntax

type_synonym byte = "8 word"
type_synonym bytes = "byte list"

named_theorems codec_simps \<open>field encoders and decoders\<close>
named_theorems addr_simps \<open>netip addresses and prefixes\<close>
named_theorems mgr_simps \<open>locked sections of the session manager\<close>

section \<open>Results of fallible functions\<close>

text \<open>A Go function returning \<^verbatim>\<open>(T, error)\<close>: \<^term>\<open>Inl e\<close> is a non-nil error.\<close>

type_synonym ('e, 'a) result = "'e + 'a"

definition rbind :: "('e, 'a) result \<Rightarrow> ('a \<Rightarrow> ('e, 'b) result) \<Rightarrow> ('e, 'b) result" where
  "rbind r f = (case r of Inl e \<Rightarrow> Inl e | Inr a \<Rightarrow> f a)"

lemma rbind_simps [simp]:
  "rbind (Inl e) f = Inl e"
  "rbind (Inr a) f = f a"
  by (simp_all add: rbind_def)

lemma rbind_eq_Inr: "rbind r f = Inr b \<longleftrightarrow> (\<exists>a. r = Inr a \<and> f a = Inr b)"
  by (cases r) auto

section \<open>Go strings as bytes\<close>

definition byte_of_char :: "char \<Rightarrow> byte" where
  "byte_of_char c = of_nat (of_char c)"

definition char_of_byte :: "byte \<Rightarrow> char" where
  "char_of_byte b = char_of (unat b)"

definition bytes_of_string :: "string \<Rightarrow> bytes" where
  "bytes_of_string s = map byte_of_char s"

definition string_of_bytes :: "bytes \<Rightarrow> string" where
  "string_of_bytes b = map char_of_byte b"

lemma of_char_less_256: "(of_char c :: nat) < 256"
  using of_char_mod_256 [of c] by (metis mod_less_divisor zero_less_numeral)

lemma char_of_byte_of_char [simp]: "char_of_byte (byte_of_char c) = c"
  using of_char_less_256 [of c] by (simp add: char_of_byte_def byte_of_char_def unat_of_nat)

lemma byte_of_char_of_byte [simp]: "byte_of_char (char_of_byte b) = b"
proof -
  have "unat b < 256" using unsigned_less [of b, where ?'a = nat] by simp
  then show ?thesis by (simp add: char_of_byte_def byte_of_char_def)
qed

lemma string_of_bytes_of_string [simp]: "string_of_bytes (bytes_of_string s) = s"
  by (simp add: string_of_bytes_def bytes_of_string_def comp_def)

lemma bytes_of_string_of_bytes [simp]: "bytes_of_string (string_of_bytes b) = b"
  by (simp add: string_of_bytes_def bytes_of_string_def comp_def)

lemma length_bytes_of_string [simp]: "length (bytes_of_string s) = length s"
  by (simp add: bytes_of_string_def)

lemma length_string_of_bytes [simp]: "length (string_of_bytes b) = length b"
  by (simp add: string_of_bytes_def)

lemma bytes_of_string_Nil [simp]: "bytes_of_string [] = []"
  by (simp add: bytes_of_string_def)

lemma bytes_of_string_append [simp]:
  "bytes_of_string (s @ t) = bytes_of_string s @ bytes_of_string t"
  by (simp add: bytes_of_string_def)

section \<open>Words as numbers\<close>

lemma unat_inject: "unat a = unat b \<longleftrightarrow> a = (b :: 'a::len word)"
  using word_eq_iff_unsigned [of a b, where ?'a = nat] by blast

lemma unat_less: "unat w < 2 ^ LENGTH('a)" for w :: "'a::len word"
  by (rule unsigned_less)

lemma unat_drop_bit_div: "unat (drop_bit h w) = unat w div 2 ^ h"
  by (metis unat_drop_bit_eq drop_bit_eq_div)

lemma xor_eq_0_word: "a XOR b = 0 \<longleftrightarrow> a = (b :: 'a::len word)"
  by (auto simp: bit_eq_iff bit_simps)

lemma unat_plus_1: "w + 1 \<noteq> 0 \<Longrightarrow> unat (w + 1) = unat w + 1" for w :: "'a::len word"
  by (metis Suc_eq_plus1 unatSuc add.commute)

lemma unat_max: "w + 1 = 0 \<Longrightarrow> unat w + 1 = 2 ^ LENGTH('a)" for w :: "'a::len word"
proof -
  assume "w + 1 = 0"
  then have "w = - 1" by (simp add: eq_neg_iff_add_eq_0)
  then show ?thesis by (simp add: unsigned_minus_1_eq_mask mask_eq_exp_minus_1)
qed

lemma push_drop_idem:
  "push_bit h (drop_bit h (push_bit h (drop_bit h w))) = push_bit h (drop_bit h w)"
  for w :: "'a::len word"
  by (rule bit_word_eqI) (auto simp: bit_simps)

lemma unat_push_drop:
  "unat (push_bit h (drop_bit h w)) = unat w div 2 ^ h * 2 ^ h" for w :: "'a::len word"
proof -
  have "unat w div 2 ^ h * 2 ^ h < 2 ^ LENGTH('a)"
    using unat_less [of w] div_times_less_eq_dividend [of "unat w" "2 ^ h"]
    by (meson le_less_trans)
  moreover have "unat (push_bit h (drop_bit h w)) = take_bit LENGTH('a) (unat w div 2 ^ h * 2 ^ h)"
    by (simp only: unsigned_push_bit_eq unat_drop_bit_div push_bit_nat_def)
  ultimately show ?thesis by (simp add: take_bit_nat_eq_self)
qed

section \<open>Big-endian words\<close>

text \<open>
  \<^verbatim>\<open>binary.BigEndian.PutUintN\<close> and \<^verbatim>\<open>UintN\<close> for every width at once: the most significant
  byte comes first.
\<close>

fun be_bytes :: "nat \<Rightarrow> 'a::len word \<Rightarrow> bytes" where
  "be_bytes 0 w = []"
| "be_bytes (Suc n) w = be_bytes n (drop_bit 8 w) @ [ucast w]"

definition be_word :: "bytes \<Rightarrow> 'a::len word" where
  "be_word bs = foldl (\<lambda>acc b. push_bit 8 acc OR ucast b) 0 bs"

lemma length_be_bytes [simp]: "length (be_bytes n w) = n"
  by (induction n arbitrary: w) auto

lemma be_bytes_2: "be_bytes 2 w = [ucast (drop_bit 8 w), ucast w]"
  by (simp add: numeral_2_eq_2)

lemma be_bytes_4:
  "be_bytes 4 w = [ucast (drop_bit 24 w), ucast (drop_bit 16 w), ucast (drop_bit 8 w), ucast w]"
  by (simp add: numeral_eq_Suc drop_bit_drop_bit)

lemma be_word_Nil [simp]: "be_word [] = 0"
  by (simp add: be_word_def)

lemma be_word_snoc: "be_word (bs @ [b]) = push_bit 8 (be_word bs) OR ucast b"
  by (simp add: be_word_def)

lemma be_word_be_bytes_take: "be_word (be_bytes n w) = take_bit (8 * n) (w :: 'a::len word)"
proof (induction n arbitrary: w)
  case 0
  show ?case by simp
next
  case (Suc n)
  have "push_bit 8 (take_bit (8 * n) (drop_bit 8 w)) OR ucast (ucast w :: byte)
      = take_bit (8 * Suc n) w"
    by (rule bit_word_eqI) (auto simp: bit_simps)
  then show ?case by (simp add: be_word_snoc Suc.IH)
qed

lemma be_word_be_bytes:
  "LENGTH('a) \<le> 8 * n \<Longrightarrow> be_word (be_bytes n w) = (w :: 'a::len word)"
  by (simp add: be_word_be_bytes_take take_bit_word_eq_self)

lemma bit_be_word_bound: "bit (be_word bs :: 'a::len word) n \<Longrightarrow> n < 8 * length bs"
proof (induction bs arbitrary: n rule: rev_induct)
  case Nil
  then show ?case by simp
next
  case (snoc b bs)
  have "n < 8 \<or> bit (be_word bs :: 'a word) (n - 8)"
    using snoc.prems by (auto simp: be_word_snoc bit_simps dest: bit_imp_le_length)
  then show ?case using snoc.IH [of "n - 8"] by auto
qed

lemma be_bytes_be_word:
  "8 * length bs \<le> LENGTH('a) \<Longrightarrow> be_bytes (length bs) (be_word bs :: 'a::len word) = bs"
proof (induction bs rule: rev_induct)
  case Nil
  then show ?case by simp
next
  case (snoc b bs)
  have drop: "drop_bit 8 (push_bit 8 (be_word bs :: 'a word) OR ucast b) = be_word bs"
    using snoc.prems
    by (intro bit_word_eqI) (auto simp: bit_simps dest: bit_be_word_bound bit_imp_le_length)
  have low: "ucast (push_bit 8 (be_word bs :: 'a word) OR ucast b) = b"
    using snoc.prems by (intro bit_word_eqI) (auto simp: bit_simps)
  have "be_bytes (length (bs @ [b])) (be_word (bs @ [b]) :: 'a word)
      = be_bytes (length bs) (drop_bit 8 (push_bit 8 (be_word bs :: 'a word) OR ucast b))
        @ [ucast (push_bit 8 (be_word bs :: 'a word) OR ucast b)]"
    by (simp only: be_word_snoc length_append_singleton be_bytes.simps)
  also have "\<dots> = bs @ [b]"
    using snoc unfolding drop low by simp
  finally show ?case .
qed

section \<open>Lists\<close>

lemma take_append_length [simp]: "take (length xs) (xs @ ys) = xs"
  by simp

lemma drop_append_length [simp]: "drop (length xs) (xs @ ys) = ys"
  by simp

lemma take_drop_prefix: "n \<le> length b - k \<Longrightarrow> length (take n (drop k b)) = n"
  by simp

section \<open>Transition systems\<close>

text \<open>
  The contract every state machine of the development meets: the initial states satisfy the
  invariant and every step keeps it. The reachable states are those of the reflexive
  transitive closure of the steps.
\<close>

locale transition_system =
  fixes init :: "'s \<Rightarrow> bool"
    and step :: "'s \<Rightarrow> 's \<Rightarrow> bool"
    and inv :: "'s \<Rightarrow> bool"
  assumes init_inv: "init s \<Longrightarrow> inv s"
    and step_inv: "inv s \<Longrightarrow> step s t \<Longrightarrow> inv t"
begin

lemma steps_inv: "step\<^sup>*\<^sup>* s t \<Longrightarrow> inv s \<Longrightarrow> inv t"
  by (induction rule: rtranclp_induct) (auto intro: step_inv)

lemma reachable_inv: "init s \<Longrightarrow> step\<^sup>*\<^sup>* s t \<Longrightarrow> inv t"
  by (blast intro: steps_inv init_inv)

end

end
