(* ===== verification/Netip.thy ===== *)
theory Netip
  imports Prelude "HOL-Library.Char_ord" "HOL-Library.List_Lexorder"
begin

text \<open>
  The part of the standard library's package \<^verbatim>\<open>net/netip\<close> that gremlind uses. An
  \<^verbatim>\<open>Addr\<close> is the zero value, a 32-bit IPv4 address, or a 128-bit IPv6 address with a zone
  (the empty string when there is none); a \<^verbatim>\<open>Prefix\<close> is an address and a bit count. The
  second half reads addresses and prefixes as numbers: a valid masked prefix is an interval.
\<close>

section \<open>Addresses\<close>

datatype addr = AddrZero | V4 "32 word" | V6 "128 word" string

fun is_valid :: "addr \<Rightarrow> bool" where
  "is_valid AddrZero = False"
| "is_valid _ = True"

fun is4 :: "addr \<Rightarrow> bool" where
  "is4 (V4 _) = True"
| "is4 _ = False"

fun is6 :: "addr \<Rightarrow> bool" where
  "is6 (V6 _ _) = True"
| "is6 _ = False"

fun zone :: "addr \<Rightarrow> string" where
  "zone (V6 _ z) = z"
| "zone _ = ''''"

text \<open>\<^verbatim>\<open>Addr.BitLen\<close>: 0 for the zero value, else 32 or 128.\<close>

fun bitlen :: "addr \<Rightarrow> nat" where
  "bitlen AddrZero = 0"
| "bitlen (V4 _) = 32"
| "bitlen (V6 _ _) = 128"

text \<open>\<^verbatim>\<open>Addr.Is4In6\<close> and \<^verbatim>\<open>Addr.Unmap\<close>: \<^verbatim>\<open>::ffff:a.b.c.d\<close> becomes \<^verbatim>\<open>a.b.c.d\<close>; \<^verbatim>\<open>Unmap\<close> drops the zone.\<close>

fun is4in6 :: "addr \<Rightarrow> bool" where
  "is4in6 (V6 w _) = (drop_bit 32 w = 0xffff)"
| "is4in6 _ = False"

fun unmap :: "addr \<Rightarrow> addr" where
  "unmap (V6 w z) = (if is4in6 (V6 w z) then V4 (ucast w) else V6 w z)"
| "unmap a = a"

text \<open>
  \<^verbatim>\<open>Addr.Next\<close> is the zero value after the last address of the family. It is only ever
  called on valid addresses.
\<close>

fun next_addr :: "addr \<Rightarrow> addr" where
  "next_addr AddrZero = AddrZero"
| "next_addr (V4 w) = (if w + 1 = 0 then AddrZero else V4 (w + 1))"
| "next_addr (V6 w z) = (if w + 1 = 0 then AddrZero else V6 (w + 1) z)"

text \<open>
  The classification predicates. An IPv4-mapped IPv6 address is classified as the IPv4
  address it maps (Go 1.22 and later).
\<close>

fun is_multicast4 :: "32 word \<Rightarrow> bool" where
  "is_multicast4 w = (drop_bit 28 w = 0xe)"

fun is_multicast :: "addr \<Rightarrow> bool" where
  "is_multicast AddrZero = False"
| "is_multicast (V4 w) = is_multicast4 w"
| "is_multicast (V6 w z) =
     (if is4in6 (V6 w z) then is_multicast4 (ucast w) else drop_bit 120 w = 0xff)"

fun is_unspecified :: "addr \<Rightarrow> bool" where
  "is_unspecified AddrZero = False"
| "is_unspecified (V4 w) = (w = 0)"
| "is_unspecified (V6 w z) = (w = 0 \<and> z = '''')"

fun is_loopback :: "addr \<Rightarrow> bool" where
  "is_loopback AddrZero = False"
| "is_loopback (V4 w) = (drop_bit 24 w = 127)"
| "is_loopback (V6 w z) =
     (if is4in6 (V6 w z) then drop_bit 24 (ucast w :: 32 word) = 127 else w = 1)"

fun is_link_local_unicast :: "addr \<Rightarrow> bool" where
  "is_link_local_unicast AddrZero = False"
| "is_link_local_unicast (V4 w) = (drop_bit 16 w = 0xa9fe)"
| "is_link_local_unicast (V6 w z) =
     (if is4in6 (V6 w z) then drop_bit 16 (ucast w :: 32 word) = 0xa9fe
      else drop_bit 118 w = 0x3fa)"

text \<open>\<^verbatim>\<open>Addr.AsSlice\<close>, \<^verbatim>\<open>netip.AddrFromSlice\<close>, \<^verbatim>\<open>Addr.MarshalBinary\<close> (which appends the zone) and \<^verbatim>\<open>Addr.UnmarshalBinary\<close>.\<close>

fun as_slice :: "addr \<Rightarrow> bytes" where
  "as_slice AddrZero = []"
| "as_slice (V4 w) = be_bytes 4 w"
| "as_slice (V6 w z) = be_bytes 16 w"

definition addr_from_slice :: "bytes \<Rightarrow> addr option" where
  "addr_from_slice b =
     (if length b = 4 then Some (V4 (be_word b))
      else if length b = 16 then Some (V6 (be_word b) '''')
      else None)"

fun marshal_binary :: "addr \<Rightarrow> bytes" where
  "marshal_binary AddrZero = []"
| "marshal_binary (V4 w) = be_bytes 4 w"
| "marshal_binary (V6 w z) = be_bytes 16 w @ bytes_of_string z"

definition unmarshal_binary :: "bytes \<Rightarrow> addr option" where
  "unmarshal_binary b =
     (if length b = 0 then Some AddrZero
      else if length b = 4 then Some (V4 (be_word b))
      else if length b = 16 then Some (V6 (be_word b) '''')
      else if 16 < length b then Some (V6 (be_word (take 16 b)) (string_of_bytes (drop 16 b)))
      else None)"

text \<open>Marshalling is inverted by unmarshalling, zones included.\<close>

lemma unmarshal_marshal_binary [addr_simps]: "unmarshal_binary (marshal_binary a) = Some a"
  by (cases a) (auto simp: unmarshal_binary_def be_word_be_bytes)

lemma addr_from_as_slice [addr_simps]:
  "is_valid a \<Longrightarrow> zone a = '''' \<Longrightarrow> addr_from_slice (as_slice a) = Some a"
  by (cases a) (auto simp: addr_from_slice_def be_word_be_bytes)

lemma length_marshal_binary [addr_simps]:
  "zone a = '''' \<Longrightarrow> length (marshal_binary a) = (if is4 a then 4 else if is6 a then 16 else 0)"
  by (cases a) (auto simp: bytes_of_string_def)

section \<open>The order of addresses\<close>

text \<open>
  \<^verbatim>\<open>Addr.Compare\<close>: by bit length, then by the number, then by the zone. It makes the addresses
  a linear order of the library, in which the address pool is searched upwards.
\<close>

fun addr_nat :: "addr \<Rightarrow> nat" where
  "addr_nat AddrZero = 0"
| "addr_nat (V4 w) = unat w"
| "addr_nat (V6 w z) = unat w"

definition addr_key :: "addr \<Rightarrow> nat \<times> nat \<times> string" where
  "addr_key a = (bitlen a, addr_nat a, zone a)"

lemma addr_key_inject: "addr_key a = addr_key b \<longleftrightarrow> a = b"
  by (cases a; cases b) (auto simp: addr_key_def unat_inject)

instantiation addr :: linorder
begin

definition less_eq_addr :: "addr \<Rightarrow> addr \<Rightarrow> bool" where
  "a \<le> b \<longleftrightarrow> bitlen a < bitlen b \<or> bitlen a = bitlen b \<and>
     (addr_nat a < addr_nat b \<or> addr_nat a = addr_nat b \<and> zone a \<le> zone b)"

definition less_addr :: "addr \<Rightarrow> addr \<Rightarrow> bool" where
  "(a :: addr) < b \<longleftrightarrow> a \<le> b \<and> \<not> b \<le> a"

instance
proof
  fix a b c :: addr
  show "(a < b) = (a \<le> b \<and> \<not> b \<le> a)" by (rule less_addr_def)
  show "a \<le> a" by (simp add: less_eq_addr_def)
  show "a \<le> b \<Longrightarrow> b \<le> c \<Longrightarrow> a \<le> c" by (auto simp: less_eq_addr_def)
  show "a \<le> b \<Longrightarrow> b \<le> a \<Longrightarrow> a = b"
    using addr_key_inject [of a b] by (auto simp: less_eq_addr_def addr_key_def)
  show "a \<le> b \<or> b \<le> a" by (auto simp: less_eq_addr_def)
qed

end

section \<open>Prefixes\<close>

record prefix =
  pip :: addr
  pbits :: int

definition prefix_zero :: prefix where
  "prefix_zero = \<lparr>pip = AddrZero, pbits = -1\<rparr>"

text \<open>\<^verbatim>\<open>Prefix.IsValid\<close>. \<^verbatim>\<open>PrefixFrom\<close> strips the zone, so a valid prefix has none.\<close>

definition prefix_valid :: "prefix \<Rightarrow> bool" where
  "prefix_valid p \<longleftrightarrow> is_valid (pip p) \<and> zone (pip p) = '''' \<and>
     0 \<le> pbits p \<and> pbits p \<le> int (bitlen (pip p))"

definition host_bits :: "prefix \<Rightarrow> nat" where
  "host_bits p = bitlen (pip p) - nat (pbits p)"

fun mask_addr :: "nat \<Rightarrow> addr \<Rightarrow> addr" where
  "mask_addr h AddrZero = AddrZero"
| "mask_addr h (V4 w) = V4 (push_bit h (drop_bit h w))"
| "mask_addr h (V6 w z) = V6 (push_bit h (drop_bit h w)) ''''"

text \<open>\<^verbatim>\<open>Prefix.Masked\<close>: the host bits cleared; the zero prefix when invalid.\<close>

definition masked :: "prefix \<Rightarrow> prefix" where
  "masked p = (if prefix_valid p then p\<lparr>pip := mask_addr (host_bits p) (pip p)\<rparr> else prefix_zero)"

fun same_net :: "nat \<Rightarrow> addr \<Rightarrow> addr \<Rightarrow> bool" where
  "same_net h (V4 a) (V4 b) = (drop_bit h (a XOR b) = 0)"
| "same_net h (V6 a _) (V6 b _) = (drop_bit h (a XOR b) = 0)"
| "same_net h _ _ = False"

text \<open>\<^verbatim>\<open>Prefix.Contains\<close>: false for an invalid prefix, a zoned address or another family.\<close>

definition contains :: "prefix \<Rightarrow> addr \<Rightarrow> bool" where
  "contains p a \<longleftrightarrow> prefix_valid p \<and> zone a = '''' \<and> same_net (host_bits p) (pip p) a"

section \<open>A masked prefix is an interval\<close>

definition prefix_wf :: "prefix \<Rightarrow> bool" where
  "prefix_wf p \<longleftrightarrow> prefix_valid p \<and> masked p = p"

lemma prefix_wf_masked: "prefix_valid p \<Longrightarrow> prefix_wf (masked p)"
  by (cases "pip p")
    (auto simp: prefix_wf_def prefix_valid_def masked_def host_bits_def push_drop_idem)

lemma drop_bit_eq_iff_div:
  "drop_bit h a = drop_bit h b \<longleftrightarrow> unat a div 2 ^ h = unat b div 2 ^ h"
  for a b :: "'a::len word"
  by (simp only: unat_inject [symmetric] unat_drop_bit_div)

lemma same_net_iff:
  "same_net h a b \<longleftrightarrow> is_valid a \<and> bitlen a = bitlen b \<and>
     addr_nat a div 2 ^ h = addr_nat b div 2 ^ h"
  by (cases a; cases b) (auto simp: xor_eq_0_word drop_bit_eq_iff_div)

lemma addr_nat_mask: "addr_nat (mask_addr h a) = addr_nat a div 2 ^ h * 2 ^ h"
  by (cases a) (auto simp: unat_push_drop)

lemma addr_nat_bound: "addr_nat a < 2 ^ bitlen a"
proof (cases a)
  case (V4 w)
  then show ?thesis using unat_less [of w] by simp
next
  case (V6 w z)
  then show ?thesis using unat_less [of w] by simp
qed simp

lemma addr_nat_inject:
  "bitlen a = bitlen b \<Longrightarrow> zone a = zone b \<Longrightarrow> addr_nat a = addr_nat b \<longleftrightarrow> a = b"
  using addr_key_inject [of a b] by (auto simp: addr_key_def)

lemma bitlen_mask_addr [simp]: "bitlen (mask_addr h a) = bitlen a"
  by (cases a) auto

text \<open>The addresses of a well-formed prefix are those of the interval above its network address.\<close>

lemma div_eq_interval: "(k :: nat) = n div m \<longleftrightarrow> k * m \<le> n \<and> n < k * m + m" if "0 < m"
  using that
  by (metis add.commute div_nat_eqI div_times_less_eq_dividend dividend_less_div_times mult.commute
      mult_Suc)

lemma contains_interval:
  assumes "prefix_wf p"
  shows "contains p a \<longleftrightarrow> zone a = '''' \<and> bitlen a = bitlen (pip p) \<and>
    addr_nat (pip p) \<le> addr_nat a \<and> addr_nat a < addr_nat (pip p) + 2 ^ host_bits p"
proof -
  let ?h = "host_bits p"
  have valid: "prefix_valid p" "is_valid (pip p)"
    using assms by (auto simp: prefix_wf_def prefix_valid_def)
  have "pip p = mask_addr ?h (pip p)"
    using assms valid by (metis prefix.select_convs(1) prefix.surjective prefix.update_convs(1)
        masked_def prefix_wf_def)
  then obtain k where k: "addr_nat (pip p) = k * 2 ^ ?h"
    by (metis addr_nat_mask)
  have "addr_nat (pip p) div 2 ^ ?h = addr_nat a div 2 ^ ?h \<longleftrightarrow>
      k * 2 ^ ?h \<le> addr_nat a \<and> addr_nat a < k * 2 ^ ?h + 2 ^ ?h"
    by (simp add: k div_eq_interval)
  then show ?thesis
    using valid k by (auto simp: contains_def same_net_iff)
qed

text \<open>Stepping upwards inside a family: the successor is one higher, or the family ends.\<close>

lemma next_addr_props:
  assumes "next_addr a \<noteq> AddrZero"
  shows "addr_nat (next_addr a) = addr_nat a + 1"
    and "bitlen (next_addr a) = bitlen a" and "zone (next_addr a) = zone a"
  using assms by (cases a; auto simp: unat_plus_1 split: if_splits)+

lemma next_addr_end:
  "is_valid a \<Longrightarrow> next_addr a = AddrZero \<Longrightarrow> addr_nat a + 1 = 2 ^ bitlen a"
  by (cases a) (auto dest: unat_max split: if_splits)

lemma contains_valid: "contains p a \<Longrightarrow> is_valid a"
  by (cases a; cases "pip p") (auto simp: contains_def)

lemma addr_le_iff:
  "zone a = zone b \<Longrightarrow> bitlen a = bitlen b \<Longrightarrow> a \<le> b \<longleftrightarrow> addr_nat a \<le> addr_nat b"
  by (auto simp: less_eq_addr_def)

lemma contains_same_family:
  "prefix_wf p \<Longrightarrow> contains p b \<Longrightarrow> zone b = '''' \<and> bitlen b = bitlen (pip p)"
  by (simp add: contains_interval)

lemma contains_between:
  assumes "prefix_wf p" "contains p b" "pip p \<le> a" "a \<le> b"
    and "zone a = ''''" "bitlen a = bitlen (pip p)"
  shows "contains p a"
proof -
  have zp: "zone (pip p) = ''''" using assms(1) by (simp add: prefix_wf_def prefix_valid_def)
  have fb: "zone b = ''''" "bitlen b = bitlen (pip p)"
    using contains_same_family [OF assms(1,2)] by auto
  have "addr_nat (pip p) \<le> addr_nat a" using assms zp by (simp add: addr_le_iff)
  moreover have "addr_nat a \<le> addr_nat b" using assms fb by (simp add: addr_le_iff)
  ultimately show ?thesis
    using assms(1,2,5,6) unfolding contains_interval [OF assms(1)] by linarith
qed

lemma finite_family: "finite {a. zone a = '''' \<and> bitlen a = n}"
proof (rule finite_imageD [where f = addr_nat])
  show "inj_on addr_nat {a. zone a = '''' \<and> bitlen a = n}"
    by (rule inj_onI) (auto simp: addr_nat_inject)
  have "addr_nat ` {a. zone a = '''' \<and> bitlen a = n} \<subseteq> {..< 2 ^ n}"
    using addr_nat_bound by blast
  then show "finite (addr_nat ` {a. zone a = '''' \<and> bitlen a = n})"
    by (rule finite_subset) simp
qed

lemma finite_contains: "finite {a. contains p a}"
  by (rule finite_subset [OF _ finite_family [of "bitlen (pip p)"]])
    (auto simp: contains_def same_net_iff)

end
