(* ===== verification/Names.thy ===== *)
theory Names
  imports Prelude
begin

text \<open>
  Names and identifiers: \<^verbatim>\<open>control.ValidClientID\<close>, \<^verbatim>\<open>gre.ValidName\<close>,
  \<^verbatim>\<open>gre.IsGeneratedName\<close>, the broker's \<^verbatim>\<open>validateGremName\<close> and the session manager's
  \<^verbatim>\<open>ifName\<close>. The loops range over the runes of a string, so the UTF-8 decoding of Go's
  \<^verbatim>\<open>for range\<close> is modelled first; the lemmas then show what the predicates mean on bytes.
\<close>

section \<open>Ranging over a string\<close>

abbreviation ord :: "char \<Rightarrow> nat" where
  "ord c \<equiv> of_char c"

definition rune_error :: nat where
  "rune_error = 0xfffd"

text \<open>The table \<^verbatim>\<open>first\<close> and \<^verbatim>\<open>acceptRanges\<close> of \<^verbatim>\<open>unicode/utf8\<close>: the size of the encoding that
  starts with a byte and the range of its second byte; size 0 for an invalid start.\<close>

definition utf8_first :: "nat \<Rightarrow> nat \<times> nat \<times> nat" where
  "utf8_first b =
     (if b < 0x80 then (1, 0, 0)
      else if 0xc2 \<le> b \<and> b \<le> 0xdf then (2, 0x80, 0xbf)
      else if b = 0xe0 then (3, 0xa0, 0xbf)
      else if b = 0xed then (3, 0x80, 0x9f)
      else if 0xe1 \<le> b \<and> b \<le> 0xef then (3, 0x80, 0xbf)
      else if b = 0xf0 then (4, 0x90, 0xbf)
      else if b = 0xf4 then (4, 0x80, 0x8f)
      else if 0xf1 \<le> b \<and> b \<le> 0xf3 then (4, 0x80, 0xbf)
      else (0, 0, 0))"

definition is_cont :: "nat \<Rightarrow> bool" where
  "is_cont b \<longleftrightarrow> 0x80 \<le> b \<and> b \<le> 0xbf"

text \<open>\<^verbatim>\<open>utf8.DecodeRuneInString\<close>: the rune and the number of bytes it takes.\<close>

definition decode_rune :: "string \<Rightarrow> nat \<times> nat" where
  "decode_rune s =
     (let b = map ord s; b0 = b ! 0; (sz, lo, hi) = utf8_first b0 in
      if sz = 1 then (b0, 1)
      else if sz = 0 \<or> length b < sz then (rune_error, 1)
      else if \<not> (lo \<le> b ! 1 \<and> b ! 1 \<le> hi) then (rune_error, 1)
      else if sz = 2 then (b0 mod 32 * 64 + b ! 1 mod 64, 2)
      else if \<not> is_cont (b ! 2) then (rune_error, 1)
      else if sz = 3 then (b0 mod 16 * 4096 + b ! 1 mod 64 * 64 + b ! 2 mod 64, 3)
      else if \<not> is_cont (b ! 3) then (rune_error, 1)
      else (b0 mod 8 * 262144 + b ! 1 mod 64 * 4096 + b ! 2 mod 64 * 64 + b ! 3 mod 64, 4))"

lemma decode_rune_size: "0 < snd (decode_rune s)"
  by (auto simp: decode_rune_def Let_def split: prod.splits)

text \<open>\<^verbatim>\<open>for i, r := range s\<close>: the byte index and the rune of each step.\<close>

function runes_from :: "nat \<Rightarrow> string \<Rightarrow> (nat \<times> nat) list" where
  "runes_from i s =
     (if s = [] then []
      else (i, fst (decode_rune s)) #
           runes_from (i + snd (decode_rune s)) (drop (snd (decode_rune s)) s))"
  by pat_completeness auto
termination
  by (relation "measure (\<lambda>(i, s). length s)") (auto simp: decode_rune_size)

declare runes_from.simps [simp del]

definition runes :: "string \<Rightarrow> (nat \<times> nat) list" where
  "runes s = runes_from 0 s"

text \<open>An ASCII byte is its own rune; every other byte starts a rune that is not ASCII.\<close>

lemma decode_rune_ascii: "ord c < 0x80 \<Longrightarrow> decode_rune (c # s) = (ord c, 1)"
  by (simp add: decode_rune_def utf8_first_def)

lemma mod_shift: "k * m \<le> b \<Longrightarrow> b < Suc k * m \<Longrightarrow> b mod m = b - k * m" for b k m :: nat
proof -
  assume le: "k * m \<le> b" and "b < Suc k * m"
  then have "b - k * m < m" by simp
  moreover have "b mod m = (b - k * m) mod m"
    using le by (metis le_add_diff_inverse2 mod_mult_self1)
  ultimately show ?thesis by simp
qed

lemma rune2: "0xc2 \<le> b \<Longrightarrow> b \<le> 0xdf \<Longrightarrow> 0x80 \<le> b mod 32 * 64 + x" for b x :: nat
  using mod_shift [of 6 32 b] by simp

lemma rune3:
  "0xe1 \<le> b \<Longrightarrow> b \<le> 0xef \<Longrightarrow> 0x80 \<le> b mod 16 * 4096 + x + y"
  "0xa0 \<le> b1 \<Longrightarrow> b1 \<le> 0xbf \<Longrightarrow> 0x80 \<le> b1 mod 64 * 64 + x" for b b1 x y :: nat
  using mod_shift [of 14 16 b] mod_shift [of 2 64 b1] by auto

lemma rune4:
  "0xf1 \<le> b \<Longrightarrow> b \<le> 0xf4 \<Longrightarrow> 0x80 \<le> b mod 8 * 262144 + x + y + z"
  "0x90 \<le> b1 \<Longrightarrow> b1 \<le> 0xbf \<Longrightarrow> 0x80 \<le> b1 mod 64 * 4096 + x + y" for b b1 x y z :: nat
  using mod_shift [of 30 8 b] mod_shift [of 2 64 b1] by auto

lemma utf8_first_cases:
  assumes "utf8_first b = (sz, lo, hi)" "0x80 \<le> b"
  shows "sz = 0 \<or> sz = 2 \<and> 0xc2 \<le> b \<and> b \<le> 0xdf
    \<or> sz = 3 \<and> (b = 0xe0 \<and> lo = 0xa0 \<and> hi = 0xbf \<or> 0xe1 \<le> b \<and> b \<le> 0xef)
    \<or> sz = 4 \<and> (b = 0xf0 \<and> lo = 0x90 \<and> hi = 0xbf \<or> 0xf1 \<le> b \<and> b \<le> 0xf4)"
  using assms by (auto simp: utf8_first_def split: if_splits)

lemma decode_rune_nonascii:
  assumes "0x80 \<le> ord c"
  shows "0x80 \<le> fst (decode_rune (c # s))"
proof -
  obtain sz lo hi where f: "utf8_first (ord c) = (sz, lo, hi)"
    by (metis prod_cases3)
  note d = decode_rune_def f rune_error_def Let_def
  from utf8_first_cases [OF f assms] show ?thesis
  proof (elim disjE conjE)
    assume "sz = 0" then show ?thesis by (simp add: d)
  next
    assume "sz = 2" "0xc2 \<le> ord c" "ord c \<le> 0xdf"
    then show ?thesis by (simp add: d rune2)
  next
    assume "sz = 3" "ord c = 0xe0" "lo = 0xa0" "hi = 0xbf"
    then show ?thesis by (simp add: d utf8_first_def rune3)
  next
    assume "sz = 3" "0xe1 \<le> ord c" "ord c \<le> 0xef"
    then show ?thesis by (simp add: d rune3)
  next
    assume "sz = 4" "ord c = 0xf0" "lo = 0x90" "hi = 0xbf"
    then show ?thesis by (simp add: d utf8_first_def rune4)
  next
    assume "sz = 4" "0xf1 \<le> ord c" "ord c \<le> 0xf4"
    then show ?thesis by (simp add: d rune4)
  qed
qed

text \<open>
  The tool the predicates below share: when a rune predicate only accepts ASCII, a check over
  all runes with their byte indices is the same check over all bytes with theirs.
\<close>

lemma runes_from_all_ascii:
  assumes ascii: "\<And>i r. P i r \<Longrightarrow> r < 0x80"
  shows "(\<forall>(i, r) \<in> set (runes_from k s). P i r) \<longleftrightarrow> (\<forall>j < length s. P (k + j) (ord (s ! j)))"
proof (induction "length s" arbitrary: k s rule: less_induct)
  case less
  show ?case
  proof (cases s)
    case Nil
    then show ?thesis by (simp add: runes_from.simps)
  next
    case (Cons c t)
    show ?thesis
    proof (cases "ord c < 0x80")
      case True
      then have "runes_from k s = (k, ord c) # runes_from (k + 1) t"
        using Cons by (subst runes_from.simps) (simp add: decode_rune_ascii)
      then show ?thesis
        using less [of t "k + 1"] Cons by (auto simp: less_Suc_eq_0_disj)
    next
      case False
      then have "\<not> P k (fst (decode_rune s))" and "\<not> P (k + 0) (ord c)"
        using ascii decode_rune_nonascii [of c t] Cons by force+
      then show ?thesis
        using Cons by (subst runes_from.simps) auto
    qed
  qed
qed

lemma runes_all_ascii:
  assumes "\<And>r. P r \<Longrightarrow> r < 0x80"
  shows "list_all (\<lambda>(i, r). P r) (runes s) \<longleftrightarrow> (\<forall>c \<in> set s. P (ord c))"
proof -
  have "list_all (\<lambda>(i, r). P r) (runes s) \<longleftrightarrow> (\<forall>j < length s. P (ord (s ! j)))"
    using runes_from_all_ascii [of "\<lambda>i. P" 0 s] assms by (simp add: runes_def list_all_iff)
  then show ?thesis by (auto simp: all_set_conv_all_nth)
qed

section \<open>Identifiers\<close>

definition is_lower :: "nat \<Rightarrow> bool" where
  "is_lower r \<longleftrightarrow> ord CHR ''a'' \<le> r \<and> r \<le> ord CHR ''z''"

definition is_upper :: "nat \<Rightarrow> bool" where
  "is_upper r \<longleftrightarrow> ord CHR ''A'' \<le> r \<and> r \<le> ord CHR ''Z''"

definition is_digit :: "nat \<Rightarrow> bool" where
  "is_digit r \<longleftrightarrow> ord CHR ''0'' \<le> r \<and> r \<le> ord CHR ''9''"

definition is_alnum :: "nat \<Rightarrow> bool" where
  "is_alnum r \<longleftrightarrow> is_lower r \<or> is_upper r \<or> is_digit r"

definition is_hex :: "nat \<Rightarrow> bool" where
  "is_hex r \<longleftrightarrow> is_digit r \<or> ord CHR ''a'' \<le> r \<and> r \<le> ord CHR ''f''"

lemmas rune_class_defs = is_lower_def is_upper_def is_digit_def is_alnum_def is_hex_def

text \<open>\<^verbatim>\<open>control.ValidClientID\<close>.\<close>

definition client_id_rune :: "nat \<Rightarrow> bool" where
  "client_id_rune r \<longleftrightarrow> is_alnum r \<or>
     r = ord CHR ''.'' \<or> r = ord CHR ''_'' \<or> r = ord CHR ''-''"

definition ValidClientID :: "string \<Rightarrow> bool" where
  "ValidClientID cid =
     (if length cid = 0 \<or> 64 < length cid then False
      else list_all (\<lambda>(i, r). client_id_rune r) (runes cid))"

text \<open>\<^verbatim>\<open>gre.ValidName\<close>: the punctuation is only accepted after the first byte.\<close>

definition MaxNameLen :: nat where
  "MaxNameLen = 15"

definition name_rune :: "nat \<Rightarrow> nat \<Rightarrow> bool" where
  "name_rune i r \<longleftrightarrow> is_alnum r \<or> (r = ord CHR ''_'' \<or> r = ord CHR ''-'') \<and> 0 < i"

definition ValidName :: "string \<Rightarrow> bool" where
  "ValidName name =
     (if length name = 0 \<or> MaxNameLen < length name then False
      else list_all (\<lambda>(i, r). name_rune i r) (runes name))"

text \<open>\<^verbatim>\<open>strings.HasPrefix\<close> and \<^verbatim>\<open>strings.CutPrefix\<close>.\<close>

definition has_prefix :: "string \<Rightarrow> string \<Rightarrow> bool" where
  "has_prefix s p \<longleftrightarrow> take (length p) s = p"

definition cut_prefix :: "string \<Rightarrow> string \<Rightarrow> string option" where
  "cut_prefix s p = (if has_prefix s p then Some (drop (length p) s) else None)"

text \<open>\<^verbatim>\<open>gre.IsGeneratedName\<close>.\<close>

definition IsGeneratedName :: "string \<Rightarrow> bool" where
  "IsGeneratedName name =
     (if name = ''grem'' \<or> name = ''grem0'' then True
      else case cut_prefix name ''grem'' of
        None \<Rightarrow> False
      | Some rest \<Rightarrow> if rest = '''' then False else list_all (\<lambda>(i, r). is_hex r) (runes rest))"

text \<open>\<^verbatim>\<open>provisionrpc.validateGremName\<close>: true where the code returns a nil error.\<close>

definition validateGremName :: "string \<Rightarrow> bool" where
  "validateGremName name =
     (if name = ''grem'' \<or> name = ''grem0'' then True
      else if length name \<le> length ''grem'' \<or> 15 < length name \<or> \<not> has_prefix name ''grem''
      then False
      else list_all (\<lambda>(i, r). is_hex r) (runes (drop (length ''grem'') name)))"

text \<open>\<^verbatim>\<open>fmt.Sprintf("%x", key)\<close> on an unsigned number, and \<^verbatim>\<open>Manager.ifName\<close>.\<close>

definition hex_digit :: "nat \<Rightarrow> char" where
  "hex_digit d = (if d < 10 then char_of (48 + d) else char_of (87 + d))"

fun to_hex :: "nat \<Rightarrow> string" where
  "to_hex n = (if n < 16 then [hex_digit n] else to_hex (n div 16) @ [hex_digit (n mod 16)])"

declare to_hex.simps [simp del]

definition ifName :: "32 word \<Rightarrow> string" where
  "ifName key = (if key = 0 then ''grem'' else ''grem'' @ to_hex (unat key))"

section \<open>What the predicates accept\<close>

lemma ValidClientID_iff:
  "ValidClientID cid \<longleftrightarrow> 0 < length cid \<and> length cid \<le> 64 \<and> (\<forall>c \<in> set cid. client_id_rune (ord c))"
proof -
  have "client_id_rune r \<Longrightarrow> r < 0x80" for r
    by (auto simp: client_id_rune_def rune_class_defs)
  from runes_all_ascii [of client_id_rune, OF this] show ?thesis
    by (auto simp: ValidClientID_def)
qed

lemma ValidName_iff:
  "ValidName name \<longleftrightarrow> 0 < length name \<and> length name \<le> 15 \<and>
     (\<forall>j < length name. name_rune j (ord (name ! j)))"
proof -
  have "name_rune i r \<Longrightarrow> r < 0x80" for i r
    by (auto simp: name_rune_def rune_class_defs)
  from runes_from_all_ascii [of name_rune 0 name, OF this] show ?thesis
    by (auto simp: ValidName_def MaxNameLen_def runes_def list_all_iff)
qed

lemma hex_runes: "list_all (\<lambda>(i, r). is_hex r) (runes s) \<longleftrightarrow> (\<forall>c \<in> set s. is_hex (ord c))"
  by (rule runes_all_ascii) (auto simp: rune_class_defs)

lemma has_prefix_iff: "has_prefix s p \<longleftrightarrow> (\<exists>t. s = p @ t)"
  by (auto simp: has_prefix_def) (metis append_take_drop_id)

lemma IsGeneratedName_iff:
  "IsGeneratedName name \<longleftrightarrow> (\<exists>rest. name = ''grem'' @ rest \<and> (\<forall>c \<in> set rest. is_hex (ord c)))"
  by (auto simp: IsGeneratedName_def cut_prefix_def has_prefix_iff hex_runes rune_class_defs)

lemma validateGremName_iff:
  "validateGremName name \<longleftrightarrow> IsGeneratedName name \<and> length name \<le> 15"
  unfolding IsGeneratedName_iff
  by (auto simp: validateGremName_def has_prefix_iff hex_runes rune_class_defs)

section \<open>Generated interface names\<close>

lemma hex_digit_is_hex: "d < 16 \<Longrightarrow> is_hex (ord (hex_digit d))"
  by (auto simp: hex_digit_def rune_class_defs)

lemma to_hex_is_hex: "c \<in> set (to_hex n) \<Longrightarrow> is_hex (ord c)"
proof (induction n arbitrary: c rule: to_hex.induct)
  case (1 n)
  then show ?case
    by (subst (asm) (2) to_hex.simps) (auto simp: hex_digit_is_hex split: if_splits)
qed

lemma length_to_hex: "0 < k \<Longrightarrow> n < 16 ^ k \<Longrightarrow> length (to_hex n) \<le> k"
proof (induction k arbitrary: n)
  case (Suc k)
  show ?case
  proof (cases "n < 16")
    case True then show ?thesis by (subst to_hex.simps) simp
  next
    case False
    then have "0 < k" using Suc.prems by (cases k) auto
    moreover have "n div 16 < 16 ^ k" using Suc.prems by (simp add: less_mult_imp_div_less mult.commute)
    ultimately show ?thesis using Suc.IH [of "n div 16"] False by (subst to_hex.simps) simp
  qed
qed simp

definition hex_digit_val :: "char \<Rightarrow> nat" where
  "hex_digit_val c = (if ord c < 58 then ord c - 48 else ord c - 87)"

definition hex_val :: "string \<Rightarrow> nat" where
  "hex_val s = foldl (\<lambda>acc c. acc * 16 + hex_digit_val c) 0 s"

lemma hex_val_to_hex: "hex_val (to_hex n) = n"
proof (induction n rule: to_hex.induct)
  case (1 n)
  have d: "hex_digit_val (hex_digit m) = m" if "m < 16" for m
    using that by (auto simp: hex_digit_val_def hex_digit_def)
  show ?case
    using 1 by (subst to_hex.simps) (auto simp: hex_val_def d)
qed
lemma to_hex_inject: "to_hex m = to_hex n \<longleftrightarrow> m = n"
  by (metis hex_val_to_hex)

lemma to_hex_nonempty: "to_hex n \<noteq> []"
  by (subst to_hex.simps) simp

lemma ifName_inject: "ifName k = ifName l \<longleftrightarrow> k = l"
  by (auto simp: ifName_def to_hex_inject to_hex_nonempty to_hex_nonempty [symmetric] unat_inject split: if_splits)

lemma ifName_props:
  shows "validateGremName (ifName k)" and "ValidName (ifName k)" and "IsGeneratedName (ifName k)"
proof -
  have len: "length (to_hex (unat k)) \<le> 8"
    using length_to_hex [of 8 "unat k"] unat_less [of k] by simp
  show gen: "IsGeneratedName (ifName k)"
    by (auto simp: IsGeneratedName_iff ifName_def to_hex_is_hex)
  then show "validateGremName (ifName k)"
    using len by (auto simp: validateGremName_iff ifName_def)
  have "\<forall>c \<in> set (ifName k). is_alnum (ord c)"
  proof
    fix c
    assume "c \<in> set (ifName k)"
    then have "c \<in> set ''grem'' \<or> is_hex (ord c)"
      by (auto simp: ifName_def to_hex_is_hex split: if_splits)
    then show "is_alnum (ord c)" by (auto simp: rune_class_defs)
  qed
  then show "ValidName (ifName k)"
    using len by (auto simp: ValidName_iff name_rune_def ifName_def)
qed

section \<open>Properties\<close>

text \<open>
  A client identifier is accepted exactly when it has 1 to 64 bytes, each of them an ASCII
  letter, a digit, a dot, an underscore or a hyphen: the loop over runes lets no byte of a
  multi-byte sequence, no control character and no space through.
\<close>

theorem client_id_grammar:
  "ValidClientID cid \<longleftrightarrow>
     1 \<le> length cid \<and> length cid \<le> 64 \<and>
     list_all (\<lambda>c. is_alnum (ord c) \<or> c = CHR ''.'' \<or> c = CHR ''_'' \<or> c = CHR ''-'') cid"
proof -
  have "client_id_rune (ord c) \<longleftrightarrow> is_alnum (ord c) \<or> c = CHR ''.'' \<or> c = CHR ''_'' \<or> c = CHR ''-''" for c
    unfolding client_id_rune_def by (simp only: of_char_eq_iff)
  then show ?thesis by (auto simp: ValidClientID_iff list_all_iff Suc_le_eq)
qed

text \<open>
  The interface name the manager generates for a session key is a valid interface name, lies
  in the generated namespace that pinned names must avoid, and passes the check of the
  privileged broker; and two keys give the same name only if they are the same.
\<close>

theorem generated_names:
  "ValidName (ifName k) \<and> IsGeneratedName (ifName k) \<and> validateGremName (ifName k) \<and>
   (ifName k = ifName l \<longleftrightarrow> k = l)"
  by (simp add: ifName_props ifName_inject)

end
