(* ===== verification/Ippool.thy ===== *)
theory Ippool
  imports Netip
begin

text \<open>
  Package \<^verbatim>\<open>internal/ippool\<close>: the pool of inner tunnel addresses. A \<^verbatim>\<open>map[netip.Addr]bool\<close>
  whose values are only ever \<^verbatim>\<open>true\<close> is a finite set. Every method runs under the pool's
  mutex, so each is one function on the state. The locale \<open>address_pool\<close> is what a pool
  promises its clients; the pool of the code interprets it.
\<close>

section \<open>State and operations\<close>

record pool =
  pprefix :: prefix
  reserved :: "addr fset"
  pinned :: "addr fset"
  used :: "addr fset"

datatype pool_error =
    InvalidPrefix
  | ErrExhausted
  | OutsidePool addr
  | ReservedAddr addr
  | UnavailableAddr addr

text \<open>\<^verbatim>\<open>ippool.New\<close>\<close>

definition pool_new :: "prefix \<Rightarrow> addr list \<Rightarrow> (pool_error, pool) result" where
  "pool_new prefix0 rs =
     (let p = masked prefix0 in
      if \<not> prefix_valid p then Inl InvalidPrefix
      else Inr \<lparr>pprefix = p, reserved = fset_of_list (filter is_valid rs),
                pinned = {||}, used = {||}\<rparr>)"

text \<open>\<^verbatim>\<open>Pool.Pin\<close>\<close>

definition pool_pin :: "pool \<Rightarrow> addr \<Rightarrow> (pool_error, pool) result" where
  "pool_pin p a =
     (if \<not> contains (pprefix p) a then Inl (OutsidePool a)
      else if a |\<in>| reserved p then Inl (ReservedAddr a)
      else Inr (p\<lparr>pinned := finsert a (pinned p)\<rparr>))"

text \<open>\<^verbatim>\<open>Pool.Allocate\<close>: the loop over the addresses of the prefix, from a given one.\<close>

definition busy :: "pool \<Rightarrow> addr \<Rightarrow> bool" where
  "busy p a \<longleftrightarrow> a |\<in>| reserved p \<or> a |\<in>| pinned p \<or> a |\<in>| used p"

function alloc_scan :: "pool \<Rightarrow> addr \<Rightarrow> addr option" where
  "alloc_scan p a =
     (if contains (pprefix p) a
      then if busy p a then alloc_scan p (next_addr a) else Some a
      else None)"
  by pat_completeness auto

termination
proof (relation "measure (\<lambda>(p, a). if a = AddrZero then 0 else 2 ^ bitlen a - addr_nat a)")
  fix p a
  assume "contains (pprefix p) a"
  then have "is_valid a" by (rule contains_valid)
  then show "((p, next_addr a), (p, a))
      \<in> measure (\<lambda>(p, a). if a = AddrZero then 0 else 2 ^ bitlen a - addr_nat a)"
    using next_addr_props [of a] addr_nat_bound [of a] by (auto simp: diff_less_mono2)
qed simp

declare alloc_scan.simps [simp del]

definition pool_allocate :: "pool \<Rightarrow> (pool_error, addr) result \<times> pool" where
  "pool_allocate p =
     (case alloc_scan p (next_addr (pip (pprefix p))) of
        None \<Rightarrow> (Inl ErrExhausted, p)
      | Some a \<Rightarrow> (Inr a, p\<lparr>used := finsert a (used p)\<rparr>))"

text \<open>\<^verbatim>\<open>Pool.AllocateSpecific\<close>, \<^verbatim>\<open>Pool.Release\<close>, \<^verbatim>\<open>Pool.InUse\<close>\<close>

definition pool_allocate_specific :: "pool \<Rightarrow> addr \<Rightarrow> (pool_error, pool) result" where
  "pool_allocate_specific p a =
     (if \<not> contains (pprefix p) a then Inl (OutsidePool a)
      else if a |\<in>| reserved p \<or> a |\<in>| used p then Inl (UnavailableAddr a)
      else Inr (p\<lparr>used := finsert a (used p)\<rparr>))"

definition pool_release :: "pool \<Rightarrow> addr \<Rightarrow> pool" where
  "pool_release p a = p\<lparr>used := used p |-| {|a|}\<rparr>"

definition pool_in_use :: "pool \<Rightarrow> nat" where
  "pool_in_use p = fcard (used p)"

section \<open>Well-formed pools\<close>

text \<open>
  The prefix is masked, and everything in use lies in the prefix and is not reserved. Pinned
  addresses lie in the prefix as well.
\<close>

definition pool_wf :: "pool \<Rightarrow> bool" where
  "pool_wf p \<longleftrightarrow> prefix_wf (pprefix p) \<and>
     (\<forall>a. a |\<in>| used p \<longrightarrow> contains (pprefix p) a \<and> a |\<notin>| reserved p) \<and>
     (\<forall>a. a |\<in>| pinned p \<longrightarrow> contains (pprefix p) a \<and> a |\<notin>| reserved p)"

text \<open>The addresses \<^verbatim>\<open>Allocate\<close> may hand out when free: hosts that are neither reserved nor pinned.\<close>

definition dynamic :: "pool \<Rightarrow> addr set" where
  "dynamic p = {a. contains (pprefix p) a \<and> a \<noteq> pip (pprefix p) \<and>
                   a |\<notin>| reserved p \<and> a |\<notin>| pinned p}"

text \<open>The addresses \<^verbatim>\<open>AllocateSpecific\<close> may claim when free.\<close>

definition claimable :: "pool \<Rightarrow> addr set" where
  "claimable p = {a. contains (pprefix p) a \<and> a |\<notin>| reserved p}"

definition held :: "pool \<Rightarrow> addr set" where
  "held p = fset (used p)"

lemma pool_new_wf: "pool_new q rs = Inr p \<Longrightarrow> pool_wf p"
proof -
  assume new: "pool_new q rs = Inr p"
  then have "prefix_valid q"
    by (auto simp: pool_new_def masked_def prefix_zero_def prefix_valid_def Let_def split: if_splits)
  with new show ?thesis
    using prefix_wf_masked [of q] by (auto simp: pool_new_def pool_wf_def Let_def split: if_splits)
qed

lemma pool_pin_wf: "pool_pin p a = Inr p' \<Longrightarrow> pool_wf p \<Longrightarrow> pool_wf p'"
  by (auto simp: pool_pin_def pool_wf_def split: if_splits)

section \<open>The scan finds the least free address\<close>

lemma alloc_scan_spec:
  assumes wf: "prefix_wf (pprefix p)"
    and "zone a0 = ''''" "bitlen a0 = bitlen (pip (pprefix p))"
    and "pip (pprefix p) \<le> a0"
  shows "case alloc_scan p a0 of
      None \<Rightarrow> \<forall>b. contains (pprefix p) b \<and> a0 \<le> b \<longrightarrow> busy p b
    | Some a \<Rightarrow> contains (pprefix p) a \<and> \<not> busy p a \<and> a0 \<le> a \<and>
        (\<forall>b. contains (pprefix p) b \<and> a0 \<le> b \<and> b < a \<longrightarrow> busy p b)"
  using assms
proof (induction p a0 rule: alloc_scan.induct)
  case (1 p a0)
  note fam = contains_same_family [OF \<open>prefix_wf (pprefix p)\<close>]
  show ?case
  proof (cases "contains (pprefix p) a0 \<and> busy p a0")
    case False
    have out: "contains (pprefix p) a0" if "contains (pprefix p) b" "a0 \<le> b" for b
      using that "1.prems" fam [of b] contains_between [of "pprefix p" b a0] by simp
    show ?thesis
      using False out by (subst alloc_scan.simps) auto
  next
    case True
    then have scan: "alloc_scan p a0 = alloc_scan p (next_addr a0)"
      by (subst alloc_scan.simps) simp
    have ge: "a0 \<le> b \<Longrightarrow> contains (pprefix p) b \<Longrightarrow> b = a0 \<or> addr_nat a0 + 1 \<le> addr_nat b" for b
      using fam [of a0] fam [of b] True addr_nat_inject [of a0 b] by (auto simp: addr_le_iff)
    show ?thesis
    proof (cases "next_addr a0 = AddrZero")
      case top: True
      then have none: "alloc_scan p a0 = None"
        using scan contains_valid [of "pprefix p" AddrZero] by (subst (asm) (2) alloc_scan.simps) auto
      have "addr_nat a0 + 1 = 2 ^ bitlen a0"
        using True top by (intro next_addr_end contains_valid) auto
      then have "a0 \<le> b \<Longrightarrow> contains (pprefix p) b \<Longrightarrow> b = a0" for b
        using ge [of b] addr_nat_bound [of b] fam [of b] fam [of a0] True by auto
      with none True show ?thesis by auto
    next
      case False
      note next_addr_props [OF False]
      have fam0: "zone a0 = ''''" "bitlen a0 = bitlen (pip (pprefix p))"
        using "1.prems" by auto
      have up: "zone (next_addr a0) = ''''" "bitlen (next_addr a0) = bitlen (pip (pprefix p))"
        "a0 \<le> next_addr a0"
        using next_addr_props [OF False] fam0 by (auto simp: less_eq_addr_def)
      have ih: "case alloc_scan p (next_addr a0) of
          None \<Rightarrow> \<forall>b. contains (pprefix p) b \<and> next_addr a0 \<le> b \<longrightarrow> busy p b
        | Some a \<Rightarrow> contains (pprefix p) a \<and> \<not> busy p a \<and> next_addr a0 \<le> a \<and>
            (\<forall>b. contains (pprefix p) b \<and> next_addr a0 \<le> b \<and> b < a \<longrightarrow> busy p b)"
        using True up "1.prems" by (intro "1.IH") auto
      have step: "a0 \<le> b \<Longrightarrow> contains (pprefix p) b \<Longrightarrow> b = a0 \<or> next_addr a0 \<le> b" for b
        using ge [of b] fam [of b] up next_addr_props [OF False] by (auto simp: addr_le_iff)
      show ?thesis
        using ih step True up(3) unfolding scan
        by (auto split: option.splits intro: order_trans)
    qed
  qed
qed

text \<open>
  An allocation returns the least address that is free for dynamic use; it fails only when
  every such address is held, and then changes nothing.
\<close>

lemma pool_allocate_spec:
  assumes wf: "pool_wf p"
  shows "case pool_allocate p of
      (Inr a, p') \<Rightarrow> a \<in> dynamic p - held p \<and> (\<forall>b \<in> dynamic p - held p. a \<le> b) \<and>
        p' = p\<lparr>used := finsert a (used p)\<rparr>
    | (Inl e, p') \<Rightarrow> e = ErrExhausted \<and> p' = p \<and> dynamic p \<subseteq> held p"
proof -
  let ?net = "pip (pprefix p)"
  have pwf: "prefix_wf (pprefix p)" using wf by (simp add: pool_wf_def)
  then have net: "zone ?net = ''''" "is_valid ?net"
    by (auto simp: prefix_wf_def prefix_valid_def)
  have above: "addr_nat ?net + 1 \<le> addr_nat b" if b: "b \<noteq> ?net \<and> contains (pprefix p) b" for b
  proof -
    have "addr_nat ?net \<le> addr_nat b" and "zone b = ''''" and "bitlen b = bitlen ?net"
      using b contains_interval [OF pwf, of b] by blast+
    moreover have "addr_nat b \<noteq> addr_nat ?net"
      using b net calculation addr_nat_inject [of b ?net] by simp
    ultimately show ?thesis by linarith
  qed
  show ?thesis
  proof (cases "next_addr ?net = AddrZero")
    case True
    then have "addr_nat ?net + 1 = 2 ^ bitlen ?net"
      using net by (intro next_addr_end)
    then have "b \<notin> dynamic p" for b
      using above [of b] addr_nat_bound [of b] contains_same_family [OF pwf, of b]
      by (auto simp: dynamic_def)
    then have "dynamic p = {}" by blast
    moreover have "alloc_scan p (next_addr ?net) = None"
      using True contains_valid [of "pprefix p" AddrZero] by (subst alloc_scan.simps) auto
    ultimately show ?thesis by (simp add: pool_allocate_def)
  next
    case False
    note np = next_addr_props [OF False]
    have "?net \<le> next_addr ?net" using np by (auto simp: less_eq_addr_def)
    note spec = alloc_scan_spec [OF pwf _ _ this]
    have ge: "next_addr ?net \<le> b" if "b \<in> dynamic p" for b
      using that above [of b] np contains_same_family [OF pwf, of b] net
      by (auto simp: dynamic_def addr_le_iff)
    have ne: "a \<noteq> ?net" if "next_addr ?net \<le> a" for a
      using that np net by (auto simp: less_eq_addr_def)
    show ?thesis
      using spec np net ge ne
      by (auto simp: pool_allocate_def dynamic_def held_def busy_def not_le split: option.splits)
  qed
qed


section \<open>The interface of an address pool\<close>

text \<open>
  \<open>holds\<close> is what is handed out, \<open>hosts\<close> what may be handed out on demand, \<open>owned\<close> what may be
  claimed by name. An allocation takes a free host, a claim the address asked for; both fail
  exactly when they must, and a failure leaves the pool as it was.
\<close>

locale address_pool =
  fixes alloc :: "'p \<Rightarrow> ('e + 'a) \<times> 'p"
    and claim :: "'p \<Rightarrow> 'a \<Rightarrow> 'e + 'p"
    and release :: "'p \<Rightarrow> 'a \<Rightarrow> 'p"
    and holds :: "'p \<Rightarrow> 'a set"
    and hosts :: "'p \<Rightarrow> 'a set"
    and owned :: "'p \<Rightarrow> 'a set"
    and invar :: "'p \<Rightarrow> bool"
  assumes alloc_ok: "invar p \<Longrightarrow> alloc p = (Inr a, p') \<Longrightarrow>
      a \<in> hosts p \<and> a \<notin> holds p \<and> holds p' = insert a (holds p) \<and>
      hosts p' = hosts p \<and> owned p' = owned p \<and> invar p'"
    and alloc_err: "invar p \<Longrightarrow> alloc p = (Inl e, p') \<Longrightarrow> p' = p \<and> hosts p \<subseteq> holds p"
    and claim_ok: "invar p \<Longrightarrow> claim p a = Inr p' \<Longrightarrow>
      a \<in> owned p \<and> a \<notin> holds p \<and> holds p' = insert a (holds p) \<and>
      hosts p' = hosts p \<and> owned p' = owned p \<and> invar p'"
    and claim_err: "invar p \<Longrightarrow> claim p a = Inl e \<Longrightarrow> a \<notin> owned p \<or> a \<in> holds p"
    and release_ok: "invar p \<Longrightarrow> holds (release p a) = holds p - {a} \<and>
      hosts (release p a) = hosts p \<and> owned (release p a) = owned p \<and> invar (release p a)"
begin

lemma release_all:
  "invar p \<Longrightarrow> holds (foldl release p as) = holds p - set as \<and>
     hosts (foldl release p as) = hosts p \<and> owned (foldl release p as) = owned p \<and>
     invar (foldl release p as)"
proof (induction as arbitrary: p)
  case Nil
  then show ?case by simp
next
  case (Cons a as)
  then show ?case using release_ok [of p a] Cons.IH [of "release p a"] by auto
qed

lemma alloc_complete:
  assumes "invar p" "a \<in> hosts p" "a \<notin> holds p"
  shows "\<exists>b p'. alloc p = (Inr b, p')"
proof (cases "alloc p")
  case (Pair r p')
  then show ?thesis using assms alloc_err [of p _ p'] by (cases r) auto
qed

lemma claim_complete:
  assumes "invar p" "a \<in> owned p" "a \<notin> holds p"
  shows "\<exists>p'. claim p a = Inr p'"
  using assms claim_err [of p a] by (cases "claim p a") auto

end

lemma dynamic_update [simp]: "dynamic (p\<lparr>used := u\<rparr>) = dynamic p"
  by (simp add: dynamic_def)

lemma claimable_update [simp]: "claimable (p\<lparr>used := u\<rparr>) = claimable p"
  by (simp add: claimable_def)

lemma held_update [simp]: "held (p\<lparr>used := u\<rparr>) = fset u"
  by (simp add: held_def)

lemma pool_wf_update:
  "pool_wf p \<Longrightarrow> fset u \<subseteq> claimable p \<Longrightarrow> pool_wf (p\<lparr>used := u\<rparr>)"
  by (auto simp: pool_wf_def claimable_def)

lemma held_claimable: "pool_wf p \<Longrightarrow> held p \<subseteq> claimable p"
  by (auto simp: pool_wf_def claimable_def held_def)

lemma dynamic_claimable: "dynamic p \<subseteq> claimable p"
  by (auto simp: dynamic_def claimable_def)

interpretation ap: address_pool pool_allocate pool_allocate_specific pool_release
  held dynamic claimable pool_wf
proof
  fix p p' :: pool and a e
  assume wf: "pool_wf p"
  note sub = held_claimable [OF wf] dynamic_claimable [of p]
  show "a \<in> dynamic p \<and> a \<notin> held p \<and> held p' = insert a (held p) \<and>
      dynamic p' = dynamic p \<and> claimable p' = claimable p \<and> pool_wf p'"
    if "pool_allocate p = (Inr a, p')"
    using pool_allocate_spec [OF wf] that sub wf
    by (auto simp: held_def intro!: pool_wf_update)
  show "p' = p \<and> dynamic p \<subseteq> held p" if "pool_allocate p = (Inl e, p')"
    using pool_allocate_spec [OF wf] that by simp
  show "a \<in> claimable p \<and> a \<notin> held p \<and> held p' = insert a (held p) \<and>
      dynamic p' = dynamic p \<and> claimable p' = claimable p \<and> pool_wf p'"
    if "pool_allocate_specific p a = Inr p'"
    using that sub wf
    by (auto simp: pool_allocate_specific_def claimable_def held_def
        intro!: pool_wf_update split: if_splits)
  show "a \<notin> claimable p \<or> a \<in> held p" if "pool_allocate_specific p a = Inl e"
    using that by (auto simp: pool_allocate_specific_def claimable_def held_def split: if_splits)
  show "held (pool_release p a) = held p - {a} \<and> dynamic (pool_release p a) = dynamic p \<and>
      claimable (pool_release p a) = claimable p \<and> pool_wf (pool_release p a)"
    using sub wf by (auto simp: pool_release_def held_def intro!: pool_wf_update)
qed


section \<open>Sequences of operations\<close>

text \<open>The calls a client makes, one after the other under the pool's mutex, and what each hands out.\<close>

datatype pool_op = OpAllocate | OpClaim addr | OpRelease addr

fun pool_step :: "pool \<Rightarrow> pool_op \<Rightarrow> pool" where
  "pool_step p OpAllocate = snd (pool_allocate p)"
| "pool_step p (OpClaim a) = (case pool_allocate_specific p a of Inl _ \<Rightarrow> p | Inr p' \<Rightarrow> p')"
| "pool_step p (OpRelease a) = pool_release p a"

fun pool_grant :: "pool \<Rightarrow> pool_op \<Rightarrow> addr option" where
  "pool_grant p OpAllocate = (case fst (pool_allocate p) of Inl _ \<Rightarrow> None | Inr a \<Rightarrow> Some a)"
| "pool_grant p (OpClaim a) = (case pool_allocate_specific p a of Inl _ \<Rightarrow> None | Inr _ \<Rightarrow> Some a)"
| "pool_grant p (OpRelease a) = None"

definition pool_run :: "pool \<Rightarrow> pool_op list \<Rightarrow> pool" where
  "pool_run p ops = foldl pool_step p ops"

lemma pool_step_held:
  assumes "pool_wf p"
  shows "pool_wf (pool_step p op)"
    and "held (pool_step p op) = (case op of
      OpRelease a \<Rightarrow> held p - {a} | _ \<Rightarrow> held p \<union> set_option (pool_grant p op))"
    and "pool_grant p op = Some a \<Longrightarrow> a \<in> claimable p \<and> a \<notin> held p"
proof -
  have alloc: "pool_wf (snd (pool_allocate p)) \<and>
      held (snd (pool_allocate p)) = held p \<union> set_option (pool_grant p OpAllocate) \<and>
      (pool_grant p OpAllocate = Some b \<longrightarrow> b \<in> claimable p \<and> b \<notin> held p)" for b
    using ap.alloc_ok [OF assms] ap.alloc_err [OF assms] assms dynamic_claimable [of p]
    by (cases "pool_allocate p"; cases "fst (pool_allocate p)") auto
  show "pool_wf (pool_step p op)"
    using alloc ap.claim_ok [OF assms] ap.release_ok [OF assms] assms
    by (cases op) (auto split: sum.splits)
  show "held (pool_step p op) = (case op of
      OpRelease a \<Rightarrow> held p - {a} | _ \<Rightarrow> held p \<union> set_option (pool_grant p op))"
    using alloc ap.claim_ok [OF assms] ap.release_ok [OF assms]
    by (cases op) (auto split: sum.splits)
  show "pool_grant p op = Some a \<Longrightarrow> a \<in> claimable p \<and> a \<notin> held p"
    using alloc ap.claim_ok [OF assms] by (cases op) (auto split: sum.splits)
qed

lemma pool_run_wf: "pool_wf p \<Longrightarrow> pool_wf (pool_run p ops)"
  by (induction ops rule: rev_induct) (auto simp: pool_run_def pool_step_held)

lemma pool_run_keeps:
  "pool_wf p \<Longrightarrow> a \<in> held p \<Longrightarrow> OpRelease a \<notin> set ops \<Longrightarrow> a \<in> held (pool_run p ops)"
proof (induction ops rule: rev_induct)
  case Nil
  then show ?case by (simp add: pool_run_def)
next
  case (snoc op ops)
  then have "a \<in> held (pool_run p ops)" by simp
  then show ?case
    using snoc.prems pool_step_held(2) [OF pool_run_wf [OF snoc.prems(1)], of ops op]
    by (cases op) (auto simp: pool_run_def)
qed

text \<open>
  \<^verbatim>\<open>Pool.Allocate\<close> on a well-formed pool returns the least address that lies in the
  prefix, is not the network address and is neither reserved, pinned nor in use, and marks
  exactly it as used; it reports exhaustion only when there is no such address, and then
  leaves the pool unchanged.
\<close>

theorem pool_allocate_least:
  assumes "pool_wf p"
  shows "case pool_allocate p of
      (Inr a, p') \<Rightarrow> a \<in> dynamic p - held p \<and> (\<forall>b \<in> dynamic p - held p. a \<le> b) \<and>
        p' = p\<lparr>used := finsert a (used p)\<rparr>
    | (Inl e, p') \<Rightarrow> e = ErrExhausted \<and> p' = p \<and> dynamic p \<subseteq> held p"
  using assms by (rule pool_allocate_spec)

text \<open>
  No address is handed out twice: when an operation of a sequence grants an address and a
  later operation grants the same address, the address was released in between.
\<close>

theorem pool_no_double_grant:
  assumes "pool_wf p"
    and first: "pool_grant (pool_run p ops1) op1 = Some a"
    and again: "pool_grant (pool_run p (ops1 @ op1 # ops2)) op2 = Some a"
  shows "OpRelease a \<in> set ops2"
proof (rule ccontr)
  assume no: "OpRelease a \<notin> set ops2"
  let ?p1 = "pool_run p ops1"
  have wf1: "pool_wf ?p1" using assms(1) by (rule pool_run_wf)
  have "a \<in> held (pool_step ?p1 op1)"
    using pool_step_held(2) [OF wf1, of op1] first by (cases op1) auto
  then have "a \<in> held (pool_run (pool_step ?p1 op1) ops2)"
    using no pool_step_held(1) [OF wf1] by (intro pool_run_keeps)
  then have "a \<in> held (pool_run p (ops1 @ op1 # ops2))"
    by (simp add: pool_run_def)
  then show False
    using again pool_step_held(3) [OF pool_run_wf [OF assms(1)]] by blast
qed

section \<open>Witnesses\<close>

definition small_pool :: pool where
  "small_pool = \<lparr>pprefix = \<lparr>pip = V4 0x0a000000, pbits = 30\<rparr>, reserved = {|V4 0x0a000001|},
     pinned = {||}, used = {||}\<rparr>"

lemma small_pool_wf: "pool_wf small_pool"
  by (simp add: pool_wf_def small_pool_def prefix_wf_def prefix_valid_def masked_def host_bits_def
      drop_bit_eq_div)

theorem pool_allocate_least_witness:
  "\<exists>p'. pool_allocate small_pool = (Inr (V4 0x0a000002), p') \<and>
     V4 0x0a000002 \<in> dynamic small_pool - held small_pool"
proof -
  have "fst (pool_allocate small_pool) = Inr (V4 0x0a000002)" by code_simp
  then obtain p' where "pool_allocate small_pool = (Inr (V4 0x0a000002), p')" by (metis prod.collapse)
  with pool_allocate_least [OF small_pool_wf] show ?thesis by simp
qed

theorem pool_no_double_grant_witness:
  "OpRelease (V4 0x0a000003) \<in> set [OpAllocate, OpRelease (V4 0x0a000003)]"
proof -
  have "pool_grant (pool_run small_pool []) (OpClaim (V4 0x0a000003)) = Some (V4 0x0a000003)"
    "pool_grant (pool_run small_pool ([] @ OpClaim (V4 0x0a000003) #
       [OpAllocate, OpRelease (V4 0x0a000003)])) (OpClaim (V4 0x0a000003)) = Some (V4 0x0a000003)"
    by code_simp+
  from pool_no_double_grant [OF small_pool_wf this] show ?thesis .
qed

end
