(* ===== verification/Wire.thy ===== *)
theory Wire
  imports Netip "HOL-Library.Monad_Syntax"
begin

text \<open>
  The field encoder and decoder of \<^verbatim>\<open>internal/control/codec.go\<close>. An encoder method appends to
  the payload, so it is modelled by the bytes it appends. The decoder threads its buffer, its
  position and its first error through every read: it is a state monad, as in the code. The
  locale \<open>wire_field\<close> is the contract between a field's encoder and its decoder; the
  composition lemmas carry it from the fields to whole payloads.
\<close>

section \<open>The encoder\<close>

definition enc_u8 :: "8 word \<Rightarrow> bytes" where
  "enc_u8 v = [v]"

definition enc_u16 :: "16 word \<Rightarrow> bytes" where
  "enc_u16 v = be_bytes 2 v"

definition enc_u32 :: "32 word \<Rightarrow> bytes" where
  "enc_u32 v = be_bytes 4 v"

text \<open>The length prefix is \<^verbatim>\<open>uint16(len(s))\<close>, which wraps around.\<close>

definition enc_str :: "string \<Rightarrow> bytes" where
  "enc_str s = enc_u16 (of_nat (length s)) @ bytes_of_string s"

definition enc_bytes :: "bytes \<Rightarrow> bytes" where
  "enc_bytes p = enc_u16 (of_nat (length p)) @ p"

definition enc_addr :: "addr \<Rightarrow> bytes" where
  "enc_addr a =
     (if \<not> is_valid a then enc_u8 0
      else let b = marshal_binary a in enc_u8 (of_nat (length b)) @ b)"

section \<open>The decoder\<close>

datatype codec_error =
    ErrShortPayload
  | InvalidAddrLen nat
  | BadAddrBytes
  | TrailingBytes nat
  | BadNonceLen nat

record decoder =
  db :: bytes
  pos :: nat
  derr :: "codec_error option"

type_synonym 'a reader = "(decoder, 'a) state"

definition dec_new :: "bytes \<Rightarrow> decoder" where
  "dec_new b = \<lparr>db = b, pos = 0, derr = None\<rparr>"

definition dec_fail :: "decoder \<Rightarrow> decoder" where
  "dec_fail d = (if derr d = None then d\<lparr>derr := Some ErrShortPayload\<rparr> else d)"

definition dec_need :: "nat \<Rightarrow> bool reader" where
  "dec_need n = State (\<lambda>d.
     if derr d \<noteq> None then (False, d)
     else if length (db d) < pos d + n then (False, dec_fail d)
     else (True, d))"

text \<open>\<^verbatim>\<open>d.b[d.pos : d.pos+n]\<close> with \<^verbatim>\<open>d.pos += n\<close>; only reached when \<^verbatim>\<open>need(n)\<close> holds.\<close>

definition dec_take :: "nat \<Rightarrow> bytes reader" where
  "dec_take n = State (\<lambda>d. (take n (drop (pos d) (db d)), d\<lparr>pos := pos d + n\<rparr>))"

definition dec_seterr :: "codec_error \<Rightarrow> unit reader" where
  "dec_seterr e = State (\<lambda>d. ((), d\<lparr>derr := Some e\<rparr>))"

definition dec_u8 :: "8 word reader" where
  "dec_u8 = do { ok \<leftarrow> dec_need 1;
      if \<not> ok then State_Monad.return 0 else do { b \<leftarrow> dec_take 1; State_Monad.return (be_word b) } }"

definition dec_u16 :: "16 word reader" where
  "dec_u16 = do { ok \<leftarrow> dec_need 2;
      if \<not> ok then State_Monad.return 0 else do { b \<leftarrow> dec_take 2; State_Monad.return (be_word b) } }"

definition dec_u32 :: "32 word reader" where
  "dec_u32 = do { ok \<leftarrow> dec_need 4;
      if \<not> ok then State_Monad.return 0 else do { b \<leftarrow> dec_take 4; State_Monad.return (be_word b) } }"

definition dec_str :: "string reader" where
  "dec_str = do { n \<leftarrow> dec_u16; ok \<leftarrow> dec_need (unat n);
      if \<not> ok then State_Monad.return ''''
      else do { b \<leftarrow> dec_take (unat n); State_Monad.return (string_of_bytes b) } }"

definition dec_bytes :: "bytes reader" where
  "dec_bytes = do { n \<leftarrow> dec_u16; ok \<leftarrow> dec_need (unat n);
      if \<not> ok then State_Monad.return []
      else if unat n = 0 then State_Monad.return []
      else dec_take (unat n) }"

definition dec_addr :: "addr reader" where
  "dec_addr = do { l \<leftarrow> dec_u8; let n = unat l;
      if n = 0 then State_Monad.return AddrZero
      else if n \<noteq> 4 \<and> n \<noteq> 16 then do { dec_seterr (InvalidAddrLen n); State_Monad.return AddrZero }
      else do { ok \<leftarrow> dec_need n;
        if \<not> ok then State_Monad.return AddrZero
        else do { d \<leftarrow> State_Monad.get;
          case unmarshal_binary (take n (drop (pos d) (db d))) of
            None \<Rightarrow> do { dec_seterr BadAddrBytes; State_Monad.return AddrZero }
          | Some a \<Rightarrow> do { _ \<leftarrow> dec_take n; State_Monad.return a } } } }"

text \<open>\<^verbatim>\<open>finish\<close>: the pending error, or an error when bytes remain.\<close>

definition dec_finish :: "decoder \<Rightarrow> codec_error option" where
  "dec_finish d =
     (if derr d \<noteq> None then derr d
      else if pos d \<noteq> length (db d) then Some (TrailingBytes (length (db d) - pos d))
      else None)"

text \<open>A payload decoder: run the reads, then \<^verbatim>\<open>finish\<close>.\<close>

definition decode :: "'a reader \<Rightarrow> bytes \<Rightarrow> (codec_error, 'a) result" where
  "decode r b =
     (let (v, d) = run_state r (dec_new b) in
      case dec_finish d of None \<Rightarrow> Inr v | Some e \<Rightarrow> Inl e)"

section \<open>The contract of a field\<close>

text \<open>
  Started without error at a position of the buffer, a decoder that finds the encoding of a
  value returns the value and moves past it; a decoder that ends without error has read
  exactly the encoding of what it returns; an error is never forgotten; the buffer is never
  changed and the position never leaves it.
\<close>

definition cursor :: "bytes \<Rightarrow> nat \<Rightarrow> decoder" where
  "cursor b k = \<lparr>db = b, pos = k, derr = None\<rparr>"

locale wire_field =
  fixes enc :: "'a \<Rightarrow> bytes"
    and dec :: "'a reader"
    and ok :: "'a \<Rightarrow> bool"
  assumes dec_enc: "ok v \<Longrightarrow>
      run_state dec (cursor (pre @ enc v @ rest) (length pre))
      = (v, cursor (pre @ enc v @ rest) (length (pre @ enc v)))"
    and dec_sound: "k \<le> length b \<Longrightarrow> run_state dec (cursor b k) = (v, d) \<Longrightarrow> derr d = None \<Longrightarrow>
      ok v \<and> d = cursor b (k + length (enc v)) \<and> k + length (enc v) \<le> length b \<and>
      take (length (enc v)) (drop k b) = enc v"
    and dec_err: "derr d \<noteq> None \<Longrightarrow> derr (snd (run_state dec d)) \<noteq> None"
begin

lemma decode_enc: "ok v \<Longrightarrow> decode dec (enc v) = Inr v"
  using dec_enc [of v "[]" "[]"]
  by (simp add: decode_def dec_new_def cursor_def dec_finish_def)

lemma decode_canonical:
  assumes "decode dec b = Inr v"
  shows "ok v" and "enc v = b"
proof -
  obtain v' d where run: "run_state dec (cursor b 0) = (v', d)" by (metis surj_pair)
  with assms have fin: "dec_finish d = None" "v' = v"
    by (auto simp: decode_def dec_new_def cursor_def split: option.splits)
  then have "derr d = None" by (auto simp: dec_finish_def split: if_splits)
  from dec_sound [OF _ run this] fin
  show "ok v" and "enc v = b"
    by (auto simp: dec_finish_def cursor_def split: if_splits)
qed

lemma decode_iff: "decode dec b = Inr v \<longleftrightarrow> ok v \<and> b = enc v"
  using decode_enc decode_canonical by blast

end

section \<open>Composing fields\<close>

lemma wire_return: "wire_field (\<lambda>_. []) (State_Monad.return m0) (\<lambda>m. m = m0)"
  by unfold_locales (auto simp: State_Monad.return_def)

lemma wire_fail:
  assumes "\<And>d. derr (snd (run_state r d)) \<noteq> None"
  shows "wire_field e r (\<lambda>_. False)"
proof
  show "derr d \<noteq> None \<Longrightarrow> derr (snd (run_state r d)) \<noteq> None" for d using assms .
  show "False \<and> d = cursor b (k + length (e v)) \<and> k + length (e v) \<le> length b \<and>
      take (length (e v)) (drop k b) = e v"
    if "run_state r (cursor b k) = (v, d)" "derr d = None" for k b v d
    using that assms [of "cursor b k"] by simp
qed simp

text \<open>
  Sequencing: the value is a structure of which \<open>p\<close> reads the field that the first decoder
  returns, and \<open>ok\<close> is the condition on the whole structure.
\<close>

definition sticky :: "'a reader \<Rightarrow> bool" where
  "sticky r \<longleftrightarrow> (\<forall>d. derr d \<noteq> None \<longrightarrow> derr (snd (run_state r d)) \<noteq> None)"

lemma wire_sticky: "wire_field e r ok \<Longrightarrow> sticky r"
  using wire_field.dec_err unfolding sticky_def by blast

lemma sticky_return [simp]: "sticky (State_Monad.return x)"
  by (simp add: sticky_def State_Monad.return_def)

lemma sticky_bind [simp]: "sticky r \<Longrightarrow> (\<And>a. sticky (f a)) \<Longrightarrow> sticky (State_Monad.bind r f)"
  unfolding sticky_def State_Monad.bind_def by (simp add: split_beta)

lemma wire_bind:
  assumes first: "wire_field e1 d1 ok1"
    and rest: "\<And>a. ok1 a \<Longrightarrow> wire_field e2 (f a) (\<lambda>m. ok m \<and> p m = a)"
    and st: "\<And>a. sticky (f a)"
    and ok: "\<And>m. ok m \<Longrightarrow> ok1 (p m)"
    and enc: "\<And>m. e m = e1 (p m) @ e2 m"
  shows "wire_field e (State_Monad.bind d1 f) ok"
proof
  show "run_state (State_Monad.bind d1 f) (cursor (pre @ e m @ post) (length pre))
      = (m, cursor (pre @ e m @ post) (length (pre @ e m)))" if "ok m" for m pre post
    using wire_field.dec_enc [OF first ok [OF that], of pre "e2 m @ post"] that
      wire_field.dec_enc [OF rest [OF ok [OF that]], of m "pre @ e1 (p m)" post]
    by (simp add: State_Monad.bind_def enc)
next
  fix k b m d
  assume k: "k \<le> length b" and run: "run_state (State_Monad.bind d1 f) (cursor b k) = (m, d)"
    and ne: "derr d = None"
  obtain a d' where r1: "run_state d1 (cursor b k) = (a, d')" by (metis surj_pair)
  with run have r2: "run_state (f a) d' = (m, d)" by (simp add: State_Monad.bind_def)
  have "derr d' = None"
    using st [of a] r2 ne unfolding sticky_def by (metis snd_conv)
  from wire_field.dec_sound [OF first k r1 this]
  have s1: "ok1 a" "d' = cursor b (k + length (e1 a))" "k + length (e1 a) \<le> length b"
    "take (length (e1 a)) (drop k b) = e1 a" by auto
  from wire_field.dec_sound [OF rest [OF s1(1)] s1(3) r2 [unfolded s1(2)] ne]
  have s2: "ok m" "p m = a" "d = cursor b (k + length (e1 a) + length (e2 m))"
    "k + length (e1 a) + length (e2 m) \<le> length b"
    "take (length (e2 m)) (drop (k + length (e1 a)) b) = e2 m" by auto
  have "take (length (e m)) (drop k b) = e m"
    using s1(4) s2(2,5) by (simp add: enc take_add add.commute)
  then show "ok m \<and> d = cursor b (k + length (e m)) \<and> k + length (e m) \<le> length b \<and>
      take (length (e m)) (drop k b) = e m"
    using s1 s2 by (simp add: enc add.assoc)
next
  show "derr (snd (run_state (State_Monad.bind d1 f) d)) \<noteq> None" if "derr d \<noteq> None" for d
    using that sticky_bind [OF wire_sticky [OF first], of f] st unfolding sticky_def by blast
qed

lemma wire_pure: "(\<And>m. ok m \<longleftrightarrow> m = m0) \<Longrightarrow> wire_field (\<lambda>_. []) (State_Monad.return m0) ok"
  using wire_return [of m0] by (simp add: wire_field_def)

text \<open>A chunk of known size, converted by a bijection on the buffers of that size.\<close>

definition dec_chunk :: "nat \<Rightarrow> 'a \<Rightarrow> (bytes \<Rightarrow> 'a) \<Rightarrow> 'a reader" where
  "dec_chunk n z h = do { ok \<leftarrow> dec_need n;
     if \<not> ok then State_Monad.return z else do { b \<leftarrow> dec_take n; State_Monad.return (h b) } }"

lemma run_dec_chunk:
  "run_state (dec_chunk n z h) d =
     (if derr d \<noteq> None then (z, d)
      else if length (db d) < pos d + n then (z, d\<lparr>derr := Some ErrShortPayload\<rparr>)
      else (h (take n (drop (pos d) (db d))), d\<lparr>pos := pos d + n\<rparr>))"
  by (auto simp: dec_chunk_def dec_need_def dec_take_def dec_fail_def State_Monad.bind_def
      State_Monad.return_def)

lemma sticky_chunk [simp]: "sticky (dec_chunk n z h)"
  by (simp add: sticky_def run_dec_chunk)

lemma wire_chunk:
  assumes "\<And>v. ok v \<Longrightarrow> length (g v) = n \<and> h (g v) = v"
    and "\<And>b. length b = n \<Longrightarrow> ok (h b) \<and> g (h b) = b"
  shows "wire_field g (dec_chunk n z h) ok"
proof
  fix k b v d
  assume "k \<le> length b" "run_state (dec_chunk n z h) (cursor b k) = (v, d)" "derr d = None"
  then have "k + n \<le> length b" "v = h (take n (drop k b))" "d = cursor b (k + n)"
    by (auto simp: run_dec_chunk cursor_def split: if_splits)
  moreover from this assms(2) [of "take n (drop k b)"]
  have "ok v \<and> g v = take n (drop k b)" by simp
  ultimately show "ok v \<and> d = cursor b (k + length (g v)) \<and> k + length (g v) \<le> length b \<and>
      take (length (g v)) (drop k b) = g v"
    using assms(1) [of v] by simp
qed (use assms(1) in \<open>auto simp: run_dec_chunk cursor_def\<close>)

section \<open>The fields\<close>

lemma dec_word_chunk:
  "dec_u8 = dec_chunk 1 0 be_word" "dec_u16 = dec_chunk 2 0 be_word" "dec_u32 = dec_chunk 4 0 be_word"
  by (simp_all only: dec_u8_def dec_u16_def dec_u32_def dec_chunk_def)

lemma wire_word:
  assumes "LENGTH('a) = 8 * n"
  shows "wire_field (be_bytes n :: 'a::len word \<Rightarrow> bytes) (dec_chunk n 0 be_word) (\<lambda>_. True)"
  using assms by (intro wire_chunk) (auto simp: be_word_be_bytes be_bytes_be_word)

lemma enc_u8_be: "enc_u8 = be_bytes 1"
  by (auto simp: enc_u8_def)

interpretation u8: wire_field enc_u8 dec_u8 "\<lambda>_. True"
  unfolding dec_word_chunk enc_u8_be by (rule wire_word) simp

interpretation u16: wire_field enc_u16 dec_u16 "\<lambda>_. True"
  unfolding dec_word_chunk enc_u16_def by (rule wire_word) simp

interpretation u32: wire_field enc_u32 dec_u32 "\<lambda>_. True"
  unfolding dec_word_chunk enc_u32_def by (rule wire_word) simp

lemma unat16_bound [simp]: "unat (n :: 16 word) < 65536"
  using unat_less [of n] by simp

lemma unat_of_nat16 [simp]: "x < 65536 \<Longrightarrow> unat (of_nat x :: 16 word) = x"
  by (simp add: unsigned_of_nat take_bit_nat_eq_self)

interpretation str: wire_field enc_str dec_str "\<lambda>s. length s < 65536"
  unfolding dec_str_def dec_chunk_def [symmetric]
proof (rule wire_bind [where p = "\<lambda>s. of_nat (length s)", OF u16.wire_field_axioms])
  show "wire_field bytes_of_string (dec_chunk (unat n) '''' string_of_bytes)
      (\<lambda>s. length s < 65536 \<and> of_nat (length s) = n)" for n :: "16 word"
    by (rule wire_chunk) auto
qed (auto simp: enc_str_def)

lemma dec_bytes_chunk:
  "dec_bytes = do { n \<leftarrow> dec_u16; dec_chunk (unat n) [] (\<lambda>b. b) }"
proof -
  have "do { ok \<leftarrow> dec_need m; if \<not> ok then State_Monad.return []
        else if m = 0 then State_Monad.return [] else dec_take m } = dec_chunk m [] (\<lambda>b. b)" for m
    by (rule state.expand)
      (auto simp: run_dec_chunk fun_eq_iff dec_need_def dec_take_def dec_fail_def
        State_Monad.bind_def State_Monad.return_def)
  then show ?thesis by (simp add: dec_bytes_def)
qed

interpretation byt: wire_field enc_bytes dec_bytes "\<lambda>p. length p < 65536"
  unfolding dec_bytes_chunk
proof (rule wire_bind [where p = "\<lambda>p. of_nat (length p)", OF u16.wire_field_axioms])
  show "wire_field (\<lambda>p. p) (dec_chunk (unat n) [] (\<lambda>b. b))
      (\<lambda>p. length p < 65536 \<and> of_nat (length p) = n)" for n :: "16 word"
    by (rule wire_chunk) auto
qed (auto simp: enc_bytes_def)

lemma enc_addr_split:
  "enc_addr a = enc_u8 (of_nat (length (marshal_binary a))) @ marshal_binary a"
  by (cases a) (simp_all add: enc_addr_def Let_def)

definition addr_tail :: "8 word \<Rightarrow> addr reader" where
  "addr_tail l =
     (if unat l = 0 then State_Monad.return AddrZero
      else if unat l \<noteq> 4 \<and> unat l \<noteq> 16
      then do { dec_seterr (InvalidAddrLen (unat l)); State_Monad.return AddrZero }
      else dec_chunk (unat l) AddrZero (\<lambda>b. the (unmarshal_binary b)))"

lemma dec_addr_tail: "dec_addr = do { l \<leftarrow> dec_u8; addr_tail l }"
proof -
  have "do { ok \<leftarrow> dec_need n;
        if \<not> ok then State_Monad.return AddrZero
        else do { d \<leftarrow> State_Monad.get;
          case unmarshal_binary (take n (drop (pos d) (db d))) of
            None \<Rightarrow> do { dec_seterr BadAddrBytes; State_Monad.return AddrZero }
          | Some a \<Rightarrow> do { _ \<leftarrow> dec_take n; State_Monad.return a } } }
      = dec_chunk n AddrZero (\<lambda>b. the (unmarshal_binary b))" if "n = 4 \<or> n = 16" for n
    using that
    by (intro state.expand)
      (auto simp: run_dec_chunk fun_eq_iff dec_need_def dec_take_def dec_fail_def
        State_Monad.bind_def State_Monad.return_def State_Monad.get_def unmarshal_binary_def
        split: option.splits)
  then show ?thesis
    unfolding dec_addr_def Let_def addr_tail_def
    by (intro arg_cong [where f = "State_Monad.bind dec_u8"] ext) (auto cong: if_cong)
qed

interpretation adr: wire_field enc_addr dec_addr "\<lambda>a. zone a = ''''"
  unfolding dec_addr_tail
proof (rule wire_bind [where p = "\<lambda>a. of_nat (length (marshal_binary a))", OF u8.wire_field_axioms])
  show "sticky (addr_tail l)" for l
    by (simp add: addr_tail_def sticky_def dec_seterr_def State_Monad.bind_def
        State_Monad.return_def run_dec_chunk)
  fix l :: "8 word"
  let ?ok = "\<lambda>a. zone a = '''' \<and> of_nat (length (marshal_binary a)) = l"
  have len: "?ok a \<longleftrightarrow> zone a = '''' \<and>
      (is4 a \<and> l = 4 \<or> is6 a \<and> l = 16 \<or> a = AddrZero \<and> l = 0)" for a
    by (cases a) auto
  consider "l = 0" | "l \<noteq> 0" "l \<noteq> 4" "l \<noteq> 16" | "l = 4" | "l = 16"
    by blast
  then show "wire_field marshal_binary (addr_tail l) ?ok"
  proof cases
    case 1
    then have "?ok = (\<lambda>a. a = AddrZero)"
      unfolding len by auto
    then show ?thesis
      using wire_return [of AddrZero] 1 by (auto simp: addr_tail_def wire_field_def)
  next
    case 2
    have "unat l \<notin> {0, 4, 16}"
      using 2 unat_inject [of l 0] unat_inject [of l 4] unat_inject [of l 16] by auto
    moreover have "?ok = (\<lambda>a. False)"
      using 2 unfolding len by auto
    ultimately show ?thesis
      by (auto simp: addr_tail_def dec_seterr_def State_Monad.bind_def State_Monad.return_def
          intro!: wire_fail)
  next
    case 3
    then have "addr_tail l = dec_chunk 4 AddrZero (\<lambda>b. the (unmarshal_binary b))"
      by (simp add: addr_tail_def)
    moreover have "wire_field marshal_binary \<dots> ?ok"
    proof (rule wire_chunk)
      show "length (marshal_binary a) = 4 \<and> the (unmarshal_binary (marshal_binary a)) = a"
        if "?ok a" for a
        using that [unfolded len] 3 unmarshal_marshal_binary [of a]
        by (cases a) auto
      show "?ok (the (unmarshal_binary b)) \<and> marshal_binary (the (unmarshal_binary b)) = b"
        if "length b = 4" for b
        using that 3 be_bytes_be_word [of b, where ?'a = 32]
        by (simp add: unmarshal_binary_def)
    qed
    ultimately show ?thesis by simp
  next
    case 4
    then have "addr_tail l = dec_chunk 16 AddrZero (\<lambda>b. the (unmarshal_binary b))"
      by (simp add: addr_tail_def)
    moreover have "wire_field marshal_binary \<dots> ?ok"
    proof (rule wire_chunk)
      show "length (marshal_binary a) = 16 \<and> the (unmarshal_binary (marshal_binary a)) = a"
        if "?ok a" for a
        using that [unfolded len] 4 unmarshal_marshal_binary [of a]
        by (cases a) auto
      show "?ok (the (unmarshal_binary b)) \<and> marshal_binary (the (unmarshal_binary b)) = b"
        if "length b = 16" for b
        using that 4 be_bytes_be_word [of b, where ?'a = 128]
        by (simp add: unmarshal_binary_def)
    qed
    ultimately show ?thesis by simp
  qed
qed (auto simp: enc_addr_split)

end
