(* ===== verification/Codec.thy ===== *)
theory Codec
  imports Wire
begin

text \<open>
  The control messages of \<^verbatim>\<open>internal/control/proto.go\<close>, their payloads and frames
  (\<^verbatim>\<open>codec.go\<close>), and the byte streams they travel on. A connection is the bytes that will
  still arrive with the error that follows them, the bytes sent so far, and the outcomes the
  next calls of \<^verbatim>\<open>Write\<close> will have (partial writes and failures; complete writes when the plan
  is used up).
\<close>

section \<open>Connections\<close>

datatype io_error = EOF | UnexpectedEOF | ShortWrite | IOFailure string

datatype write_outcome = Wrote nat | WriteFailed nat io_error

record conn =
  inbuf :: bytes
  rend :: io_error
  outbuf :: bytes
  wplan :: "write_outcome list"

definition sent_upto :: "nat \<Rightarrow> bytes \<Rightarrow> conn \<Rightarrow> conn" where
  "sent_upto n p c = c\<lparr>outbuf := outbuf c @ take n p, wplan := tl (wplan c)\<rparr>"

text \<open>One call of \<^verbatim>\<open>w.Write(p)\<close>: the count, the error, the connection afterwards.\<close>

definition conn_write :: "bytes \<Rightarrow> conn \<Rightarrow> nat \<times> io_error option \<times> conn" where
  "conn_write p c = (case wplan c of
      [] \<Rightarrow> (length p, None, sent_upto (length p) p c)
    | Wrote n # _ \<Rightarrow> (min n (length p), None, sent_upto n p c)
    | WriteFailed n e # _ \<Rightarrow> (min n (length p), Some e, sent_upto n p c))"

text \<open>\<^verbatim>\<open>writeFull\<close>\<close>

function write_full :: "bytes \<Rightarrow> conn \<Rightarrow> io_error option \<times> conn" where
  "write_full p c =
     (if p = [] then (None, c)
      else let (n, err, c') = conn_write p c in
        case err of
          Some e \<Rightarrow> (Some e, c')
        | None \<Rightarrow> if n = 0 then (Some ShortWrite, c') else write_full (drop n p) c')"
  by pat_completeness auto

termination
  by (relation "measure (\<lambda>(p, c). length p)") auto

declare write_full.simps [simp del]

text \<open>\<^verbatim>\<open>io.ReadFull\<close>\<close>

definition read_full :: "nat \<Rightarrow> conn \<Rightarrow> (io_error, bytes) result \<times> conn" where
  "read_full n c =
     (if n \<le> length (inbuf c) then (Inr (take n (inbuf c)), c\<lparr>inbuf := drop n (inbuf c)\<rparr>)
      else (Inl (if inbuf c \<noteq> [] \<and> rend c = EOF then UnexpectedEOF else rend c), c\<lparr>inbuf := []\<rparr>))"

section \<open>Messages\<close>

definition ProtoVersion :: "8 word" where
  "ProtoVersion = 2"

definition supportedProtocolVersion :: "8 word \<Rightarrow> bool" where
  "supportedProtocolVersion v \<longleftrightarrow> v = ProtoVersion"

definition TunnelFlagGREKey :: "32 word" where
  "TunnelFlagGREKey = 1"

definition TunnelFlagGRESeq :: "32 word" where
  "TunnelFlagGRESeq = 2"

definition ResultOK :: "8 word" where "ResultOK = 0"
definition ResultAuthFailed :: "8 word" where "ResultAuthFailed = 1"
definition ResultNoAddresses :: "8 word" where "ResultNoAddresses = 2"
definition ResultUnsupported :: "8 word" where "ResultUnsupported = 3"
definition ResultInternal :: "8 word" where "ResultInternal = 4"

definition NonceLen :: nat where
  "NonceLen = 32"

record session_reply =
  Result :: "8 word"
  ClientInner :: addr
  ServerInner :: addr
  ServerOuter :: addr
  GREKey :: "32 word"
  TunnelFlags :: "32 word"
  MTU :: "16 word"
  Message :: string
  ServerMAC :: bytes

datatype message =
    Hello (ClientID: string) (Capabilities: "32 word")
  | Challenge (Nonce: bytes)
  | Auth (MAC: bytes)
  | SessionRequest (OuterMTU: "16 word") (RequestedInner: addr)
  | SessionReply (Reply: session_reply)
  | Echo (EchoSeq: "32 word")
  | EchoAck (EchoAckSeq: "32 word")
  | Teardown (Reason: string)
  | Encrypted (Ciphertext: bytes)

text \<open>The concrete type of a message, by which \<^verbatim>\<open>newMessage\<close> picks the decoder.\<close>

datatype msg_kind =
    KHello | KChallenge | KAuth | KSessionRequest | KSessionReply | KEcho | KEchoAck
  | KTeardown | KEncrypted

fun kind_of :: "message \<Rightarrow> msg_kind" where
  "kind_of (Hello _ _) = KHello"
| "kind_of (Challenge _) = KChallenge"
| "kind_of (Auth _) = KAuth"
| "kind_of (SessionRequest _ _) = KSessionRequest"
| "kind_of (SessionReply _) = KSessionReply"
| "kind_of (Echo _) = KEcho"
| "kind_of (EchoAck _) = KEchoAck"
| "kind_of (Teardown _) = KTeardown"
| "kind_of (Encrypted _) = KEncrypted"

fun kind_type :: "msg_kind \<Rightarrow> 8 word" where
  "kind_type KHello = 1"
| "kind_type KChallenge = 2"
| "kind_type KAuth = 3"
| "kind_type KSessionRequest = 4"
| "kind_type KSessionReply = 5"
| "kind_type KEcho = 6"
| "kind_type KEchoAck = 7"
| "kind_type KTeardown = 8"
| "kind_type KEncrypted = 9"

definition msg_type :: "message \<Rightarrow> 8 word" where
  "msg_type m = kind_type (kind_of m)"

definition newMessage :: "8 word \<Rightarrow> msg_kind option" where
  "newMessage t =
     (if t = 1 then Some KHello else if t = 2 then Some KChallenge
      else if t = 3 then Some KAuth else if t = 4 then Some KSessionRequest
      else if t = 5 then Some KSessionReply else if t = 6 then Some KEcho
      else if t = 7 then Some KEchoAck else if t = 8 then Some KTeardown
      else if t = 9 then Some KEncrypted else None)"

section \<open>Payloads\<close>

definition marshal_reply :: "session_reply \<Rightarrow> bytes" where
  "marshal_reply m =
     enc_u8 (Result m) @ enc_addr (ClientInner m) @ enc_addr (ServerInner m) @
     enc_addr (ServerOuter m) @ enc_u32 (GREKey m) @ enc_u32 (TunnelFlags m) @
     enc_u16 (MTU m) @ enc_str (Message m) @ enc_bytes (ServerMAC m)"

fun marshalPayload :: "message \<Rightarrow> bytes" where
  "marshalPayload (Hello cid caps) = enc_str cid @ enc_u32 caps"
| "marshalPayload (Challenge n) = n"
| "marshalPayload (Auth mac) = enc_bytes mac"
| "marshalPayload (SessionRequest mtu a) = enc_u16 mtu @ enc_addr a"
| "marshalPayload (SessionReply r) = marshal_reply r"
| "marshalPayload (Echo s) = enc_u32 s"
| "marshalPayload (EchoAck s) = enc_u32 s"
| "marshalPayload (Teardown r) = enc_str r"
| "marshalPayload (Encrypted c) = enc_bytes c"

definition dec_hello :: "message reader" where
  "dec_hello = do { cid \<leftarrow> dec_str; caps \<leftarrow> dec_u32; State_Monad.return (Hello cid caps) }"

definition dec_session_request :: "message reader" where
  "dec_session_request = do { mtu \<leftarrow> dec_u16; a \<leftarrow> dec_addr; State_Monad.return (SessionRequest mtu a) }"

definition dec_session_reply :: "message reader" where
  "dec_session_reply = do {
     r \<leftarrow> dec_u8; ci \<leftarrow> dec_addr; si \<leftarrow> dec_addr; so \<leftarrow> dec_addr;
     k \<leftarrow> dec_u32; fl \<leftarrow> dec_u32; mtu \<leftarrow> dec_u16; msg \<leftarrow> dec_str; mac \<leftarrow> dec_bytes;
     State_Monad.return (SessionReply \<lparr>Result = r, ClientInner = ci, ServerInner = si,
       ServerOuter = so, GREKey = k, TunnelFlags = fl, MTU = mtu, Message = msg, ServerMAC = mac\<rparr>) }"

definition dec_as :: "('a \<Rightarrow> message) \<Rightarrow> 'a reader \<Rightarrow> message reader" where
  "dec_as con r = do { v \<leftarrow> r; State_Monad.return (con v) }"

fun unmarshalPayload :: "msg_kind \<Rightarrow> bytes \<Rightarrow> (codec_error, message) result" where
  "unmarshalPayload KHello b = decode dec_hello b"
| "unmarshalPayload KChallenge b =
     (if length b \<noteq> NonceLen then Inl (BadNonceLen (length b)) else Inr (Challenge b))"
| "unmarshalPayload KAuth b = decode (dec_as Auth dec_bytes) b"
| "unmarshalPayload KSessionRequest b = decode dec_session_request b"
| "unmarshalPayload KSessionReply b = decode dec_session_reply b"
| "unmarshalPayload KEcho b = decode (dec_as Echo dec_u32) b"
| "unmarshalPayload KEchoAck b = decode (dec_as EchoAck dec_u32) b"
| "unmarshalPayload KTeardown b = decode (dec_as Teardown dec_str) b"
| "unmarshalPayload KEncrypted b = decode (dec_as Encrypted dec_bytes) b"

text \<open>\<^verbatim>\<open>sessionReplyProofPayload\<close>: the stable subset of a reply.\<close>

definition sessionReplyProofPayload :: "session_reply \<Rightarrow> bytes" where
  "sessionReplyProofPayload m =
     enc_u8 (Result m) @ enc_addr (ClientInner m) @ enc_addr (ServerInner m) @
     enc_addr (ServerOuter m) @ enc_u32 (GREKey m) @ enc_u32 (TunnelFlags m) @ enc_u16 (MTU m)"

section \<open>Frames\<close>

definition frameHeaderLen :: nat where
  "frameHeaderLen = 4"

definition MaxPayload :: nat where
  "MaxPayload = 0xffff"

text \<open>The frame of a message; the length field is \<^verbatim>\<open>uint16(len(payload))\<close>.\<close>

definition marshalPlainFrame :: "message \<Rightarrow> bytes" where
  "marshalPlainFrame m =
     (let payload = marshalPayload m in
      be_bytes 2 (of_nat (length payload) :: 16 word) @ [ProtoVersion, msg_type m] @ payload)"

datatype write_error = PayloadTooLarge nat | WriteIO io_error

definition WriteMessage :: "message \<Rightarrow> conn \<Rightarrow> write_error option \<times> conn" where
  "WriteMessage m c =
     (if MaxPayload < length (marshalPayload m)
      then (Some (PayloadTooLarge (length (marshalPayload m))), c)
      else let (e, c') = write_full (marshalPlainFrame m) c in (map_option WriteIO e, c'))"

datatype read_error =
    ReadIO io_error
  | UnsupportedVersion "8 word"
  | PayloadExceeds nat nat
  | UnknownType "8 word"
  | BadPayload codec_error

definition ReadMessageLimited :: "nat \<Rightarrow> conn \<Rightarrow> (read_error, message) result \<times> conn" where
  "ReadMessageLimited maxPayload c =
     (case read_full frameHeaderLen c of
        (Inl e, c1) \<Rightarrow> (Inl (ReadIO e), c1)
      | (Inr hdr, c1) \<Rightarrow>
          let payloadLen = unat (be_word (take 2 hdr) :: 16 word); version = hdr ! 2; t = hdr ! 3 in
          if \<not> supportedProtocolVersion version then (Inl (UnsupportedVersion version), c1)
          else if maxPayload < payloadLen then (Inl (PayloadExceeds payloadLen maxPayload), c1)
          else case newMessage t of
            None \<Rightarrow> (Inl (UnknownType t), c1)
          | Some k \<Rightarrow>
              (case read_full payloadLen c1 of
                 (Inl e, c2) \<Rightarrow> (Inl (ReadIO e), c2)
               | (Inr payload, c2) \<Rightarrow>
                   (case unmarshalPayload k payload of
                      Inl e \<Rightarrow> (Inl (BadPayload e), c2)
                    | Inr m \<Rightarrow> (Inr m, c2))))"

definition ReadMessage :: "conn \<Rightarrow> (read_error, message) result \<times> conn" where
  "ReadMessage c = ReadMessageLimited MaxPayload c"


section \<open>Payloads round-trip and are canonical\<close>

text \<open>
  A message is well-formed when every variable-length field fits its 16-bit length, every
  address is free of a zone and a challenge carries a nonce of the right size.
\<close>

fun msg_ok :: "message \<Rightarrow> bool" where
  "msg_ok (Hello cid _) = (length cid < 65536)"
| "msg_ok (Challenge n) = (length n = NonceLen)"
| "msg_ok (Auth mac) = (length mac < 65536)"
| "msg_ok (SessionRequest _ a) = (zone a = '''')"
| "msg_ok (SessionReply r) = (zone (ClientInner r) = '''' \<and> zone (ServerInner r) = '''' \<and>
     zone (ServerOuter r) = '''' \<and> length (Message r) < 65536 \<and> length (ServerMAC r) < 65536)"
| "msg_ok (Teardown r) = (length r < 65536)"
| "msg_ok (Encrypted c) = (length c < 65536)"
| "msg_ok _ = True"

lemmas field_axioms = u8.wire_field_axioms u16.wire_field_axioms u32.wire_field_axioms
  str.wire_field_axioms byt.wire_field_axioms adr.wire_field_axioms

lemmas field_sticky [simp] = field_axioms [THEN wire_sticky]

lemma kind_ofD:
  "kind_of m = KHello \<longleftrightarrow> (\<exists>c k. m = Hello c k)"
  "kind_of m = KChallenge \<longleftrightarrow> (\<exists>n. m = Challenge n)"
  "kind_of m = KAuth \<longleftrightarrow> (\<exists>x. m = Auth x)"
  "kind_of m = KSessionRequest \<longleftrightarrow> (\<exists>u a. m = SessionRequest u a)"
  "kind_of m = KSessionReply \<longleftrightarrow> (\<exists>r. m = SessionReply r)"
  "kind_of m = KEcho \<longleftrightarrow> (\<exists>s. m = Echo s)"
  "kind_of m = KEchoAck \<longleftrightarrow> (\<exists>s. m = EchoAck s)"
  "kind_of m = KTeardown \<longleftrightarrow> (\<exists>r. m = Teardown r)"
  "kind_of m = KEncrypted \<longleftrightarrow> (\<exists>c. m = Encrypted c)"
  by (cases m; simp)+

lemma wire_hello:
  "wire_field (\<lambda>m. enc_str (ClientID m) @ enc_u32 (Capabilities m) @ []) dec_hello
     (\<lambda>m. kind_of m = KHello \<and> msg_ok m)"
  unfolding dec_hello_def
  by (rule wire_bind [where p = ClientID, OF str.wire_field_axioms],
      rule wire_bind [where p = Capabilities, OF u32.wire_field_axioms],
      rule wire_pure) (auto simp: kind_ofD)

lemma wire_session_request:
  "wire_field (\<lambda>m. enc_u16 (OuterMTU m) @ enc_addr (RequestedInner m) @ []) dec_session_request
     (\<lambda>m. kind_of m = KSessionRequest \<and> msg_ok m)"
  unfolding dec_session_request_def
  by (rule wire_bind [where p = OuterMTU, OF u16.wire_field_axioms],
      rule wire_bind [where p = RequestedInner, OF adr.wire_field_axioms],
      rule wire_pure) (auto simp: kind_ofD)

lemma wire_session_reply:
  "wire_field (\<lambda>m. marshal_reply (Reply m)) dec_session_reply
     (\<lambda>m. kind_of m = KSessionReply \<and> msg_ok m)"
proof -
  have "wire_field (\<lambda>m. enc_u8 (Result (Reply m)) @ enc_addr (ClientInner (Reply m)) @
      enc_addr (ServerInner (Reply m)) @ enc_addr (ServerOuter (Reply m)) @
      enc_u32 (GREKey (Reply m)) @ enc_u32 (TunnelFlags (Reply m)) @ enc_u16 (MTU (Reply m)) @
      enc_str (Message (Reply m)) @ enc_bytes (ServerMAC (Reply m)) @ []) dec_session_reply
     (\<lambda>m. kind_of m = KSessionReply \<and> msg_ok m)"
    unfolding dec_session_reply_def
    by (rule wire_bind [where p = "\<lambda>m. Result (Reply m)", OF u8.wire_field_axioms],
        rule wire_bind [where p = "\<lambda>m. ClientInner (Reply m)", OF adr.wire_field_axioms],
        rule wire_bind [where p = "\<lambda>m. ServerInner (Reply m)", OF adr.wire_field_axioms],
        rule wire_bind [where p = "\<lambda>m. ServerOuter (Reply m)", OF adr.wire_field_axioms],
        rule wire_bind [where p = "\<lambda>m. GREKey (Reply m)", OF u32.wire_field_axioms],
        rule wire_bind [where p = "\<lambda>m. TunnelFlags (Reply m)", OF u32.wire_field_axioms],
        rule wire_bind [where p = "\<lambda>m. MTU (Reply m)", OF u16.wire_field_axioms],
        rule wire_bind [where p = "\<lambda>m. Message (Reply m)", OF str.wire_field_axioms],
        rule wire_bind [where p = "\<lambda>m. ServerMAC (Reply m)", OF byt.wire_field_axioms],
        rule wire_pure) (auto simp: kind_ofD)
  then show ?thesis by (simp add: marshal_reply_def)
qed

lemma wire_as:
  assumes "wire_field e r ok0" and "\<And>m. ok m \<longleftrightarrow> (\<exists>v. m = con v \<and> ok0 v)"
    and "\<And>v. sel (con v) = v"
  shows "wire_field (\<lambda>m. e (sel m) @ []) (dec_as con r) ok"
  unfolding dec_as_def
  by (rule wire_bind [where p = sel, OF assms(1)], rule wire_pure) (use assms(2,3) in auto)

lemma wire_simple:
  "wire_field (\<lambda>m. enc_bytes (MAC m) @ []) (dec_as Auth dec_bytes) (\<lambda>m. kind_of m = KAuth \<and> msg_ok m)"
  "wire_field (\<lambda>m. enc_u32 (EchoSeq m) @ []) (dec_as Echo dec_u32) (\<lambda>m. kind_of m = KEcho \<and> msg_ok m)"
  "wire_field (\<lambda>m. enc_u32 (EchoAckSeq m) @ []) (dec_as EchoAck dec_u32)
     (\<lambda>m. kind_of m = KEchoAck \<and> msg_ok m)"
  "wire_field (\<lambda>m. enc_str (Reason m) @ []) (dec_as Teardown dec_str)
     (\<lambda>m. kind_of m = KTeardown \<and> msg_ok m)"
  "wire_field (\<lambda>m. enc_bytes (Ciphertext m) @ []) (dec_as Encrypted dec_bytes)
     (\<lambda>m. kind_of m = KEncrypted \<and> msg_ok m)"
proof -
  show "wire_field (\<lambda>m. enc_bytes (MAC m) @ []) (dec_as Auth dec_bytes)
      (\<lambda>m. kind_of m = KAuth \<and> msg_ok m)"
    by (rule wire_as [OF byt.wire_field_axioms]) (auto simp: kind_ofD)
  show "wire_field (\<lambda>m. enc_u32 (EchoSeq m) @ []) (dec_as Echo dec_u32)
      (\<lambda>m. kind_of m = KEcho \<and> msg_ok m)"
    by (rule wire_as [OF u32.wire_field_axioms]) (auto simp: kind_ofD)
  show "wire_field (\<lambda>m. enc_u32 (EchoAckSeq m) @ []) (dec_as EchoAck dec_u32)
      (\<lambda>m. kind_of m = KEchoAck \<and> msg_ok m)"
    by (rule wire_as [OF u32.wire_field_axioms]) (auto simp: kind_ofD)
  show "wire_field (\<lambda>m. enc_str (Reason m) @ []) (dec_as Teardown dec_str)
      (\<lambda>m. kind_of m = KTeardown \<and> msg_ok m)"
    by (rule wire_as [OF str.wire_field_axioms]) (auto simp: kind_ofD)
  show "wire_field (\<lambda>m. enc_bytes (Ciphertext m) @ []) (dec_as Encrypted dec_bytes)
      (\<lambda>m. kind_of m = KEncrypted \<and> msg_ok m)"
    by (rule wire_as [OF byt.wire_field_axioms]) (auto simp: kind_ofD)
qed

text \<open>Decoding inverts encoding exactly: one byte string per well-formed message.\<close>

lemma unmarshal_iff: "unmarshalPayload k b = Inr m \<longleftrightarrow> kind_of m = k \<and> msg_ok m \<and> b = marshalPayload m"
proof (cases k)
  case KChallenge
  then show ?thesis by (auto simp: kind_ofD)
qed (auto simp: kind_ofD wire_field.decode_iff [OF wire_hello]
    wire_field.decode_iff [OF wire_session_request] wire_field.decode_iff [OF wire_session_reply]
    wire_simple [THEN wire_field.decode_iff])

section \<open>Streams\<close>

lemma write_full_cases:
  "write_full p c = (e, c') \<Longrightarrow>
     inbuf c' = inbuf c \<and> rend c' = rend c \<and>
     (\<exists>k \<le> length p. outbuf c' = outbuf c @ take k p \<and> (e = None \<longrightarrow> k = length p)) \<and>
     (p \<noteq> [] \<and> wplan c = [] \<longrightarrow> e = None)"
proof (induction p c arbitrary: e c' rule: write_full.induct)
  case (1 p c)
  show ?case
  proof (cases "p = []")
    case True
    with "1.prems" show ?thesis by (simp add: write_full.simps)
  next
    case False
    obtain n err c1 where w: "conn_write p c = (n, err, c1)" by (metis prod_cases3)
    then have c1: "inbuf c1 = inbuf c" "rend c1 = rend c" "outbuf c1 = outbuf c @ take n p"
      "n \<le> length p" "wplan c1 = tl (wplan c)" "wplan c = [] \<Longrightarrow> n = length p \<and> err = None"
      by (auto simp: conn_write_def sent_upto_def min_def split: list.splits write_outcome.splits)
    show ?thesis
    proof (cases "err = None \<and> n \<noteq> 0")
      case True
      then have rec: "write_full (drop n p) c1 = (e, c')"
        using "1.prems" w False by (simp add: write_full.simps [of p c])
      from "1.IH" [OF False w [symmetric] refl refl _ _ rec] True obtain k where
        "inbuf c' = inbuf c1" "rend c' = rend c1" "k \<le> length (drop n p)"
        "outbuf c' = outbuf c1 @ take k (drop n p)" "e = None \<longrightarrow> k = length (drop n p)"
        "drop n p \<noteq> [] \<and> wplan c1 = [] \<longrightarrow> e = None" by auto
      moreover have "wplan c = [] \<Longrightarrow> e = None"
        using c1(6) rec by (simp add: write_full.simps)
      ultimately show ?thesis
        using c1 by (intro conjI exI [of _ "n + k"]) (auto simp: take_add)
    next
      case f: False
      then have "e = Some (if err = None then ShortWrite else the err)" "c' = c1"
        using "1.prems" w False by (auto simp: write_full.simps split: option.splits if_splits)
      then show ?thesis using c1 f False by (intro conjI exI [of _ n]) auto
    qed
  qed
qed

lemma frame_props:
  assumes "length (marshalPayload m) \<le> MaxPayload"
  shows "length (marshalPlainFrame m) = frameHeaderLen + length (marshalPayload m)"
    and "take 4 (marshalPlainFrame m) =
      be_bytes 2 (of_nat (length (marshalPayload m)) :: 16 word) @ [ProtoVersion, msg_type m]"
    and "drop 4 (marshalPlainFrame m) = marshalPayload m"
  by (simp_all add: marshalPlainFrame_def frameHeaderLen_def Let_def)

lemma newMessage_iff: "newMessage t = Some k \<longleftrightarrow> t = kind_type k"
  by (cases k) (auto simp: newMessage_def)

lemma newMessage_kind_type [simp]: "newMessage (kind_type k) = Some k"
  by (simp add: newMessage_iff)

lemma length_payload_ok:
  assumes "length (marshalPayload m) \<le> MaxPayload"
  shows "unat (be_word (take 2 (take 4 (marshalPlainFrame m @ rest))) :: 16 word)
    = length (marshalPayload m)"
proof -
  have "take 2 (take 4 (marshalPlainFrame m @ rest)) = be_bytes 2 (of_nat (length (marshalPayload m)) :: 16 word)"
    by (simp add: marshalPlainFrame_def Let_def)
  then show ?thesis using assms by (simp add: be_word_be_bytes MaxPayload_def)
qed

text \<open>
  The reader of a frame, characterised: it returns a message exactly when the stream starts
  with the frame of a well-formed message whose payload is within the limit.
\<close>

lemma header_of_frame:
  assumes "length h = 4" "h ! 2 = ProtoVersion" "h ! 3 = msg_type m"
    "unat (be_word (take 2 h) :: 16 word) = length (marshalPayload m)"
  shows "h @ marshalPayload m = marshalPlainFrame m"
proof -
  from assms(1) obtain a b c d where h: "h = [a, b, c, d]"
    by (auto simp: length_Suc_conv numeral_eq_Suc)
  have "be_bytes 2 (be_word [a, b] :: 16 word) = [a, b]"
    using be_bytes_be_word [of "[a, b]", where ?'a = 16] by (simp add: numeral_2_eq_2)
  moreover have "take 2 h = [a, b]" by (simp add: h)
  with assms(4) have "be_word [a, b] = (of_nat (length (marshalPayload m)) :: 16 word)"
    by (metis of_nat_unat ucast_id)
  ultimately show ?thesis using assms h by (simp add: marshalPlainFrame_def Let_def)
qed

lemma ReadMessageLimited_iff:
  assumes "lim \<le> MaxPayload"
  shows "ReadMessageLimited lim c = (Inr m, c') \<longleftrightarrow>
     msg_ok m \<and> length (marshalPayload m) \<le> lim \<and>
     inbuf c = marshalPlainFrame m @ inbuf c' \<and> c' = c\<lparr>inbuf := inbuf c'\<rparr>"
  (is "?L \<longleftrightarrow> ?R")
proof
  assume ?L
  let ?h = "take 4 (inbuf c)"
  let ?n = "unat (be_word (take 2 ?h) :: 16 word)"
  from \<open>?L\<close> have "4 \<le> length (inbuf c)" "supportedProtocolVersion (?h ! 2)" "?n \<le> lim"
    and rest: "newMessage (?h ! 3) \<noteq> None" "?n \<le> length (drop 4 (inbuf c))"
    "unmarshalPayload (the (newMessage (?h ! 3))) (take ?n (drop 4 (inbuf c))) = Inr m"
    "c' = c\<lparr>inbuf := drop ?n (drop 4 (inbuf c))\<rparr>"
    by (auto simp: ReadMessageLimited_def read_full_def frameHeaderLen_def Let_def
        split: if_splits option.splits sum.splits)
  moreover from this have "msg_ok m" "?h ! 3 = msg_type m" "take ?n (drop 4 (inbuf c)) = marshalPayload m"
    by (auto simp: unmarshal_iff newMessage_iff msg_type_def)
  moreover from this rest(2) have "?n = length (marshalPayload m)"
    by (metis length_take min_absorb2)
  moreover have "inbuf c = ?h @ take ?n (drop 4 (inbuf c)) @ drop ?n (drop 4 (inbuf c))"
    by (simp only: append_take_drop_id)
  ultimately show ?R
    using header_of_frame [of ?h m]
    by (auto simp: supportedProtocolVersion_def) (metis append.assoc)
next
  assume R: ?R
  then have len: "length (marshalPayload m) \<le> MaxPayload" using assms by simp
  let ?f = "marshalPlainFrame m @ inbuf c'"
  have "take 4 ?f ! 2 = ProtoVersion" "take 4 ?f ! 3 = msg_type m"
    by (simp_all add: marshalPlainFrame_def Let_def nth_append)
  moreover have "unmarshalPayload (kind_of m) (marshalPayload m) = Inr m"
    using R by (simp add: unmarshal_iff)
  ultimately show ?L
    using R length_payload_ok [OF len, of "inbuf c'"] frame_props [OF len]
    by (simp add: ReadMessageLimited_def read_full_def frameHeaderLen_def
        supportedProtocolVersion_def msg_type_def Let_def)
qed

section \<open>Properties of the control codec\<close>

lemma WriteMessage_cases:
  assumes "WriteMessage m c = (e, c')"
  shows "inbuf c' = inbuf c \<and> rend c' = rend c \<and>
    (\<exists>k \<le> length (marshalPlainFrame m). outbuf c' = outbuf c @ take k (marshalPlainFrame m) \<and>
       (e = None \<longrightarrow> k = length (marshalPlainFrame m) \<and> length (marshalPayload m) \<le> MaxPayload))"
proof (cases "MaxPayload < length (marshalPayload m)")
  case True
  with assms show ?thesis by (auto simp: WriteMessage_def)
next
  case False
  obtain e' where "write_full (marshalPlainFrame m) c = (e', c')" "e = map_option WriteIO e'"
    using assms False by (auto simp: WriteMessage_def split: prod.splits)
  with write_full_cases [OF this(1)] False show ?thesis by auto
qed

lemma WriteMessage_complete:
  assumes "wplan c = []" "length (marshalPayload m) \<le> MaxPayload"
  shows "WriteMessage m c = (None, c\<lparr>outbuf := outbuf c @ marshalPlainFrame m\<rparr>)"
  using assms
  by (simp add: WriteMessage_def write_full.simps conn_write_def sent_upto_def Let_def
      marshalPlainFrame_def)

text \<open>
  C21. Whatever \<^verbatim>\<open>WriteMessage\<close> reports as sent, however the transport fragmented it,
  \<^verbatim>\<open>ReadMessage\<close> on the other end decodes to the same message and leaves the following bytes
  untouched, provided the message is well-formed (a 32-byte nonce, no zoned address).
\<close>

theorem codec_roundtrip:
  assumes "WriteMessage m c = (None, c')" and "msg_ok m"
    and "outbuf c' = outbuf c @ wire" and "inbuf d = wire @ rest"
  shows "ReadMessage d = (Inr m, d\<lparr>inbuf := rest\<rparr>)"
proof -
  from WriteMessage_cases [OF assms(1)] assms(3)
  have "wire = marshalPlainFrame m" "length (marshalPayload m) \<le> MaxPayload" by auto
  then show ?thesis
    using assms ReadMessageLimited_iff [of MaxPayload d m "d\<lparr>inbuf := rest\<rparr>"]
    by (simp add: ReadMessage_def)
qed

definition demo_conn :: conn where
  "demo_conn = \<lparr>inbuf = [], rend = EOF, outbuf = [], wplan = [Wrote 3, Wrote 1]\<rparr>"

lemmas echo_write_simps = demo_conn_def WriteMessage_def write_full.simps conn_write_def
  sent_upto_def MaxPayload_def marshalPlainFrame_def msg_type_def ProtoVersion_def enc_u32_def
  be_bytes_2 be_bytes_4

theorem codec_roundtrip_witness:
  "ReadMessage (demo_conn\<lparr>inbuf := marshalPlainFrame (Echo 7) @ [1, 2]\<rparr>)
     = (Inr (Echo 7), demo_conn\<lparr>inbuf := [1, 2]\<rparr>)"
proof -
  have "WriteMessage (Echo 7) demo_conn
      = (None, demo_conn\<lparr>outbuf := marshalPlainFrame (Echo 7), wplan := []\<rparr>)"
    by (simp add: echo_write_simps)
  from codec_roundtrip [OF this, of "marshalPlainFrame (Echo 7)"
      "demo_conn\<lparr>inbuf := marshalPlainFrame (Echo 7) @ [1, 2]\<rparr>" "[1, 2]"]
  show ?thesis by (simp add: demo_conn_def)
qed

text \<open>
  C22. The codec is canonical: a message is only ever accepted from its own frame, so no two
  byte strings decode to the same message, and an accepted message is well-formed and within
  the limit.
\<close>

theorem codec_canonical:
  assumes "ReadMessageLimited lim c = (Inr m, c')" and "lim \<le> MaxPayload"
  shows "inbuf c = marshalPlainFrame m @ inbuf c' \<and> msg_ok m \<and> length (marshalPayload m) \<le> lim"
  using assms ReadMessageLimited_iff by blast

theorem codec_canonical_witness:
  "marshalPlainFrame (Echo 7) @ [9] = marshalPlainFrame (Echo 7) @ inbuf (demo_conn\<lparr>inbuf := [9]\<rparr>)"
proof -
  have "ReadMessageLimited 4096 (demo_conn\<lparr>inbuf := marshalPlainFrame (Echo 7) @ [9]\<rparr>)
      = (Inr (Echo 7), demo_conn\<lparr>inbuf := [9]\<rparr>)"
    by code_simp
  from codec_canonical [OF this] show ?thesis by (simp add: MaxPayload_def)
qed

text \<open>
  C23. A reader with a limit never takes more than the header and \<open>lim\<close> payload bytes off the
  stream, and a frame whose header declares more is refused after its four header bytes.
\<close>

theorem codec_read_bounded:
  assumes "ReadMessageLimited lim c = (r, c')"
  shows "\<exists>k. inbuf c' = drop k (inbuf c) \<and> k \<le> frameHeaderLen + lim \<and>
    ((\<exists>n. r = Inl (PayloadExceeds n lim)) \<longrightarrow> k = frameHeaderLen)"
proof -
  have short: "n \<le> frameHeaderLen + lim \<Longrightarrow> \<exists>k. [] = drop k xs \<and> k \<le> frameHeaderLen + lim"
    if "length xs < n" for n and xs :: bytes
    using that by (intro exI [of _ "length xs"]) simp
  show ?thesis
    using assms short [of "inbuf c" frameHeaderLen]
      short [of "inbuf c" "frameHeaderLen + unat (be_word (take 2 (take 4 (inbuf c))) :: 16 word)"]
    by (auto simp: ReadMessageLimited_def read_full_def frameHeaderLen_def Let_def
        split: if_splits option.splits sum.splits)
qed

theorem codec_read_bounded_witness:
  "\<exists>k. inbuf (demo_conn\<lparr>inbuf := [7]\<rparr>) = drop k [0x20, 0, 2, 1, 7] \<and> k \<le> frameHeaderLen + 4096 \<and>
    ((\<exists>n. Inl (PayloadExceeds 0x2000 4096) = (Inl (PayloadExceeds n 4096) :: read_error + message)) \<longrightarrow> k = frameHeaderLen)"
proof -
  have "ReadMessageLimited 4096 (demo_conn\<lparr>inbuf := [0x20, 0, 2, 1, 7]\<rparr>)
      = (Inl (PayloadExceeds 0x2000 4096), demo_conn\<lparr>inbuf := [7]\<rparr>)"
    by code_simp
  from codec_read_bounded [OF this] show ?thesis by (simp add: demo_conn_def)
qed

text \<open>
  A write that fails, on an oversized payload or on any transport error or short write,
  leaves a prefix of the frame on the wire and nothing else.
\<close>

theorem codec_write_prefix:
  assumes "WriteMessage m c = (e, c')"
  shows "\<exists>k. outbuf c' = outbuf c @ take k (marshalPlainFrame m) \<and>
    (e = None \<longrightarrow> k = frameHeaderLen + length (marshalPayload m)) \<and>
    (\<forall>n. e = Some (PayloadTooLarge n) \<longrightarrow> k = 0)"
proof (cases "MaxPayload < length (marshalPayload m)")
  case True
  with assms show ?thesis by (intro exI [of _ 0]) (auto simp: WriteMessage_def)
next
  case False
  then have "e \<noteq> Some (PayloadTooLarge n)" for n
    using assms by (auto simp: WriteMessage_def split: prod.splits)
  with WriteMessage_cases [OF assms] frame_props(1) [of m] show ?thesis by auto
qed

theorem codec_write_prefix_witness:
  "\<exists>k. [0, 4, 2] = [] @ take k (marshalPlainFrame (Echo 7)) \<and>
    (Some (WriteIO ShortWrite) = None \<longrightarrow> k = frameHeaderLen + length (marshalPayload (Echo 7))) \<and>
    (\<forall>n. Some (WriteIO ShortWrite) = Some (PayloadTooLarge n) \<longrightarrow> k = 0)"
proof -
  have "WriteMessage (Echo 7) (demo_conn\<lparr>wplan := [Wrote 3, Wrote 0]\<rparr>)
      = (Some (WriteIO ShortWrite), demo_conn\<lparr>outbuf := [0, 4, 2], wplan := []\<rparr>)"
    by (simp add: echo_write_simps)
  from codec_write_prefix [OF this] show ?thesis by (simp add: demo_conn_def)
qed

text \<open>
  A zoned IPv6 address is the one address the codec cannot carry: the encoder writes its
  zone after the 16 address bytes, under a length that the decoder refuses.
\<close>

theorem zoned_addr_undecodable:
  assumes "z \<noteq> ''''"
  shows "\<forall>a. decode dec_addr (enc_addr (V6 w z)) \<noteq> Inr a"
proof
  fix a
  have "length (enc_addr (V6 w z)) > 17" using assms by (simp add: enc_addr_split enc_u8_def)
  moreover have "zone a = '''' \<Longrightarrow> length (enc_addr a) \<le> 17"
    by (cases a) (simp_all add: enc_addr_split enc_u8_def)
  ultimately show "decode dec_addr (enc_addr (V6 w z)) \<noteq> Inr a"
    by (auto simp: adr.decode_iff)
qed

theorem zoned_addr_undecodable_witness:
  "\<forall>a. decode dec_addr (enc_addr (V6 0xfe800000000000000000000000000001 ''eth0'')) \<noteq> Inr a"
  using zoned_addr_undecodable [of "''eth0''"] by simp

end
