(* ===== verification/Crypto.thy ===== *)
theory Crypto
  imports Prelude
begin

text \<open>
  The cryptographic primitives the control channel takes from the Go standard library, as
  executable functions: SHA-256 (FIPS 180-4), HMAC (FIPS 198-1), AES (FIPS 197) and GCM with
  a 96-bit nonce and a 16-byte tag (SP 800-38D). A \<^verbatim>\<open>cipher.AEAD\<close> is a record of its two
  methods; the locale \<open>aead_law\<close> states what its users rely on and is interpreted on the
  GCM defined here. No hardness assumption is made anywhere: the laws are facts about the
  functions.
\<close>

section \<open>SHA-256\<close>

function chunks :: "nat \<Rightarrow> 'a list \<Rightarrow> 'a list list" where
  "chunks n xs = (if xs = [] \<or> n = 0 then [] else take n xs # chunks n (drop n xs))"
  by pat_completeness auto

termination
  by (relation "measure (\<lambda>(n, xs). length xs)") auto

declare chunks.simps [simp del]

text \<open>
  The constants are the first 32 bits of the fractional parts of the cube roots of the first
  64 primes, and the initial state those of the square roots of the first eight. The largest
  root on the bits \<open>n - 1, ..., 0\<close> is found bit by bit.
\<close>

definition iroot :: "nat \<Rightarrow> nat \<Rightarrow> int \<Rightarrow> int" where
  "iroot k n x = foldl (\<lambda>r i. if (r + 2 ^ i) ^ k \<le> x then r + 2 ^ i else r) 0 (rev [0..<n])"

definition small_primes :: "nat list" where
  "small_primes = filter (\<lambda>n. list_all (\<lambda>d. \<not> d dvd n) [2..<n]) [2..<312]"

definition sha_K :: "32 word list" where
  "sha_K = map (\<lambda>p. of_int (iroot 3 36 (int p * 2 ^ 96))) small_primes"

definition sha_H :: "32 word list" where
  "sha_H = map (\<lambda>p. of_int (iroot 2 36 (int p * 2 ^ 64))) (take 8 small_primes)"

definition rotr32 :: "nat \<Rightarrow> 32 word \<Rightarrow> 32 word" where
  "rotr32 n w = drop_bit n w OR push_bit (32 - n) w"

record sha_state =
  ha :: "32 word"
  hb :: "32 word"
  hc :: "32 word"
  hd' :: "32 word"
  he :: "32 word"
  hf :: "32 word"
  hg :: "32 word"
  hh :: "32 word"

definition sha_init :: sha_state where
  "sha_init = \<lparr>ha = sha_H ! 0, hb = sha_H ! 1, hc = sha_H ! 2, hd' = sha_H ! 3,
     he = sha_H ! 4, hf = sha_H ! 5, hg = sha_H ! 6, hh = sha_H ! 7\<rparr>"

definition sha_pad :: "bytes \<Rightarrow> bytes" where
  "sha_pad m = m @ [0x80] @ replicate ((119 - length m mod 64) mod 64) 0
     @ be_bytes 8 (of_nat (8 * length m) :: 64 word)"

text \<open>The message schedule: sixteen words of the block, extended to sixty-four.\<close>

primrec sha_extend :: "nat \<Rightarrow> 32 word list \<Rightarrow> 32 word list" where
  "sha_extend 0 w = w"
| "sha_extend (Suc k) w =
     (let t = length w;
          x = w ! (t - 15); y = w ! (t - 2);
          s0 = rotr32 7 x XOR rotr32 18 x XOR drop_bit 3 x;
          s1 = rotr32 17 y XOR rotr32 19 y XOR drop_bit 10 y
      in sha_extend k (w @ [w ! (t - 16) + s0 + w ! (t - 7) + s1]))"

definition sha_round :: "sha_state \<Rightarrow> 32 word \<times> 32 word \<Rightarrow> sha_state" where
  "sha_round s kw =
     (let s1 = rotr32 6 (he s) XOR rotr32 11 (he s) XOR rotr32 25 (he s);
          ch = (he s AND hf s) XOR (NOT (he s) AND hg s);
          t1 = hh s + s1 + ch + fst kw + snd kw;
          s0 = rotr32 2 (ha s) XOR rotr32 13 (ha s) XOR rotr32 22 (ha s);
          maj = (ha s AND hb s) XOR (ha s AND hc s) XOR (hb s AND hc s)
      in \<lparr>ha = t1 + (s0 + maj), hb = ha s, hc = hb s, hd' = hc s,
          he = hd' s + t1, hf = he s, hg = hf s, hh = hg s\<rparr>)"

definition sha_compress :: "sha_state \<Rightarrow> bytes \<Rightarrow> sha_state" where
  "sha_compress s blk =
     (let w = sha_extend 48 (map be_word (chunks 4 blk));
          r = foldl sha_round s (zip sha_K w)
      in \<lparr>ha = ha s + ha r, hb = hb s + hb r, hc = hc s + hc r, hd' = hd' s + hd' r,
          he = he s + he r, hf = hf s + hf r, hg = hg s + hg r, hh = hh s + hh r\<rparr>)"

definition sha256 :: "bytes \<Rightarrow> bytes" where
  "sha256 m =
     (let s = foldl sha_compress sha_init (chunks 64 (sha_pad m))
      in be_bytes 4 (ha s) @ be_bytes 4 (hb s) @ be_bytes 4 (hc s) @ be_bytes 4 (hd' s)
         @ be_bytes 4 (he s) @ be_bytes 4 (hf s) @ be_bytes 4 (hg s) @ be_bytes 4 (hh s))"

lemma length_sha256 [simp]: "length (sha256 m) = 32"
  by (simp add: sha256_def Let_def)

section \<open>HMAC\<close>

definition hmac_key :: "bytes \<Rightarrow> bytes" where
  "hmac_key k = (let k' = if 64 < length k then sha256 k else k
                 in k' @ replicate (64 - length k') 0)"

text \<open>\<^verbatim>\<open>hmac.New(sha256.New, key)\<close>, the writes concatenated, \<^verbatim>\<open>Sum(nil)\<close>.\<close>

definition hmac_sha256 :: "bytes \<Rightarrow> bytes \<Rightarrow> bytes" where
  "hmac_sha256 k m =
     (let key = hmac_key k
      in sha256 (map (\<lambda>b. b XOR 0x5c) key @ sha256 (map (\<lambda>b. b XOR 0x36) key @ m)))"

lemma length_hmac_sha256 [simp]: "length (hmac_sha256 k m) = 32"
  by (simp add: hmac_sha256_def Let_def)

text \<open>\<^verbatim>\<open>hmac.Equal\<close> is \<^verbatim>\<open>subtle.ConstantTimeCompare\<close>: the differences of all bytes are collected.\<close>

definition hmac_equal :: "bytes \<Rightarrow> bytes \<Rightarrow> bool" where
  "hmac_equal x y \<longleftrightarrow>
     length x = length y \<and> foldl (\<lambda>v (a, b). v OR (a XOR b)) 0 (zip x y) = (0 :: byte)"

lemma or_xor_eq_0: "v OR (a XOR b) = 0 \<longleftrightarrow> v = 0 \<and> a = (b :: 'a::len word)"
  using or_eq_0_iff [of v "a XOR b"] xor_eq_0_word [of a b] by simp

lemma fold_diff_zero:
  "length x = length y \<Longrightarrow>
     foldl (\<lambda>v (a, b). v OR (a XOR b)) v (zip x y) = (0 :: byte) \<longleftrightarrow> v = 0 \<and> x = y"
proof (induction x y arbitrary: v rule: list_induct2)
  case (Cons a x b y)
  show ?case using Cons.IH [of "v OR (a XOR b)"] or_xor_eq_0 [of v a b] by auto
qed simp

lemma hmac_equal_iff [simp]: "hmac_equal x y \<longleftrightarrow> x = y"
  using fold_diff_zero [of x y 0] by (auto simp: hmac_equal_def)

section \<open>AES\<close>

definition xtime :: "byte \<Rightarrow> byte" where
  "xtime b = (if bit b 7 then push_bit 1 b XOR 0x1b else push_bit 1 b)"

text \<open>
  Multiplication in the field of the cipher, the S-box as the inverse (the 254th power)
  followed by the affine map.
\<close>

fun gf8_mult :: "nat \<Rightarrow> byte \<Rightarrow> byte \<Rightarrow> byte" where
  "gf8_mult 0 a b = 0"
| "gf8_mult (Suc n) a b = (if bit b 0 then a else 0) XOR gf8_mult n (xtime a) (drop_bit 1 b)"

definition gf8_power :: "byte \<Rightarrow> nat \<Rightarrow> byte" where
  "gf8_power a n = ((\<lambda>x. gf8_mult 8 x a) ^^ n) 1"

definition rotl8 :: "nat \<Rightarrow> byte \<Rightarrow> byte" where
  "rotl8 n b = push_bit n b OR drop_bit (8 - n) b"

definition sub_byte :: "byte \<Rightarrow> byte" where
  "sub_byte b =
     (let x = gf8_power b 254
      in x XOR rotl8 1 x XOR rotl8 2 x XOR rotl8 3 x XOR rotl8 4 x XOR 0x63)"

definition xor_bytes :: "bytes \<Rightarrow> bytes \<Rightarrow> bytes" where
  "xor_bytes = map2 (XOR)"

definition aes_rcon :: "nat \<Rightarrow> byte" where
  "aes_rcon i = (xtime ^^ (i - 1)) 1"

text \<open>The key schedule, four bytes per word, for a key of \<open>nk\<close> words.\<close>

definition aes_next_word :: "nat \<Rightarrow> bytes list \<Rightarrow> bytes" where
  "aes_next_word nk w =
     (let i = length w; t = w ! (i - 1);
          t' = if i mod nk = 0
               then xor_bytes (map sub_byte (rotate1 t)) [aes_rcon (i div nk), 0, 0, 0]
               else if 6 < nk \<and> i mod nk = 4 then map sub_byte t
               else t
      in xor_bytes (w ! (i - nk)) t')"

definition aes_expand :: "bytes \<Rightarrow> bytes list" where
  "aes_expand key =
     (let nk = length key div 4; w = chunks 4 key
      in ((\<lambda>w. w @ [aes_next_word nk w]) ^^ (4 * (nk + 7) - nk)) w)"

definition shift_rows :: "bytes \<Rightarrow> bytes" where
  "shift_rows s = map (\<lambda>i. s ! (((i div 4 + i mod 4) mod 4) * 4 + i mod 4)) [0..<16]"

definition mix_column :: "bytes \<Rightarrow> bytes" where
  "mix_column c =
     (let m3 = (\<lambda>b. xtime b XOR b); a = c ! 0; b = c ! 1; d = c ! 2; e = c ! 3
      in [xtime a XOR m3 b XOR d XOR e, a XOR xtime b XOR m3 d XOR e,
          a XOR b XOR xtime d XOR m3 e, m3 a XOR b XOR d XOR xtime e])"

definition mix_columns :: "bytes \<Rightarrow> bytes" where
  "mix_columns s = concat (map mix_column (chunks 4 s))"

definition aes_encrypt :: "bytes \<Rightarrow> bytes \<Rightarrow> bytes" where
  "aes_encrypt key blk =
     (let ks = map concat (chunks 4 (aes_expand key));
          s = foldl (\<lambda>s k. xor_bytes (mix_columns (shift_rows (map sub_byte s))) k)
                (xor_bytes blk (ks ! 0)) (butlast (tl ks))
      in xor_bytes (shift_rows (map sub_byte s)) (last ks))"

section \<open>GCM\<close>

primrec gf_mult_loop :: "nat \<Rightarrow> 128 word \<Rightarrow> 128 word \<Rightarrow> 128 word \<Rightarrow> 128 word" where
  "gf_mult_loop 0 x v z = z"
| "gf_mult_loop (Suc k) x v z =
     gf_mult_loop k x
       (if bit v 0 then drop_bit 1 v XOR 0xe1000000000000000000000000000000 else drop_bit 1 v)
       (if bit x k then z XOR v else z)"

definition gf_mult :: "128 word \<Rightarrow> 128 word \<Rightarrow> 128 word" where
  "gf_mult x y = gf_mult_loop 128 x y 0"

definition pad16 :: "bytes \<Rightarrow> bytes" where
  "pad16 b = b @ replicate ((16 - length b mod 16) mod 16) 0"

definition ghash :: "128 word \<Rightarrow> bytes \<Rightarrow> bytes \<Rightarrow> 128 word" where
  "ghash h ad c =
     foldl (\<lambda>y blk. gf_mult (y XOR be_word blk) h) 0
       (chunks 16 (pad16 ad @ pad16 c @ be_bytes 8 (of_nat (8 * length ad) :: 64 word)
          @ be_bytes 8 (of_nat (8 * length c) :: 64 word)))"

text \<open>Byte \<open>i\<close> of the key stream, for the initial counter block \<open>nonce || 1\<close>.\<close>

definition gcm_block :: "bytes \<Rightarrow> bytes \<Rightarrow> 32 word \<Rightarrow> bytes" where
  "gcm_block key nonce ctr = aes_encrypt key (nonce @ be_bytes 4 ctr)"

definition gcm_ctr :: "bytes \<Rightarrow> bytes \<Rightarrow> bytes \<Rightarrow> bytes" where
  "gcm_ctr key nonce p =
     map (\<lambda>(i, b). b XOR gcm_block key nonce (2 + of_nat (i div 16)) ! (i mod 16)) (enumerate 0 p)"

definition gcm_tag :: "bytes \<Rightarrow> bytes \<Rightarrow> bytes \<Rightarrow> bytes \<Rightarrow> bytes" where
  "gcm_tag key nonce ad c =
     be_bytes 16 (be_word (gcm_block key nonce 1)
       XOR ghash (be_word (aes_encrypt key (replicate 16 0))) ad c)"

definition gcm_seal :: "bytes \<Rightarrow> bytes \<Rightarrow> bytes \<Rightarrow> bytes \<Rightarrow> bytes" where
  "gcm_seal key nonce p ad = (let c = gcm_ctr key nonce p in c @ gcm_tag key nonce ad c)"

definition gcm_open :: "bytes \<Rightarrow> bytes \<Rightarrow> bytes \<Rightarrow> bytes \<Rightarrow> bytes option" where
  "gcm_open key nonce ct ad =
     (if length ct < 16 then None
      else let c = take (length ct - 16) ct; tag = drop (length ct - 16) ct
           in if hmac_equal (gcm_tag key nonce ad c) tag then Some (gcm_ctr key nonce c) else None)"

record aead =
  Seal :: "bytes \<Rightarrow> bytes \<Rightarrow> bytes \<Rightarrow> bytes"
  Open :: "bytes \<Rightarrow> bytes \<Rightarrow> bytes \<Rightarrow> bytes option"

text \<open>
  \<^verbatim>\<open>aes.NewCipher\<close> accepts keys of 16, 24 and 32 bytes and \<^verbatim>\<open>cipher.NewGCM\<close> wraps the block
  cipher; both steps are \<^verbatim>\<open>newGCM\<close> of \<^verbatim>\<open>internal/control/secure.go\<close>.
\<close>

datatype key_error = KeySizeError nat

definition newGCM :: "bytes \<Rightarrow> (key_error, aead) result" where
  "newGCM key =
     (if length key \<in> {16, 24, 32}
      then Inr \<lparr>Seal = gcm_seal key, Open = gcm_open key\<rparr>
      else Inl (KeySizeError (length key)))"

section \<open>The contract of an AEAD\<close>

text \<open>
  A ciphertext opens exactly to the plaintext whose sealing it is, under the same nonce and
  additional data, and a sealing is 16 bytes longer than its plaintext.
\<close>

locale aead_law =
  fixes A :: aead
  assumes open_iff: "Open A n c ad = Some p \<longleftrightarrow> c = Seal A n p ad"
    and seal_length: "length (Seal A n p ad) = length p + 16"
begin

lemma open_seal: "Open A n (Seal A n p ad) ad = Some p"
  by (simp add: open_iff)

lemma seal_inject: "Seal A n p ad = Seal A n q ad \<longleftrightarrow> p = q"
  by (metis open_seal option.inject)

end

lemma length_gcm_ctr [simp]: "length (gcm_ctr key n p) = length p"
  by (simp add: gcm_ctr_def)

lemma length_gcm_tag [simp]: "length (gcm_tag key n ad c) = 16"
  by (simp add: gcm_tag_def)

lemma gcm_ctr_involutive [simp]: "gcm_ctr key n (gcm_ctr key n p) = p"
  by (rule nth_equalityI) (simp_all add: gcm_ctr_def nth_enumerate_eq xor.assoc)

lemma gcm_open_iff: "gcm_open key n c ad = Some p \<longleftrightarrow> c = gcm_seal key n p ad"
proof
  assume o: "gcm_open key n c ad = Some p"
  let ?b = "take (length c - 16) c" and ?t = "drop (length c - 16) c"
  from o have "gcm_tag key n ad ?b = ?t" "p = gcm_ctr key n ?b"
    by (auto simp: gcm_open_def Let_def split: if_splits)
  then show "c = gcm_seal key n p ad"
    by (simp add: gcm_seal_def Let_def)
qed (simp add: gcm_seal_def gcm_open_def Let_def)

lemma newGCM_law: "newGCM key = Inr A \<Longrightarrow> aead_law A"
  by unfold_locales (auto simp: newGCM_def gcm_open_iff gcm_seal_def Let_def split: if_splits)

interpretation gcm: aead_law "\<lparr>Seal = gcm_seal key, Open = gcm_open key\<rparr>" for key
  by unfold_locales (auto simp: gcm_open_iff gcm_seal_def Let_def)

end
