(* ===== verification/Secure.thy ===== *)
theory Secure
  imports Codec Crypto
begin

text \<open>
  Authentication (\<^verbatim>\<open>internal/auth/auth.go\<close>) and the encrypted control channel
  (\<^verbatim>\<open>internal/control/secure.go\<close>). A read of the system's random source is an argument: the
  bytes it delivered, or None when it failed. A secure channel is its two AEAD keys and its
  two sequence numbers; the connection it reads and writes is threaded beside it.
\<close>

section \<open>Authentication\<close>

datatype rand_error = RandFailed

definition NewNonce :: "bytes option \<Rightarrow> (rand_error, bytes) result" where
  "NewNonce rnd = (case rnd of None \<Rightarrow> Inl RandFailed | Some b \<Rightarrow> Inr (take NonceLen b))"

definition Response :: "string \<Rightarrow> string \<Rightarrow> bytes \<Rightarrow> bytes" where
  "Response secret clientID nonce =
     hmac_sha256 (bytes_of_string secret) (nonce @ bytes_of_string clientID)"

definition ServerProof :: "string \<Rightarrow> string \<Rightarrow> bytes \<Rightarrow> bytes \<Rightarrow> bytes" where
  "ServerProof secret clientID nonce sessionPayload =
     hmac_sha256 (bytes_of_string secret)
       (bytes_of_string ''gremlind server proof v1'' @ nonce @ bytes_of_string clientID @ sessionPayload)"

definition Verify :: "string \<Rightarrow> string \<Rightarrow> bytes \<Rightarrow> bytes \<Rightarrow> bool" where
  "Verify secret clientID nonce got \<longleftrightarrow> hmac_equal (Response secret clientID nonce) got"

definition VerifyServerProof :: "string \<Rightarrow> string \<Rightarrow> bytes \<Rightarrow> bytes \<Rightarrow> bytes \<Rightarrow> bool" where
  "VerifyServerProof secret clientID nonce sessionPayload got \<longleftrightarrow>
     hmac_equal (ServerProof secret clientID nonce sessionPayload) got"

definition SecretFor :: "string \<Rightarrow> string \<Rightarrow> (string, string) fmap \<Rightarrow> string" where
  "SecretFor clientID psk clients =
     (if clients \<noteq> fmempty then (case fmlookup clients clientID of None \<Rightarrow> '''' | Some s \<Rightarrow> s)
      else psk)"

definition RandomSecret :: "bytes option \<Rightarrow> string" where
  "RandomSecret rnd = (case rnd of None \<Rightarrow> '''' | Some b \<Rightarrow> string_of_bytes (take NonceLen b))"

section \<open>Key derivation\<close>

definition hkdfExtract :: "bytes \<Rightarrow> bytes \<Rightarrow> bytes" where
  "hkdfExtract salt secret = hmac_sha256 salt secret"

text \<open>
  The loop of \<^verbatim>\<open>hkdfExpand\<close>, whose counter is a byte. The hash is \<^verbatim>\<open>sha256.New\<close>, the only one
  passed in.
\<close>

function hkdf_loop :: "bytes \<Rightarrow> bytes \<Rightarrow> nat \<Rightarrow> byte \<Rightarrow> bytes \<Rightarrow> bytes \<Rightarrow> bytes" where
  "hkdf_loop prk info l counter t okm =
     (if length okm < l
      then let t' = hmac_sha256 prk (t @ info @ [counter])
           in hkdf_loop prk info l (counter + 1) t' (okm @ t')
      else okm)"
  by pat_completeness auto

termination
  by (relation "measure (\<lambda>(prk, info, l, counter, t, okm). l - length okm)") auto

declare hkdf_loop.simps [simp del]

definition hkdfExpand :: "bytes \<Rightarrow> bytes \<Rightarrow> nat \<Rightarrow> bytes" where
  "hkdfExpand prk info l = take l (hkdf_loop prk info l 1 [] [])"

definition encryptedInfo :: string where
  "encryptedInfo = ''gremlind control psk encryption v1''"

definition channel_salt :: "string \<Rightarrow> bytes \<Rightarrow> bytes \<Rightarrow> bytes" where
  "channel_salt clientID serverNonce clientNonce = serverNonce @ clientNonce @ bytes_of_string clientID"

definition deriveChannelKeys ::
  "string \<Rightarrow> string \<Rightarrow> bytes \<Rightarrow> bytes \<Rightarrow> (key_error, aead \<times> aead) result" where
  "deriveChannelKeys secret clientID serverNonce clientNonce =
     (let prk = hkdfExtract (channel_salt clientID serverNonce clientNonce) (bytes_of_string secret);
          c2sKey = hkdfExpand prk (bytes_of_string (encryptedInfo @ '' client-to-server'')) 32;
          s2cKey = hkdfExpand prk (bytes_of_string (encryptedInfo @ '' server-to-client'')) 32
      in rbind (newGCM c2sKey) (\<lambda>c2s. rbind (newGCM s2cKey) (\<lambda>s2c. Inr (c2s, s2c))))"

section \<open>The secure channel\<close>

record secure_channel =
  readKey :: aead
  writeKey :: aead
  readSeq :: "64 word"
  writeSeq :: "64 word"

definition newClientSecureChannel ::
  "string \<Rightarrow> string \<Rightarrow> bytes \<Rightarrow> bytes \<Rightarrow> (key_error, secure_channel) result" where
  "newClientSecureChannel secret clientID serverNonce clientNonce =
     rbind (deriveChannelKeys secret clientID serverNonce clientNonce)
       (\<lambda>(c2s, s2c). Inr \<lparr>readKey = s2c, writeKey = c2s, readSeq = 0, writeSeq = 0\<rparr>)"

definition newServerSecureChannel ::
  "string \<Rightarrow> string \<Rightarrow> bytes \<Rightarrow> bytes \<Rightarrow> (key_error, secure_channel) result" where
  "newServerSecureChannel secret clientID serverNonce clientNonce =
     rbind (deriveChannelKeys secret clientID serverNonce clientNonce)
       (\<lambda>(c2s, s2c). Inr \<lparr>readKey = c2s, writeKey = s2c, readSeq = 0, writeSeq = 0\<rparr>)"

definition seqNonce :: "64 word \<Rightarrow> bytes" where
  "seqNonce seq = replicate 4 0 @ be_bytes 8 seq"

definition chan_WriteMessage ::
  "message \<Rightarrow> secure_channel \<times> conn \<Rightarrow> write_error option \<times> secure_channel \<times> conn" where
  "chan_WriteMessage m = (\<lambda>(s, c).
     let plain = marshalPlainFrame m;
         ciphertext = Seal (writeKey s) (seqNonce (writeSeq s)) plain [];
         s' = s\<lparr>writeSeq := writeSeq s + 1\<rparr>;
         (e, c') = WriteMessage (Encrypted ciphertext) c
     in (e, s', c'))"

datatype plain_error =
    FrameShort
  | FrameVersion "8 word"
  | FrameLength
  | FrameType "8 word"
  | FramePayload codec_error

definition unmarshalPlainFrame :: "bytes \<Rightarrow> (plain_error, message) result" where
  "unmarshalPlainFrame frame =
     (if length frame < frameHeaderLen then Inl FrameShort
      else
        let payloadLen = unat (be_word (take 2 frame) :: 16 word) in
        if frame ! 2 \<noteq> ProtoVersion then Inl (FrameVersion (frame ! 2))
        else if payloadLen \<noteq> length frame - frameHeaderLen then Inl FrameLength
        else case newMessage (frame ! 3) of
          None \<Rightarrow> Inl (FrameType (frame ! 3))
        | Some k \<Rightarrow>
            if k = KEncrypted then Inl (FrameType (frame ! 3))
            else (case unmarshalPayload k (drop frameHeaderLen frame) of
                    Inl e \<Rightarrow> Inl (FramePayload e)
                  | Inr m \<Rightarrow> Inr m))"

datatype chan_error =
    ChanRead read_error
  | NotEncrypted "8 word"
  | DecryptFailed
  | BadFrame plain_error

definition chan_ReadMessage ::
  "secure_channel \<times> conn \<Rightarrow> (chan_error, message) result \<times> secure_channel \<times> conn" where
  "chan_ReadMessage = (\<lambda>(s, c).
     case ReadMessage c of
       (Inl e, c') \<Rightarrow> (Inl (ChanRead e), s, c')
     | (Inr outer, c') \<Rightarrow>
         (case outer of
            Encrypted ciphertext \<Rightarrow>
              (case Open (readKey s) (seqNonce (readSeq s)) ciphertext [] of
                 None \<Rightarrow> (Inl DecryptFailed, s, c')
               | Some plain \<Rightarrow>
                   let s' = s\<lparr>readSeq := readSeq s + 1\<rparr> in
                   (case unmarshalPlainFrame plain of
                      Inl e \<Rightarrow> (Inl (BadFrame e), s', c')
                    | Inr m \<Rightarrow> (Inr m, s', c')))
          | _ \<Rightarrow> (Inl (NotEncrypted (msg_type outer)), s, c')))"

section \<open>Key derivation is RFC 5869\<close>

text \<open>\<open>T(0)\<close> is empty and \<open>T(i)\<close> is the MAC of \<open>T(i-1) || info || i\<close>.\<close>

primrec hkdf_T :: "bytes \<Rightarrow> bytes \<Rightarrow> nat \<Rightarrow> bytes" where
  "hkdf_T prk info 0 = []"
| "hkdf_T prk info (Suc i) = hmac_sha256 prk (hkdf_T prk info i @ info @ [of_nat (Suc i)])"

definition hkdf_okm :: "bytes \<Rightarrow> bytes \<Rightarrow> nat \<Rightarrow> bytes" where
  "hkdf_okm prk info n = concat (map (hkdf_T prk info) [1..<Suc n])"

lemma hkdf_okm_simps [simp]:
  "hkdf_okm prk info 0 = []"
  "hkdf_okm prk info (Suc n) = hkdf_okm prk info n @ hkdf_T prk info (Suc n)"
  by (simp_all add: hkdf_okm_def)

lemma length_hkdf_okm [simp]: "length (hkdf_okm prk info n) = 32 * n"
  by (induction n) simp_all

lemma hkdf_loop_okm:
  "n \<le> (l + 31) div 32 \<Longrightarrow>
     hkdf_loop prk info l (of_nat (Suc n)) (hkdf_T prk info n) (hkdf_okm prk info n)
       = hkdf_okm prk info ((l + 31) div 32)"
proof (induction "(l + 31) div 32 - n" arbitrary: n)
  case 0
  then have n: "n = (l + 31) div 32" by simp
  then have "\<not> 32 * n < l" by presburger
  then show ?case
    unfolding n [symmetric]
    by (simp only: hkdf_loop.simps [of prk info l "of_nat (Suc n)"] length_hkdf_okm if_False)
next
  case (Suc k)
  from Suc.hyps(2) have "Suc n \<le> (l + 31) div 32" by simp
  then have "32 * n < l" by (simp add: less_eq_div_iff_mult_less_eq)
  then have "hkdf_loop prk info l (of_nat (Suc n)) (hkdf_T prk info n) (hkdf_okm prk info n)
      = hkdf_loop prk info l (of_nat (Suc n) + 1) (hkdf_T prk info (Suc n)) (hkdf_okm prk info (Suc n))"
    by (simp only: hkdf_loop.simps [of prk info l "of_nat (Suc n)"] length_hkdf_okm if_True Let_def
        hkdf_T.simps hkdf_okm_simps)
  moreover have "of_nat (Suc n) + 1 = (of_nat (Suc (Suc n)) :: byte)" by simp
  ultimately show ?case using Suc.hyps(1) [of "Suc n"] Suc.hyps(2) by simp
qed

lemma hkdfExpand_okm: "hkdfExpand prk info l = take l (hkdf_okm prk info ((l + 31) div 32))"
  using hkdf_loop_okm [of 0 l prk info] by (simp add: hkdfExpand_def)

lemma length_hkdfExpand [simp]: "length (hkdfExpand prk info l) = l"
  by (simp add: hkdfExpand_okm)

lemma deriveChannelKeys_ok:
  obtains c2s s2c where
    "deriveChannelKeys secret clientID sn cn = Inr (c2s, s2c)" "aead_law c2s" "aead_law s2c"
  by (auto simp: deriveChannelKeys_def newGCM_def Let_def intro: gcm.aead_law_axioms)

section \<open>Frames inside the channel\<close>

lemma unmarshalPlainFrame_iff:
  "unmarshalPlainFrame f = Inr m \<longleftrightarrow>
     msg_ok m \<and> kind_of m \<noteq> KEncrypted \<and> length (marshalPayload m) \<le> MaxPayload \<and>
     f = marshalPlainFrame m" (is "?L \<longleftrightarrow> ?R")
proof
  assume ?L
  then have "4 \<le> length f" "f ! 2 = ProtoVersion"
    and len: "unat (be_word (take 2 f) :: 16 word) = length f - 4"
    and k: "newMessage (f ! 3) \<noteq> None" "the (newMessage (f ! 3)) \<noteq> KEncrypted"
    "unmarshalPayload (the (newMessage (f ! 3))) (drop 4 f) = Inr m"
    by (auto simp: unmarshalPlainFrame_def frameHeaderLen_def Let_def
        split: if_splits option.splits sum.splits)
  moreover from k have m: "msg_ok m" "kind_of m \<noteq> KEncrypted" "drop 4 f = marshalPayload m"
    "f ! 3 = msg_type m" by (auto simp: unmarshal_iff newMessage_iff msg_type_def)
  moreover have "length (marshalPayload m) = length f - 4"
    using m(3) by (metis length_drop)
  moreover have "unat (be_word (take 2 f) :: 16 word) < 65536" by simp
  ultimately show ?R
    using header_of_frame [of "take 4 f" m] append_take_drop_id [of 4 f]
    by (auto simp: MaxPayload_def)
next
  assume R: ?R
  then have len: "length (marshalPayload m) \<le> MaxPayload" by simp
  have "marshalPlainFrame m ! 2 = ProtoVersion" "marshalPlainFrame m ! 3 = msg_type m"
    by (simp_all add: marshalPlainFrame_def Let_def nth_append)
  moreover have "unmarshalPayload (kind_of m) (marshalPayload m) = Inr m"
    using R by (simp add: unmarshal_iff)
  ultimately show ?L
    using R length_payload_ok [OF len, of "[]", unfolded append_Nil2 take_take] frame_props(1,3) [OF len]
    by (simp add: unmarshalPlainFrame_def frameHeaderLen_def msg_type_def Let_def)
qed

text \<open>A message fits a channel when its sealed frame fits the payload of an outer frame.\<close>

definition chan_fits :: "message \<Rightarrow> bool" where
  "chan_fits m \<longleftrightarrow> length (marshalPayload m) + 22 \<le> MaxPayload"

definition chan_ok :: "message \<Rightarrow> bool" where
  "chan_ok m \<longleftrightarrow> msg_ok m \<and> kind_of m \<noteq> KEncrypted"

definition sealed :: "aead \<Rightarrow> 64 word \<Rightarrow> message \<Rightarrow> bytes" where
  "sealed k seq m = marshalPlainFrame (Encrypted (Seal k (seqNonce seq) (marshalPlainFrame m) []))"

lemma sealed_payload:
  assumes "aead_law k"
  shows "length (marshalPayload (Encrypted (Seal k n (marshalPlainFrame m) [])))
    = length (marshalPayload m) + 22"
  by (simp add: aead_law.seal_length [OF assms] enc_bytes_def enc_u16_def marshalPlainFrame_def Let_def)

text \<open>
  The two ends of one direction of a channel: the writer's key is the reader's key and the
  sequence numbers agree. Everything sent is then received, in order, and nothing is received
  that the writer would not have sent.
\<close>

locale channel_pair = aead_law k for k +
  fixes w r :: secure_channel
  assumes wkey: "writeKey w = k" and rkey: "readKey r = k" and seq: "writeSeq w = readSeq r"
begin

lemma write_iff:
  assumes "chan_WriteMessage m (w, c) = (None, w', c')"
  shows "chan_fits m" and "outbuf c' = outbuf c @ sealed k (writeSeq w) m"
    and "w' = w\<lparr>writeSeq := writeSeq w + 1\<rparr>" and "inbuf c' = inbuf c" and "rend c' = rend c"
proof -
  let ?e = "Encrypted (Seal k (seqNonce (writeSeq w)) (marshalPlainFrame m) [])"
  from assms have w: "WriteMessage ?e c = (None, c')" "w' = w\<lparr>writeSeq := writeSeq w + 1\<rparr>"
    by (auto simp: chan_WriteMessage_def Let_def wkey split: prod.splits)
  from WriteMessage_cases [OF w(1)] sealed_payload [OF aead_law_axioms]
  show "chan_fits m" "outbuf c' = outbuf c @ sealed k (writeSeq w) m" "inbuf c' = inbuf c"
    "rend c' = rend c"
    by (auto simp: chan_fits_def sealed_def)
  show "w' = w\<lparr>writeSeq := writeSeq w + 1\<rparr>" by (rule w(2))
qed

lemma read_iff:
  "chan_ReadMessage (r, d) = (Inr m, r', d') \<longleftrightarrow>
     chan_ok m \<and> chan_fits m \<and> inbuf d = sealed k (readSeq r) m @ inbuf d' \<and>
     r' = r\<lparr>readSeq := readSeq r + 1\<rparr> \<and> d' = d\<lparr>inbuf := inbuf d'\<rparr>" (is "?L \<longleftrightarrow> ?R")
proof
  assume ?L
  then obtain ct plain where
    rd: "ReadMessage d = (Inr (Encrypted ct), d')" and op: "Open k (seqNonce (readSeq r)) ct [] = Some plain"
    and un: "unmarshalPlainFrame plain = Inr m" and r': "r' = r\<lparr>readSeq := readSeq r + 1\<rparr>"
    by (auto simp: chan_ReadMessage_def rkey Let_def split: prod.splits sum.splits message.splits option.splits)
  from un have m: "chan_ok m" "plain = marshalPlainFrame m"
    by (auto simp: unmarshalPlainFrame_iff chan_ok_def)
  from rd [unfolded ReadMessage_def ReadMessageLimited_iff [OF order_refl]] op m
  show ?R using r' sealed_payload [OF aead_law_axioms, of "seqNonce (readSeq r)" m]
    by (auto simp: open_iff sealed_def chan_fits_def)
next
  assume R: ?R
  let ?e = "Encrypted (Seal k (seqNonce (readSeq r)) (marshalPlainFrame m) [])"
  have "length (marshalPayload ?e) \<le> MaxPayload"
    using R sealed_payload [OF aead_law_axioms] by (simp add: chan_fits_def)
  moreover from this have "msg_ok ?e" by (simp add: enc_bytes_def enc_u16_def MaxPayload_def)
  ultimately have "ReadMessage d = (Inr ?e, d')"
    using R by (simp add: ReadMessage_def ReadMessageLimited_iff sealed_def)
  moreover have "unmarshalPlainFrame (marshalPlainFrame m) = Inr m"
    using R by (simp add: unmarshalPlainFrame_iff chan_ok_def chan_fits_def)
  ultimately show ?L
    using R by (simp add: chan_ReadMessage_def rkey open_seal)
qed

end

lemma channel_pair_next:
  "channel_pair k w r \<Longrightarrow>
     channel_pair k (w\<lparr>writeSeq := writeSeq w + 1\<rparr>) (r\<lparr>readSeq := readSeq r + 1\<rparr>)"
  by (simp add: channel_pair_def channel_pair_axioms_def)

text \<open>Sending a sequence of messages, and receiving a number of them.\<close>

fun chan_send_all :: "message list \<Rightarrow> secure_channel \<times> conn \<Rightarrow> write_error option \<times> secure_channel \<times> conn" where
  "chan_send_all [] sc = (None, sc)"
| "chan_send_all (m # ms) sc =
     (case chan_WriteMessage m sc of
        (Some e, sc') \<Rightarrow> (Some e, sc')
      | (None, sc') \<Rightarrow> chan_send_all ms sc')"

fun chan_recv_all :: "nat \<Rightarrow> secure_channel \<times> conn \<Rightarrow> (chan_error, message list) result \<times> secure_channel \<times> conn" where
  "chan_recv_all 0 sc = (Inr [], sc)"
| "chan_recv_all (Suc n) sc =
     (case chan_ReadMessage sc of
        (Inl e, sc') \<Rightarrow> (Inl e, sc')
      | (Inr m, sc') \<Rightarrow>
          (case chan_recv_all n sc' of
             (Inl e, sc'') \<Rightarrow> (Inl e, sc'')
           | (Inr ms, sc'') \<Rightarrow> (Inr (m # ms), sc'')))"

lemma chan_send_recv:
  assumes "channel_pair k w r" "chan_send_all ms (w, c) = (None, w', c')" "list_all chan_ok ms"
  shows "\<exists>wire r'. outbuf c' = outbuf c @ wire \<and> channel_pair k w' r' \<and>
    (\<forall>d rest. inbuf d = wire @ rest \<longrightarrow>
       chan_recv_all (length ms) (r, d) = (Inr ms, r', d\<lparr>inbuf := rest\<rparr>))"
  using assms
proof (induction ms arbitrary: w r c)
  case Nil
  then show ?case by auto
next
  case (Cons m ms)
  from Cons.prems(2) obtain w1 c1 where wr: "chan_WriteMessage m (w, c) = (None, w1, c1)"
    and sd: "chan_send_all ms (w1, c1) = (None, w', c')"
    by (auto split: prod.splits option.splits)
  note wf = channel_pair.write_iff [OF Cons.prems(1) wr]
  let ?r1 = "r\<lparr>readSeq := readSeq r + 1\<rparr>"
  have pair: "channel_pair k w1 ?r1" using channel_pair_next [OF Cons.prems(1)] wf(3) by simp
  from Cons.IH [OF pair sd] Cons.prems(3) obtain wire r' where
    out: "outbuf c' = outbuf c1 @ wire" and p': "channel_pair k w' r'"
    and rc: "\<And>d rest. inbuf d = wire @ rest \<Longrightarrow>
      chan_recv_all (length ms) (?r1, d) = (Inr ms, r', d\<lparr>inbuf := rest\<rparr>)" by auto
  have seq: "writeSeq w = readSeq r" using channel_pair.seq [OF Cons.prems(1)] .
  have "chan_recv_all (length (m # ms)) (r, d) = (Inr (m # ms), r', d\<lparr>inbuf := rest\<rparr>)"
    if "inbuf d = (sealed k (writeSeq w) m @ wire) @ rest" for d rest
  proof -
    have "chan_ReadMessage (r, d) = (Inr m, ?r1, d\<lparr>inbuf := wire @ rest\<rparr>)"
      using channel_pair.read_iff [OF Cons.prems(1)] that wf(1) Cons.prems(3) seq by simp
    then show ?thesis using rc [of "d\<lparr>inbuf := wire @ rest\<rparr>" rest] by simp
  qed
  then show ?case using out p' wf(2) by (metis append.assoc)
qed

lemma new_channels_pair:
  assumes "newClientSecureChannel secret cid sn cn = Inr c"
    and "newServerSecureChannel secret cid sn cn = Inr s"
  shows "channel_pair (writeKey c) c s" and "channel_pair (writeKey s) s c"
proof -
  obtain c2s s2c where d: "deriveChannelKeys secret cid sn cn = Inr (c2s, s2c)"
    "aead_law c2s" "aead_law s2c" by (rule deriveChannelKeys_ok)
  with assms show "channel_pair (writeKey c) c s" "channel_pair (writeKey s) s c"
    by (auto simp: newClientSecureChannel_def newServerSecureChannel_def channel_pair_def
        channel_pair_axioms_def)
qed

text \<open>
  The two channels a handshake sets up, in each direction; key derivation cannot fail, so
  both exist.
\<close>

lemma new_channels_exist:
  "\<exists>c. newClientSecureChannel secret cid sn cn = Inr c"
  "\<exists>s. newServerSecureChannel secret cid sn cn = Inr s"
  by (rule deriveChannelKeys_ok [of secret cid sn cn],
      simp add: newClientSecureChannel_def newServerSecureChannel_def)+

definition client_chan :: "string \<Rightarrow> string \<Rightarrow> bytes \<Rightarrow> bytes \<Rightarrow> secure_channel" where
  "client_chan secret cid sn cn = projr (newClientSecureChannel secret cid sn cn)"

definition server_chan :: "string \<Rightarrow> string \<Rightarrow> bytes \<Rightarrow> bytes \<Rightarrow> secure_channel" where
  "server_chan secret cid sn cn = projr (newServerSecureChannel secret cid sn cn)"

lemma new_channels [simp]:
  "newClientSecureChannel secret cid sn cn = Inr (client_chan secret cid sn cn)"
  "newServerSecureChannel secret cid sn cn = Inr (server_chan secret cid sn cn)"
  using new_channels_exist [of secret cid sn cn] by (auto simp: client_chan_def server_chan_def)

lemma new_channels_seq [simp]:
  "writeSeq (client_chan secret cid sn cn) = 0" "readSeq (client_chan secret cid sn cn) = 0"
  "writeSeq (server_chan secret cid sn cn) = 0" "readSeq (server_chan secret cid sn cn) = 0"
proof -
  obtain c2s s2c where "deriveChannelKeys secret cid sn cn = Inr (c2s, s2c)"
    by (rule deriveChannelKeys_ok)
  then show "writeSeq (client_chan secret cid sn cn) = 0" "readSeq (client_chan secret cid sn cn) = 0"
    "writeSeq (server_chan secret cid sn cn) = 0" "readSeq (server_chan secret cid sn cn) = 0"
    by (simp_all add: newClientSecureChannel_def newServerSecureChannel_def client_chan_def
        server_chan_def del: new_channels)
qed

interpretation up: channel_pair "writeKey (client_chan secret cid sn cn)"
  "client_chan secret cid sn cn" "server_chan secret cid sn cn" for secret cid sn cn
  by (rule new_channels_pair(1) [OF new_channels])

interpretation down: channel_pair "writeKey (server_chan secret cid sn cn)"
  "server_chan secret cid sn cn" "client_chan secret cid sn cn" for secret cid sn cn
  by (rule new_channels_pair(2) [OF new_channels])

lemma chan_WriteMessage_complete:
  assumes "channel_pair k w r" "wplan c = []" "chan_fits m"
  shows "chan_WriteMessage m (w, c)
    = (None, w\<lparr>writeSeq := writeSeq w + 1\<rparr>, c\<lparr>outbuf := outbuf c @ sealed k (writeSeq w) m\<rparr>)"
proof -
  have "aead_law k" "writeKey w = k" using assms(1) by (auto simp: channel_pair_def channel_pair_axioms_def)
  with assms(2,3) show ?thesis
    by (simp add: chan_WriteMessage_def WriteMessage_complete sealed_def chan_fits_def sealed_payload
        del: marshalPayload.simps)
qed

section \<open>Properties of the secure channel\<close>


definition idle :: conn where
  "idle = \<lparr>inbuf = [], rend = EOF, outbuf = [], wplan = []\<rparr>"




text \<open>The nonces of the writes that send a sequence of messages.\<close>

fun chan_nonces :: "message list \<Rightarrow> secure_channel \<times> conn \<Rightarrow> bytes list" where
  "chan_nonces [] sc = []"
| "chan_nonces (m # ms) sc =
     seqNonce (writeSeq (fst sc)) # chan_nonces ms (snd (chan_WriteMessage m sc))"

lemma seqNonce_inject [simp]: "seqNonce a = seqNonce b \<longleftrightarrow> a = b"
proof
  assume "seqNonce a = seqNonce b"
  then have "be_bytes 8 a = be_bytes 8 b" by (simp add: seqNonce_def)
  then have "be_word (be_bytes 8 a) = (be_word (be_bytes 8 b) :: 64 word)" by simp
  then show "a = b" by (simp add: be_word_be_bytes)
qed simp

lemma chan_nonces_seq:
  "chan_nonces ms (s, c) = map (\<lambda>i. seqNonce (writeSeq s + of_nat i)) [0..<length ms]"
proof (induction ms arbitrary: s c)
  case (Cons m ms)
  obtain e s' c' where w: "chan_WriteMessage m (s, c) = (e, s', c')" by (metis prod_cases3)
  then have "writeSeq s' = writeSeq s + 1"
    by (auto simp: chan_WriteMessage_def Let_def split: prod.splits)
  then show ?case
    using Cons.IH [of s' c'] w
    by (simp add: upt_conv_Cons map_Suc_upt [symmetric] add.assoc del: upt_Suc)
qed simp



text \<open>
  The key-expansion loop computes the output of RFC 5869 for every length the RFC allows,
  where its byte counter has not wrapped: the first \<open>l\<close> bytes of \<open>T(1) || T(2) || ...\<close>,
  each block's counter being the number of the block.
\<close>

theorem hkdfExpand_rfc5869:
  assumes "l \<le> 255 * 32"
  shows "hkdfExpand prk info l = take l (concat (map (hkdf_T prk info) [1..<Suc ((l + 31) div 32)])) \<and>
    (\<forall>i \<in> {1..(l + 31) div 32}. unat (of_nat i :: byte) = i)"
proof
  show "hkdfExpand prk info l = take l (concat (map (hkdf_T prk info) [1..<Suc ((l + 31) div 32)]))"
    by (simp only: hkdfExpand_okm hkdf_okm_def)
  have "(l + 31) div 32 \<le> 255" using assms by linarith
  then show "\<forall>i \<in> {1..(l + 31) div 32}. unat (of_nat i :: byte) = i"
    by (auto simp: unsigned_of_nat take_bit_nat_eq_self)
qed

theorem hkdfExpand_rfc5869_witness:
  "hkdfExpand [1] [2] 42 = take 42 (concat (map (hkdf_T [1] [2]) [1..<3]))"
  using hkdfExpand_rfc5869 [of 42 "[1]" "[2]"] by simp

end
