(* ===== verification/Link.thy ===== *)
theory Link
  imports Netip
begin

text \<open>
  Package \<^verbatim>\<open>internal/gre\<close>: the description of a tunnel interface and the encapsulation
  overhead (\<^verbatim>\<open>link_linux.go\<close>).
\<close>

record gre_params =
  gp_name :: string
  gp_local :: addr
  gp_remote :: addr
  gp_key :: "32 word"
  gp_seq :: bool
  gp_mtu :: int
  gp_hoplimit :: "8 word"
  gp_inner_local :: addr
  gp_inner_peer :: addr
  gp_linklocal :: addr
  gp_fou_sport :: "16 word"
  gp_fou_dport :: "16 word"

definition ServerLinkLocal :: addr where
  "ServerLinkLocal = V6 0xfe800000000000000000000000000001 ''''"

definition ClientLinkLocal :: addr where
  "ClientLinkLocal = V6 0xfe800000000000000000000000000002 ''''"

definition OverheadWithFOU :: "addr \<Rightarrow> bool \<Rightarrow> bool \<Rightarrow> bool \<Rightarrow> int" where
  "OverheadWithFOU outer keyed seq fou =
     (let greHeader = 4 + (if keyed then 4 else 0) + (if seq then 4 else 0);
          overhead = greHeader + (if is6 outer then 40 else 20)
      in overhead + (if fou then 8 else 0))"

definition OverheadWithOptions :: "addr \<Rightarrow> bool \<Rightarrow> bool \<Rightarrow> int" where
  "OverheadWithOptions outer keyed seq = OverheadWithFOU outer keyed seq False"

text \<open>\<^verbatim>\<open>Overhead\<close> with its variadic flag: keyed unless the first flag says otherwise.\<close>

definition Overhead :: "addr \<Rightarrow> bool list \<Rightarrow> int" where
  "Overhead outer keyed = OverheadWithOptions outer (keyed = [] \<or> hd keyed) False"

definition hostBits :: "addr \<Rightarrow> nat" where
  "hostBits a = (if is4 a then 32 else 128)"

lemma overhead_bounds: "24 \<le> OverheadWithFOU a k s f" "OverheadWithFOU a k s f \<le> 60"
  by (simp_all add: OverheadWithFOU_def)

end
