(* ===== verification/Netip_Text.thy ===== *)
theory Netip_Text
  imports Netip Names
begin

text \<open>
  Texts of the standard library the program parses and prints: addresses and prefixes
  (\<^verbatim>\<open>netip.ParseAddr\<close>, \<^verbatim>\<open>netip.ParsePrefix\<close>, \<^verbatim>\<open>Addr.String\<close>), host and port
  (\<^verbatim>\<open>net.SplitHostPort\<close>) and numbers (\<^verbatim>\<open>strconv\<close>). A parse error is None.
\<close>

section \<open>Numbers\<close>

fun decimal :: "nat \<Rightarrow> string" where
  "decimal n = (if n < 10 then [char_of (48 + n)] else decimal (n div 10) @ [char_of (48 + n mod 10)])"

declare decimal.simps [simp del]

definition decimal_int :: "int \<Rightarrow> string" where
  "decimal_int i = (if i < 0 then CHR ''-'' # decimal (nat (- i)) else decimal (nat i))"

definition digit_val :: "char \<Rightarrow> nat" where
  "digit_val c = of_char c - 48"

definition all_digits :: "string \<Rightarrow> bool" where
  "all_digits s \<longleftrightarrow> s \<noteq> [] \<and> list_all (\<lambda>c. is_digit (of_char c)) s"

definition number_of :: "string \<Rightarrow> nat" where
  "number_of s = foldl (\<lambda>n c. 10 * n + digit_val c) 0 s"

text \<open>\<^verbatim>\<open>strconv.ParseUint(s, 8, 32)\<close>\<close>

definition parse_octal32 :: "string \<Rightarrow> int option" where
  "parse_octal32 s =
     (if s = [] \<or> \<not> list_all (\<lambda>c. 48 \<le> (of_char c :: nat) \<and> of_char c \<le> (55 :: nat)) s then None
      else let n = foldl (\<lambda>n c. 8 * n + int (digit_val c)) 0 s in if n < 2 ^ 32 then Some n else None)"

section \<open>Splitting\<close>

fun split_at :: "char \<Rightarrow> string \<Rightarrow> string list" where
  "split_at d [] = [[]]"
| "split_at d (c # cs) =
     (if c = d then [] # split_at d cs
      else case split_at d cs of w # ws \<Rightarrow> (c # w) # ws | [] \<Rightarrow> [[c]])"

text \<open>At the first and at the last occurrence of a byte.\<close>

definition cut_first :: "char \<Rightarrow> string \<Rightarrow> (string \<times> string) option" where
  "cut_first d s = (if d \<in> set s then Some (takeWhile (\<lambda>c. c \<noteq> d) s, tl (dropWhile (\<lambda>c. c \<noteq> d) s)) else None)"

definition cut_last :: "char \<Rightarrow> string \<Rightarrow> (string \<times> string) option" where
  "cut_last d s = map_option (\<lambda>(a, b). (rev b, rev a)) (cut_first d (rev s))"

section \<open>Addresses\<close>

definition octet :: "string \<Rightarrow> byte option" where
  "octet s =
     (if all_digits s \<and> (length s = 1 \<or> hd s \<noteq> CHR ''0'') \<and> number_of s \<le> 255
      then Some (of_nat (number_of s)) else None)"

fun sequence :: "'a option list \<Rightarrow> 'a list option" where
  "sequence [] = Some []"
| "sequence (None # xs) = None"
| "sequence (Some x # xs) = map_option (Cons x) (sequence xs)"

definition parse_ipv4_fields :: "string \<Rightarrow> bytes option" where
  "parse_ipv4_fields s =
     (let parts = split_at (CHR ''.'') s in
      if length parts = 4 then sequence (map octet parts) else None)"

definition hex_val :: "char \<Rightarrow> nat option" where
  "hex_val c =
     (let n = of_char c in
      if 48 \<le> n \<and> n \<le> 57 then Some (n - 48)
      else if 97 \<le> n \<and> n \<le> 102 then Some (n - 87)
      else if 65 \<le> n \<and> n \<le> 70 then Some (n - 55)
      else None)"

definition hex_group :: "string \<Rightarrow> 16 word" where
  "hex_group s = of_nat (foldl (\<lambda>n c. 16 * n + (case hex_val c of Some d \<Rightarrow> d | None \<Rightarrow> 0)) 0 s)"

text \<open>
  The loop of \<^verbatim>\<open>parseIPv6\<close>: the bytes so far, the position of the ellipsis, the rest of the
  text. A group has at most four digits, so its value needs no further check.
\<close>

function parse6_loop :: "bytes \<Rightarrow> nat option \<Rightarrow> string \<Rightarrow> (bytes \<times> nat option \<times> string) option" where
  "parse6_loop ip ell s =
     (if 16 \<le> length ip then Some (ip, ell, s)
      else
        let digits = takeWhile (\<lambda>c. hex_val c \<noteq> None) s; rest = drop (length digits) s in
        if 4 < length digits \<or> digits = [] then None
        else if rest \<noteq> [] \<and> hd rest = CHR ''.''
        then if ell = None \<and> length ip \<noteq> 12 then None
             else if 16 < length ip + 4 then None
             else map_option (\<lambda>v4. (ip @ v4, ell, [])) (parse_ipv4_fields s)
        else
          let ip' = ip @ be_bytes 2 (hex_group digits) in
          if rest = [] then Some (ip', ell, [])
          else if hd rest \<noteq> CHR '':'' then None
          else if length rest = 1 then None
          else if hd (tl rest) = CHR '':''
          then if ell \<noteq> None then None
               else if length rest = 2 then Some (ip', Some (length ip'), [])
               else parse6_loop ip' (Some (length ip')) (tl (tl rest))
          else parse6_loop ip' ell (tl rest))"
  by pat_completeness auto

termination
  by (relation "measure (\<lambda>(ip, ell, s). 16 - length ip)") auto

declare parse6_loop.simps [simp del]

text \<open>What follows the loop: the whole text is used and the ellipsis stands for zeros.\<close>

definition finish6 :: "bytes \<times> nat option \<times> string \<Rightarrow> bytes option" where
  "finish6 r =
     (case r of (ip, ell, s) \<Rightarrow>
        if s \<noteq> [] then None
        else if length ip < 16
        then (case ell of
                None \<Rightarrow> None
              | Some e \<Rightarrow> Some (take e ip @ replicate (16 - length ip) 0 @ drop e ip))
        else if ell \<noteq> None then None
        else Some ip)"

definition parse_ipv6 :: "string \<Rightarrow> addr option" where
  "parse_ipv6 inp =
     (let (s, z, bad) = (case cut_first (CHR ''%'') inp of
            None \<Rightarrow> (inp, [], False) | Some (a, b) \<Rightarrow> (a, b, b = []))
      in if bad then None
         else
           let lead = (take 2 s = [CHR '':'', CHR '':'']);
               s' = (if lead then drop 2 s else s)
           in if lead \<and> s' = [] then Some (V6 0 z)
              else case parse6_loop [] (if lead then Some 0 else None) s' of
                None \<Rightarrow> None
              | Some r \<Rightarrow> map_option (\<lambda>b. V6 (be_word b) z) (finish6 r))"

definition parse_ipv4 :: "string \<Rightarrow> addr option" where
  "parse_ipv4 s = map_option (\<lambda>b. V4 (be_word b)) (parse_ipv4_fields s)"

text \<open>\<^verbatim>\<open>netip.ParseAddr\<close>: the first dot, colon or percent sign decides.\<close>

definition ParseAddr :: "string \<Rightarrow> addr option" where
  "ParseAddr s =
     (case dropWhile (\<lambda>c. c \<notin> {CHR ''.'', CHR '':'', CHR ''%''}) s of
        [] \<Rightarrow> None
      | c # _ \<Rightarrow> if c = CHR ''.'' then parse_ipv4 s else if c = CHR '':'' then parse_ipv6 s else None)"

definition ParsePrefix :: "string \<Rightarrow> prefix option" where
  "ParsePrefix s =
     (case cut_last (CHR ''/'') s of
        None \<Rightarrow> None
      | Some (a, bits) \<Rightarrow>
          (case ParseAddr a of
             None \<Rightarrow> None
           | Some ip \<Rightarrow>
               if zone ip \<noteq> '''' then None
               else if \<not> all_digits bits \<or> (1 < length bits \<and> hd bits = CHR ''0'') then None
               else if bitlen ip < number_of bits then None
               else Some \<lparr>pip = ip, pbits = int (number_of bits)\<rparr>))"

section \<open>Host and port\<close>

text \<open>\<^verbatim>\<open>net.SplitHostPort\<close>\<close>

definition SplitHostPort :: "string \<Rightarrow> (string \<times> string) option" where
  "SplitHostPort hp =
     (case cut_last (CHR '':'') hp of
        None \<Rightarrow> None
      | Some (front, port) \<Rightarrow>
          if hp \<noteq> [] \<and> hd hp = CHR ''[''
          then (case cut_first (CHR '']'') hp of
                  None \<Rightarrow> None
                | Some (a, b) \<Rightarrow>
                    if length a + 1 \<noteq> length front then None
                    else if CHR ''['' \<in> set (tl hp) \<or> CHR '']'' \<in> set b then None
                    else Some (tl a, port))
          else if CHR '':'' \<in> set front \<or> CHR ''['' \<in> set hp \<or> CHR '']'' \<in> set hp then None
          else Some (front, port))"

section \<open>Printing addresses\<close>

definition dotted :: "32 word \<Rightarrow> string" where
  "dotted w = concat (map (\<lambda>(i, b). (if i = 0 then '''' else ''.'') @ decimal (unat b)) (enumerate 0 (be_bytes 4 w)))"

definition groups6 :: "128 word \<Rightarrow> nat list" where
  "groups6 w = map (\<lambda>i. unat (ucast (drop_bit (112 - 16 * i) w) :: 16 word)) [0..<8]"

text \<open>The longest run of at least two zero groups, the first one when there are several.\<close>

definition zero_run :: "nat list \<Rightarrow> nat \<Rightarrow> nat" where
  "zero_run gs i = length (takeWhile (\<lambda>g. g = 0) (drop i gs))"

definition ellipsis_of :: "nat list \<Rightarrow> nat \<times> nat" where
  "ellipsis_of gs = foldl (\<lambda>(zs, ze) i. let l = zero_run gs i in
     if 2 \<le> l \<and> ze - zs < l then (i, i + l) else (zs, ze)) (255, 255) [0..<8]"

definition colons :: "nat list \<Rightarrow> string" where
  "colons gs = concat (map (\<lambda>(i, g). (if i = 0 then '''' else '':'') @ to_hex g) (enumerate 0 gs))"

definition string6 :: "128 word \<Rightarrow> string" where
  "string6 w =
     (let gs = groups6 w; (zs, ze) = ellipsis_of gs in
      if zs = 255 then colons gs else colons (take zs gs) @ ''::'' @ colons (drop ze gs))"

fun addr_string :: "addr \<Rightarrow> string" where
  "addr_string AddrZero = ''invalid IP''"
| "addr_string (V4 w) = dotted w"
| "addr_string (V6 w z) =
     (if is4in6 (V6 w z) then ''::ffff:'' @ dotted (ucast w) else string6 w) @
     (if z = '''' then '''' else ''%'' @ z)"

section \<open>What the parsers return\<close>

lemma ParseAddr_valid: "ParseAddr s = Some a \<Longrightarrow> is_valid a"
  by (auto simp: ParseAddr_def parse_ipv4_def parse_ipv6_def Let_def
      split: list.splits if_splits option.splits prod.splits)

lemma ParsePrefix_valid: "ParsePrefix s = Some p \<Longrightarrow> prefix_valid p"
  using ParseAddr_valid
  by (auto simp: ParsePrefix_def prefix_valid_def split: option.splits prod.splits if_splits)

end
