(* ===== verification/Hooks.thy ===== *)
theory Hooks
  imports Netip_Text
begin

text \<open>
  Package \<^verbatim>\<open>internal/hooks\<close>: the event a hook script is told about. Running the script is an
  effect of the environment; what the program decides is whether it runs and with what.
\<close>

record hook_info =
  hk_event :: string
  hk_iface :: string
  hk_client :: string
  hk_inner_local :: addr
  hk_inner_peer :: addr
  hk_outer_local :: addr
  hk_outer_peer :: addr
  hk_key :: "32 word"
  hk_mtu :: int

text \<open>
  \<^verbatim>\<open>Info.env\<close>: the environment of the script. Of the environment of the daemon only \<^verbatim>\<open>PATH\<close> is
  handed on (\<open>path\<close>, empty when unset).
\<close>

definition hook_env :: "string \<Rightarrow> hook_info \<Rightarrow> string list" where
  "hook_env path i =
     (if path \<noteq> '''' then [''PATH='' @ path] else []) @
     map (\<lambda>(k, v). k @ ''='' @ v)
       [(''GREMLIND_EVENT'', hk_event i), (''GREMLIND_IFACE'', hk_iface i), (''GREMLIND_CLIENT_ID'', hk_client i),
        (''GREMLIND_INNER_LOCAL'', addr_string (hk_inner_local i)), (''GREMLIND_INNER_PEER'', addr_string (hk_inner_peer i)),
        (''GREMLIND_OUTER_LOCAL'', addr_string (hk_outer_local i)), (''GREMLIND_OUTER_PEER'', addr_string (hk_outer_peer i)),
        (''GREMLIND_GRE_KEY'', decimal (unat (hk_key i))), (''GREMLIND_MTU'', decimal_int (hk_mtu i))]"

text \<open>\<^verbatim>\<open>hooks.Run\<close>: the script and the event it is run for; nothing when no script is configured.\<close>

definition hook_run :: "string \<Rightarrow> hook_info \<Rightarrow> (string \<times> hook_info) list" where
  "hook_run script info = (if script = '''' then [] else [(script, info)])"

end
