(* ===== verification/Session.thy ===== *)
theory Session
  imports Names Ippool Codec Link Hooks
begin

text \<open>
  Package \<^verbatim>\<open>internal/session\<close>: the manager that allocates inner addresses, negotiates the
  tunnel MTU, provisions interfaces and keeps the registry of live sessions.

  The configuration is fixed after \<^verbatim>\<open>newWith\<close>. The state is what the mutex guards, with the
  pool (every pool call of the manager is made under the mutex). The registry stores pointers
  to entries, so an entry carries an identity, and what is written through a pointer after
  the entry was made (the cancel function of its clamp monitor) is kept beside the registry
  under that identity. Calls outside the mutex (the data-plane, the clamp, hooks) are events
  in the order they are made; what they return is given by the environment of the call.
\<close>

section \<open>Configuration and state\<close>

record mss_clamp =
  mc_enabled :: bool
  mc_backend :: string
  mc_direction :: string
  mc_mode :: string
  mc_mss :: int
  mc_mss4 :: int
  mc_mss6 :: int
  mc_nft_family :: string
  mc_nft_table :: string
  mc_nft_chain :: string
  mc_nft_manage :: bool
  mc_ipt_chain :: string
  mc_monitor :: bool

record mgr_cfg =
  serverInner :: addr
  greLocal :: addr
  outerMTU :: int
  mtuCap :: int
  useGREKey :: bool
  useGRESeq :: bool
  upHook :: string
  downHook :: string
  leaseTTL :: int
  ifNames :: "(string, string) fmap"
  staticLease :: "(string, addr) fmap"
  fouPort :: "16 word"
  mssClamp :: mss_clamp

record entry =
  e_client :: string
  e_ifname :: string
  e_inner :: addr
  e_outer :: addr
  e_grekey :: "32 word"
  e_mtu :: int
  e_since :: int
  e_id :: nat

record manager =
  mpool :: pool
  sessions :: "(32 word, entry) fmap"
  active :: "(string, 32 word) fmap"
  leases :: "(string, addr) fmap"
  leaseTimes :: "(string, int) fmap"
  monitors :: "nat fset"
  fresh_id :: nat

record session_params =
  sp_client :: string
  sp_outer :: addr
  sp_mtu :: "16 word"
  sp_requested :: addr

record session_grant =
  g_client_inner :: addr
  g_server_inner :: addr
  g_server_outer :: addr
  g_grekey :: "32 word"
  g_flags :: "32 word"
  g_mtu :: "16 word"
  g_key :: "32 word"

text \<open>
  \<^verbatim>\<open>newWith\<close>: FOU disables the GRE key and sequence fields, and an outer MTU of zero is
  replaced by the detected one (\<open>detected\<close>, None when detection failed) or 1500.
\<close>

definition newWith :: "mgr_cfg \<Rightarrow> int option \<Rightarrow> pool \<Rightarrow> mgr_cfg \<times> manager" where
  "newWith cfg detected p =
     (let cfg1 = (if fouPort cfg \<noteq> 0 then cfg\<lparr>useGREKey := False, useGRESeq := False\<rparr> else cfg);
          outer = (if outerMTU cfg = 0 then (case detected of Some m \<Rightarrow> m | None \<Rightarrow> 1500)
                   else outerMTU cfg)
      in (cfg1\<lparr>outerMTU := outer\<rparr>,
          \<lparr>mpool = p, sessions = fmempty, active = fmempty, leases = fmempty,
           leaseTimes = fmempty, monitors = {||}, fresh_id = 0\<rparr>))"

section \<open>MTU negotiation\<close>

definition minimumTunnelMTU :: "addr \<Rightarrow> int" where
  "minimumTunnelMTU outer = (if is6 outer then 1280 else 576)"

definition negotiateMTUWithServerOuter :: "mgr_cfg \<Rightarrow> int \<Rightarrow> int \<Rightarrow> int" where
  "negotiateMTUWithServerOuter m serverOuterMTU clientOuterMTU =
     (let outer0 = (if serverOuterMTU \<le> 0 then outerMTU m else serverOuterMTU);
          outer = (if 0 < clientOuterMTU \<and> clientOuterMTU < outer0 then clientOuterMTU else outer0);
          mtu0 = outer - OverheadWithFOU (greLocal m) (useGREKey m) (useGRESeq m) (fouPort m \<noteq> 0);
          mtu1 = (if 0 < mtuCap m \<and> mtuCap m < mtu0 then mtuCap m else mtu0);
          minMTU = minimumTunnelMTU (greLocal m)
      in if mtu1 < minMTU then minMTU else mtu1)"

definition negotiateMTU :: "mgr_cfg \<Rightarrow> int \<Rightarrow> int" where
  "negotiateMTU m clientOuterMTU = negotiateMTUWithServerOuter m (outerMTU m) clientOuterMTU"

section \<open>Locked sections\<close>

definition lease_expired :: "mgr_cfg \<Rightarrow> int \<Rightarrow> manager \<Rightarrow> string \<Rightarrow> bool" where
  "lease_expired cfg now m c \<longleftrightarrow>
     (case fmlookup (leaseTimes m) c of
        None \<Rightarrow> False
      | Some t \<Rightarrow> fmlookup (active m) c = None \<and> leaseTTL cfg < now - t)"

definition purgeExpiredLeases :: "mgr_cfg \<Rightarrow> int \<Rightarrow> manager \<Rightarrow> manager" where
  "purgeExpiredLeases cfg now m =
     (if leaseTTL cfg \<le> 0 then m
      else m\<lparr>leases := fmfilter (\<lambda>c. \<not> lease_expired cfg now m c) (leases m),
             leaseTimes := fmfilter (\<lambda>c. \<not> lease_expired cfg now m c) (leaseTimes m)\<rparr>)"

definition evict :: "string \<Rightarrow> manager \<Rightarrow> entry option \<times> manager" where
  "evict c m =
     (case fmlookup (active m) c of
        None \<Rightarrow> (None, m)
      | Some oldKey \<Rightarrow>
          let entry = fmlookup (sessions m) oldKey;
              m1 = m\<lparr>sessions := fmdrop oldKey (sessions m), active := fmdrop c (active m)\<rparr>
          in (entry, case entry of
                       None \<Rightarrow> m1
                     | Some e \<Rightarrow> m1\<lparr>mpool := pool_release (mpool m1) (e_inner e)\<rparr>))"

definition leaseAvailableTo :: "mgr_cfg \<Rightarrow> (string, addr) fmap \<Rightarrow> string \<Rightarrow> addr \<Rightarrow> bool" where
  "leaseAvailableTo cfg ls c a \<longleftrightarrow>
     fmpred (\<lambda>owner leased. \<not> (owner \<noteq> c \<and> leased = a)) (staticLease cfg) \<and>
     fmpred (\<lambda>owner leased. \<not> (owner \<noteq> c \<and> leased = a)) ls"

text \<open>The loop of \<^verbatim>\<open>allocInnerLocked\<close> over fresh addresses, with the list of skipped ones.\<close>

definition release_all :: "pool \<Rightarrow> addr list \<Rightarrow> pool" where
  "release_all p as = foldl pool_release p as"

lemma alloc_scan_free: "alloc_scan p a = Some b \<Longrightarrow> contains (pprefix p) b \<and> b |\<notin>| used p"
proof (induction p a rule: alloc_scan.induct)
  case (1 p a)
  show ?case
  proof (cases "contains (pprefix p) a \<and> busy p a")
    case True
    with 1 show ?thesis by (simp add: alloc_scan.simps [of p a])
  next
    case False
    with "1.prems" show ?thesis
      by (auto simp: alloc_scan.simps [of p a] busy_def split: if_splits)
  qed
qed

function alloc_skip :: "(addr \<Rightarrow> bool) \<Rightarrow> addr list \<Rightarrow> pool \<Rightarrow> (pool_error, addr) result \<times> pool" where
  "alloc_skip avail skipped p =
     (case pool_allocate p of
        (Inl e, p') \<Rightarrow> (Inl e, release_all p' skipped)
      | (Inr a, p') \<Rightarrow>
          if avail a then (Inr a, release_all p' skipped)
          else alloc_skip avail (skipped @ [a]) p')"
  by pat_completeness auto

termination
proof (relation "measure (\<lambda>(avail, skipped, p). card {a. contains (pprefix p) a \<and> a |\<notin>| used p})")
  fix avail :: "addr \<Rightarrow> bool" and skipped p r p' a
  assume "(r, p') = pool_allocate p" "r = Inr a"
  then have a: "contains (pprefix p) a" "a |\<notin>| used p" "p' = p\<lparr>used := finsert a (used p)\<rparr>"
    by (auto simp: pool_allocate_def dest!: alloc_scan_free split: option.splits)
  then have "{b. contains (pprefix p') b \<and> b |\<notin>| used p'} \<subset> {b. contains (pprefix p) b \<and> b |\<notin>| used p}"
    by auto
  moreover have "finite {b. contains (pprefix p) b \<and> b |\<notin>| used p}"
    using finite_contains [of "pprefix p"] by (rule rev_finite_subset) auto
  ultimately show "((avail, skipped @ [a], p'), avail, skipped, p)
      \<in> measure (\<lambda>(avail, skipped, p). card {a. contains (pprefix p) a \<and> a |\<notin>| used p})"
    by (simp add: psubset_card_mono)
qed simp

declare alloc_skip.simps [simp del]

datatype est_error =
    MissingOuter
  | FamilyMismatch addr addr
  | StaticClaimed addr string
  | StaticUnavailable addr string pool_error
  | PoolFailed pool_error
  | KeyFailed
  | EnsureFailed string
  | ClampFailed string

fun try_candidates :: "(addr \<Rightarrow> bool) \<Rightarrow> addr list \<Rightarrow> pool \<Rightarrow> (addr \<times> pool) option" where
  "try_candidates avail [] p = None"
| "try_candidates avail (cand # cs) p =
     (if is_valid cand \<and> avail cand
      then (case pool_allocate_specific p cand of
              Inr p' \<Rightarrow> Some (cand, p')
            | Inl _ \<Rightarrow> try_candidates avail cs p)
      else try_candidates avail cs p)"

definition lease_of :: "(string, addr) fmap \<Rightarrow> string \<Rightarrow> addr" where
  "lease_of ls c = (case fmlookup ls c of None \<Rightarrow> AddrZero | Some a \<Rightarrow> a)"

definition allocInner ::
  "mgr_cfg \<Rightarrow> (string, addr) fmap \<Rightarrow> string \<Rightarrow> addr \<Rightarrow> pool \<Rightarrow> (est_error, addr) result \<times> pool" where
  "allocInner cfg ls c requested p =
     (case fmlookup (staticLease cfg) c of
        Some static \<Rightarrow>
          if \<not> leaseAvailableTo cfg ls c static then (Inl (StaticClaimed static c), p)
          else (case pool_allocate_specific p static of
                  Inl e \<Rightarrow> (Inl (StaticUnavailable static c e), p)
                | Inr p' \<Rightarrow> (Inr static, p'))
      | None \<Rightarrow>
          (case try_candidates (leaseAvailableTo cfg ls c) [requested, lease_of ls c] p of
             Some (a, p') \<Rightarrow> (Inr a, p')
           | None \<Rightarrow>
               (case alloc_skip (leaseAvailableTo cfg ls c) [] p of
                  (Inl e, p') \<Rightarrow> (Inl (PoolFailed e), p')
                | (Inr a, p') \<Rightarrow> (Inr a, p'))))"

definition ifNameFor :: "mgr_cfg \<Rightarrow> string \<Rightarrow> 32 word \<Rightarrow> string" where
  "ifNameFor cfg c key = (case fmlookup (ifNames cfg) c of Some name \<Rightarrow> name | None \<Rightarrow> ifName key)"

text \<open>
  \<^verbatim>\<open>randomKeyLocked\<close>: the draws of the random source in order, each four bytes or a failure.
  None means that the loop is still drawing when the given draws are used up.
\<close>

fun randomKey :: "(32 word, entry) fmap \<Rightarrow> bytes option list \<Rightarrow> (est_error, 32 word) result option" where
  "randomKey ss [] = None"
| "randomKey ss (None # ds) = Some (Inl KeyFailed)"
| "randomKey ss (Some b # ds) =
     (let k = be_word b in
      if k \<noteq> 0 \<and> fmlookup ss k = None then Some (Inr k) else randomKey ss ds)"

text \<open>What the calls outside the manager return during one \<^verbatim>\<open>Establish\<close>.\<close>

record est_env =
  path_mtu :: "int option"
  now_purge :: int
  draws :: "bytes option list"
  now_since :: int
  ensure_err :: "string option"
  clamp_err :: "string option"

definition tunnel_flags :: "mgr_cfg \<Rightarrow> 32 word" where
  "tunnel_flags cfg =
     (if useGREKey cfg then TunnelFlagGREKey else 0) OR (if useGRESeq cfg then TunnelFlagGRESeq else 0)"

text \<open>
  The section of \<^verbatim>\<open>Establish\<close> under the mutex: purge, evict, allocate, draw a key, register.
\<close>

definition register ::
  "session_params \<Rightarrow> 32 word \<Rightarrow> entry \<Rightarrow> manager \<Rightarrow> manager" where
  "register p key entry m =
     m\<lparr>sessions := fmupd key entry (sessions m),
       active := fmupd (sp_client p) key (active m),
       leases := fmupd (sp_client p) (e_inner entry) (leases m),
       leaseTimes := fmupd (sp_client p) (e_since entry) (leaseTimes m),
       fresh_id := fresh_id m + 1\<rparr>"

definition establish_locked ::
  "mgr_cfg \<Rightarrow> est_env \<Rightarrow> session_params \<Rightarrow> int \<Rightarrow> manager \<Rightarrow>
     ((8 word \<times> est_error, 32 word \<times> entry \<times> entry option) result \<times> manager) option" where
  "establish_locked cfg env p mtu m0 =
     (let m1 = purgeExpiredLeases cfg (now_purge env) m0;
          (evicted, m2) = evict (sp_client p) m1
      in case allocInner cfg (leases m2) (sp_client p) (sp_requested p) (mpool m2) of
           (Inl e, pl) \<Rightarrow> Some (Inl (ResultNoAddresses, e), m2\<lparr>mpool := pl\<rparr>)
         | (Inr inner, pl) \<Rightarrow>
             (case randomKey (sessions m2) (draws env) of
                None \<Rightarrow> None
              | Some (Inl e) \<Rightarrow>
                  Some (Inl (ResultInternal, e), m2\<lparr>mpool := pool_release pl inner\<rparr>)
              | Some (Inr key) \<Rightarrow>
                  let entry = \<lparr>e_client = sp_client p, e_ifname = ifNameFor cfg (sp_client p) key,
                        e_inner = inner, e_outer = sp_outer p,
                        e_grekey = (if useGREKey cfg then key else 0), e_mtu = mtu,
                        e_since = now_since env, e_id = fresh_id m2\<rparr>
                  in Some (Inr (key, entry, evicted), register p key entry (m2\<lparr>mpool := pl\<rparr>))))"

text \<open>
  The section run when provisioning failed: the session is removed only if the registry still
  holds this very entry.
\<close>

definition rollback :: "string \<Rightarrow> 32 word \<Rightarrow> entry \<Rightarrow> manager \<Rightarrow> manager" where
  "rollback c key entry m =
     (if map_option e_id (fmlookup (sessions m) key) = Some (e_id entry)
      then m\<lparr>sessions := fmdrop key (sessions m),
             active := (if fmlookup (active m) c = Some key then fmdrop c (active m) else active m),
             mpool := pool_release (mpool m) (e_inner entry),
             leases := fmdrop c (leases m),
             leaseTimes := fmdrop c (leaseTimes m)\<rparr>
      else m)"

text \<open>The section of \<^verbatim>\<open>Teardown\<close> under the mutex, at time \<open>now\<close>.\<close>

definition teardown_locked :: "32 word \<Rightarrow> int \<Rightarrow> manager \<Rightarrow> entry option \<times> manager" where
  "teardown_locked key now m =
     (case fmlookup (sessions m) key of
        None \<Rightarrow> (None, m)
      | Some e \<Rightarrow>
          (Some e,
           m\<lparr>sessions := fmdrop key (sessions m),
             active := (if fmlookup (active m) (e_client e) = Some key
                        then fmdrop (e_client e) (active m) else active m),
             mpool := pool_release (mpool m) (e_inner e),
             leaseTimes := fmupd (e_client e) now (leaseTimes m)\<rparr>))"

section \<open>Data-plane events\<close>

datatype dp_event =
    EvEnsure gre_params "string option"
  | EvRemove string
  | EvClampApply string int
  | EvClampRemove string int
  | EvMonitorStart nat
  | EvMonitorCancel nat
  | EvHook string hook_info

definition hook_event :: "string \<Rightarrow> mgr_cfg \<Rightarrow> entry \<Rightarrow> hook_info" where
  "hook_event ev cfg e =
     \<lparr>hk_event = ev, hk_iface = e_ifname e, hk_client = e_client e,
      hk_inner_local = serverInner cfg, hk_inner_peer = e_inner e,
      hk_outer_local = greLocal cfg, hk_outer_peer = e_outer e,
      hk_key = e_grekey e, hk_mtu = e_mtu e\<rparr>"

definition removeAndNotify :: "mgr_cfg \<Rightarrow> nat fset \<Rightarrow> entry \<Rightarrow> dp_event list" where
  "removeAndNotify cfg mons e =
     (if e_id e |\<in>| mons then [EvMonitorCancel (e_id e)] else []) @
     (if mc_enabled (mssClamp cfg) then [EvClampRemove (e_ifname e) (e_mtu e)] else []) @
     [EvRemove (e_ifname e)] @
     map (\<lambda>(s, i). EvHook s i) (hook_run (downHook cfg) (hook_event ''down'' cfg e))"

definition ensure_params :: "mgr_cfg \<Rightarrow> entry \<Rightarrow> gre_params" where
  "ensure_params cfg e =
     \<lparr>gp_name = e_ifname e, gp_local = greLocal cfg, gp_remote = e_outer e, gp_key = e_grekey e,
      gp_seq = useGRESeq cfg, gp_mtu = e_mtu e, gp_hoplimit = 0, gp_inner_local = serverInner cfg,
      gp_inner_peer = e_inner e, gp_linklocal = ServerLinkLocal,
      gp_fou_sport = fouPort cfg, gp_fou_dport = fouPort cfg\<rparr>"

definition clamp_result :: "mgr_cfg \<Rightarrow> est_env \<Rightarrow> string option" where
  "clamp_result cfg env = (if mc_enabled (mssClamp cfg) then clamp_err env else None)"

definition start_monitor :: "mgr_cfg \<Rightarrow> entry \<Rightarrow> manager \<Rightarrow> manager" where
  "start_monitor cfg e m =
     (if mc_enabled (mssClamp cfg) \<and> mc_monitor (mssClamp cfg)
      then m\<lparr>monitors := finsert (e_id e) (monitors m)\<rparr> else m)"

definition grant_of :: "mgr_cfg \<Rightarrow> 32 word \<Rightarrow> entry \<Rightarrow> session_grant" where
  "grant_of cfg key e =
     \<lparr>g_client_inner = e_inner e, g_server_inner = serverInner cfg, g_server_outer = greLocal cfg,
      g_grekey = e_grekey e, g_flags = tunnel_flags cfg, g_mtu = of_int (e_mtu e), g_key = key\<rparr>"

text \<open>The part of \<^verbatim>\<open>Establish\<close> after the mutex is released, run without interference.\<close>

definition provision ::
  "mgr_cfg \<Rightarrow> est_env \<Rightarrow> 32 word \<Rightarrow> entry \<Rightarrow> manager \<Rightarrow>
     (8 word \<times> est_error, session_grant) result \<times> manager \<times> dp_event list" where
  "provision cfg env key e m =
     (case ensure_err env of
        Some err \<Rightarrow>
          (Inl (ResultInternal, EnsureFailed err), rollback (e_client e) key e m,
           [EvEnsure (ensure_params cfg e) (Some err)])
      | None \<Rightarrow>
          let apply_ev = EvEnsure (ensure_params cfg e) None #
                (if mc_enabled (mssClamp cfg) then [EvClampApply (e_ifname e) (e_mtu e)] else [])
          in case clamp_result cfg env of
               Some err \<Rightarrow>
                 (Inl (ResultInternal, ClampFailed err), rollback (e_client e) key e m,
                  apply_ev @ [EvRemove (e_ifname e)])
             | None \<Rightarrow>
                 (Inr (grant_of cfg key e), start_monitor cfg e m,
                  apply_ev @
                  (if mc_enabled (mssClamp cfg) \<and> mc_monitor (mssClamp cfg)
                   then [EvMonitorStart (e_id e)] else []) @
                  map (\<lambda>(s, i). EvHook s i) (hook_run (upHook cfg) (hook_event ''up'' cfg e))))"

definition est_mtu :: "mgr_cfg \<Rightarrow> est_env \<Rightarrow> session_params \<Rightarrow> int" where
  "est_mtu cfg env p =
     negotiateMTUWithServerOuter cfg
       (case path_mtu env of Some m \<Rightarrow> m | None \<Rightarrow> outerMTU cfg) (uint (sp_mtu p))"

text \<open>\<^verbatim>\<open>Establish\<close> and \<^verbatim>\<open>Teardown\<close>, whole.\<close>

definition Establish ::
  "mgr_cfg \<Rightarrow> est_env \<Rightarrow> session_params \<Rightarrow> manager \<Rightarrow>
     ((8 word \<times> est_error, session_grant) result \<times> manager \<times> dp_event list) option" where
  "Establish cfg env p m =
     (if \<not> is_valid (sp_outer p) then Some (Inl (ResultInternal, MissingOuter), m, [])
      else if is6 (sp_outer p) \<noteq> is6 (greLocal cfg)
      then Some (Inl (ResultUnsupported, FamilyMismatch (sp_outer p) (greLocal cfg)), m, [])
      else case establish_locked cfg env p (est_mtu cfg env p) m of
        None \<Rightarrow> None
      | Some (Inl err, m') \<Rightarrow> Some (Inl err, m', [])
      | Some (Inr (key, e, evicted), m') \<Rightarrow>
          let ev0 = (case evicted of None \<Rightarrow> [] | Some old \<Rightarrow> removeAndNotify cfg (monitors m') old);
              (res, m'', ev1) = provision cfg env key e m'
          in Some (res, m'', ev0 @ ev1))"

definition Teardown_session ::
  "mgr_cfg \<Rightarrow> session_grant \<Rightarrow> int \<Rightarrow> manager \<Rightarrow> manager \<times> dp_event list" where
  "Teardown_session cfg g now m =
     (case teardown_locked (g_key g) now m of
        (None, m') \<Rightarrow> (m', [])
      | (Some e, m') \<Rightarrow> (m', removeAndNotify cfg (monitors m') e))"

definition Sessions :: "manager \<Rightarrow> entry fset" where
  "Sessions m = fmran (sessions m)"

end
