(* ===== verification/Session_Inv.thy ===== *)
theory Session_Inv
  imports Session
begin

text \<open>
  The invariant of the session manager and that every section under its mutex keeps it; the
  functional behaviour of address allocation, of \<^verbatim>\<open>Establish\<close> and of \<^verbatim>\<open>Teardown\<close>.
\<close>

section \<open>Allocation of an inner address\<close>

lemma pool_release_used: "pool_release p a = p\<lparr>used := used p |-| {|a|}\<rparr>"
  by (simp add: pool_release_def)

lemma release_all_used: "release_all p as = p\<lparr>used := used p |-| fset_of_list as\<rparr>"
proof (induction as arbitrary: p)
  case (Cons a as)
  have "used p |-| {|a|} |-| fset_of_list as = used p |-| finsert a (fset_of_list as)" by auto
  then show ?case using Cons by (simp add: release_all_def pool_release_def)
qed (simp add: release_all_def)

lemma fminus_added: "(A |\<union>| B) |-| B = A" if "A |\<inter>| B = {||}" for A B :: "'a fset"
  using that by blast

text \<open>
  The loop over fresh addresses, from any point of it: \<open>p0\<close> is the pool before the loop and
  the skipped addresses are the ones taken from it so far.
\<close>

lemma alloc_skip_spec:
  assumes "pool_wf p0"
    and "p = p0\<lparr>used := used p0 |\<union>| fset_of_list skipped\<rparr>"
    and "set skipped \<subseteq> {a \<in> dynamic p0 - held p0. \<not> avail a}"
  shows "case alloc_skip avail skipped p of
      (Inr a, p') \<Rightarrow> avail a \<and> a \<in> dynamic p0 - held p0 \<and>
        (\<forall>b \<in> dynamic p0 - held p0. avail b \<longrightarrow> a \<le> b) \<and> p' = p0\<lparr>used := finsert a (used p0)\<rparr>
    | (Inl e, p') \<Rightarrow> e = ErrExhausted \<and> p' = p0 \<and> (\<forall>b \<in> dynamic p0 - held p0. \<not> avail b)"
  using assms
proof (induction avail skipped p rule: alloc_skip.induct)
  case (1 avail skipped p)
  have wf: "pool_wf p"
    using "1.prems" held_claimable [OF "1.prems"(1)] dynamic_claimable [of p0]
    by (auto simp: held_def fset_of_list.rep_eq intro!: pool_wf_update)
  have dyn: "dynamic p = dynamic p0" and hld: "held p = held p0 \<union> set skipped"
    using "1.prems"(2) by (auto simp: held_def fset_of_list.rep_eq)
  have restore: "(used p0 |\<union>| fset_of_list skipped) |-| fset_of_list skipped = used p0"
    using "1.prems"(3) by (intro fminus_added) (auto simp: held_def fset_of_list_elem)
  obtain r p' where al: "pool_allocate p = (r, p')" by (metis surj_pair)
  show ?case
  proof (cases r)
    case (Inl e)
    then have "alloc_skip avail skipped p = (Inl e, release_all p' skipped)"
      using al by (simp add: alloc_skip.simps [of avail skipped p])
    moreover from pool_allocate_spec [OF wf] al Inl
    have "e = ErrExhausted" "p' = p" "dynamic p0 \<subseteq> held p0 \<union> set skipped"
      by (auto simp: dyn hld)
    ultimately show ?thesis
      using restore "1.prems" by (auto simp: release_all_used)
  next
    case (Inr a)
    from pool_allocate_spec [OF wf] al Inr
    have a: "a \<in> dynamic p0 - held p0" "a \<notin> set skipped" "p' = p\<lparr>used := finsert a (used p)\<rparr>"
      and least: "\<forall>b \<in> dynamic p0 - (held p0 \<union> set skipped). a \<le> b"
      by (auto simp: dyn hld)
    show ?thesis
    proof (cases "avail a")
      case True
      have "finsert a (used p0 |\<union>| fset_of_list skipped) |-| fset_of_list skipped
          = finsert a (used p0)"
        using a(2) restore by (simp add: finsert_fminus_if fset_of_list_elem)
      moreover have "alloc_skip avail skipped p = (Inr a, release_all p' skipped)"
        using al Inr True by (simp add: alloc_skip.simps [of avail skipped p])
      ultimately show ?thesis
        using True a least "1.prems" by (auto simp: release_all_used)
    next
      case False
      have "alloc_skip avail skipped p = alloc_skip avail (skipped @ [a]) p'"
        using al Inr False by (simp add: alloc_skip.simps [of avail skipped p])
      moreover have "p' = p0\<lparr>used := used p0 |\<union>| fset_of_list (skipped @ [a])\<rparr>"
        using a(3) "1.prems"(2) by auto
      ultimately show ?thesis
        using "1.IH" [OF al [symmetric] Inr False "1.prems"(1)] a(1) False "1.prems"(3) by simp
    qed
  qed
qed

lemmas alloc_skip_start = alloc_skip_spec [of p p "[]" for p, simplified]

lemma claim_iff:
  "pool_allocate_specific p a = Inr p' \<longleftrightarrow>
     a \<in> claimable p - held p \<and> p' = p\<lparr>used := finsert a (used p)\<rparr>"
  by (auto simp: pool_allocate_specific_def claimable_def held_def)

lemma try_candidates_Some:
  "try_candidates avail cs p = Some (a, p') \<Longrightarrow>
     a \<in> set cs \<and> is_valid a \<and> avail a \<and> a \<in> claimable p - held p \<and>
     p' = p\<lparr>used := finsert a (used p)\<rparr>"
  by (induction cs) (auto simp: claim_iff split: if_splits sum.splits)

lemma try_candidates_complete:
  "a \<in> set cs \<Longrightarrow> is_valid a \<Longrightarrow> avail a \<Longrightarrow> a \<in> claimable p - held p \<Longrightarrow>
     try_candidates avail cs p \<noteq> None"
proof (induction cs)
  case (Cons c cs)
  then show ?case
    using claim_iff [of p a "p\<lparr>used := finsert a (used p)\<rparr>"] by (auto split: sum.splits)
qed simp

text \<open>What an allocation for a client promises, in the form the proofs below use it.\<close>

lemma allocInner_ok:
  assumes "pool_wf p" "allocInner cfg ls c req p = (Inr a, p')"
  shows "leaseAvailableTo cfg ls c a" "a \<in> claimable p - held p"
    "p' = p\<lparr>used := finsert a (used p)\<rparr>" "fmlookup (staticLease cfg) c \<in> {None, Some a}"
  using assms alloc_skip_start [OF assms(1), of "leaseAvailableTo cfg ls c"] dynamic_claimable [of p]
  by (auto simp: allocInner_def claim_iff split: option.splits if_splits sum.splits prod.splits
      dest!: try_candidates_Some)

lemma allocInner_err:
  assumes "pool_wf p" "allocInner cfg ls c req p = (Inl e, p')"
  shows "p' = p"
    and "fmlookup (staticLease cfg) c = None \<Longrightarrow> a \<in> dynamic p - held p \<Longrightarrow>
      \<not> leaseAvailableTo cfg ls c a"
    and "fmlookup (staticLease cfg) c = None \<Longrightarrow> a \<in> {req, lease_of ls c} \<Longrightarrow> is_valid a \<Longrightarrow>
      a \<in> claimable p - held p \<Longrightarrow> \<not> leaseAvailableTo cfg ls c a"
    and "fmlookup (staticLease cfg) c = Some a \<Longrightarrow> a \<in> claimable p - held p \<Longrightarrow>
      \<not> leaseAvailableTo cfg ls c a"
proof -
  note skip = alloc_skip_start [OF assms(1), of "leaseAvailableTo cfg ls c"]
  show "p' = p"
    using assms skip by (auto simp: allocInner_def split: option.splits if_splits sum.splits prod.splits)
  show "\<not> leaseAvailableTo cfg ls c a"
    if "fmlookup (staticLease cfg) c = None" "a \<in> dynamic p - held p"
    using assms skip that
    by (auto simp: allocInner_def split: option.splits sum.splits prod.splits)
  show "\<not> leaseAvailableTo cfg ls c a"
    if "fmlookup (staticLease cfg) c = None" "a \<in> {req, lease_of ls c}" "is_valid a"
      "a \<in> claimable p - held p"
    using assms that
      try_candidates_complete [of a "[req, lease_of ls c]" "leaseAvailableTo cfg ls c" p]
    by (auto simp: allocInner_def split: option.splits)
  show "\<not> leaseAvailableTo cfg ls c a"
    if "fmlookup (staticLease cfg) c = Some a" "a \<in> claimable p - held p"
    using assms that claim_iff [of p a]
    by (auto simp: allocInner_def split: if_splits sum.splits)
qed

lemma leaseAvailableTo_iff:
  "leaseAvailableTo cfg ls c a \<longleftrightarrow>
     (\<forall>o'. fmlookup (staticLease cfg) o' = Some a \<longrightarrow> o' = c) \<and>
     (\<forall>o'. fmlookup ls o' = Some a \<longrightarrow> o' = c)"
  by (auto simp: leaseAvailableTo_def fmpred_iff)

section \<open>The invariant\<close>

text \<open>
  The registry and the index of active clients mirror each other, entries carry the right
  interface name and distinct identities; the pool holds exactly the inner addresses of the
  live sessions; a live session's address is its client's lease, leases are injective, respect
  the static leases of others, and have a time each.
\<close>

definition registry_ok ::
  "mgr_cfg \<Rightarrow> (32 word, entry) fmap \<Rightarrow> (string, 32 word) fmap \<Rightarrow> nat \<Rightarrow> bool" where
  "registry_ok cfg ss ac n \<longleftrightarrow>
     (\<forall>c k. fmlookup ac c = Some k \<longrightarrow> (\<exists>e. fmlookup ss k = Some e \<and> e_client e = c)) \<and>
     (\<forall>k e. fmlookup ss k = Some e \<longrightarrow>
        fmlookup ac (e_client e) = Some k \<and> k \<noteq> 0 \<and> e_id e < n \<and>
        e_ifname e = ifNameFor cfg (e_client e) k) \<and>
     (\<forall>k e k' e'. fmlookup ss k = Some e \<longrightarrow> fmlookup ss k' = Some e' \<longrightarrow> e_id e = e_id e' \<longrightarrow> k = k')"

definition pool_ok :: "pool \<Rightarrow> (32 word, entry) fmap \<Rightarrow> bool" where
  "pool_ok p ss \<longleftrightarrow> pool_wf p \<and> held p = e_inner ` fmran' ss"

definition lease_ok ::
  "mgr_cfg \<Rightarrow> addr set \<Rightarrow> (32 word, entry) fmap \<Rightarrow> (string, addr) fmap \<Rightarrow> bool" where
  "lease_ok cfg claim ss ls \<longleftrightarrow>
     (\<forall>k e. fmlookup ss k = Some e \<longrightarrow> fmlookup ls (e_client e) = Some (e_inner e)) \<and>
     (\<forall>c c' a. fmlookup ls c = Some a \<longrightarrow> fmlookup ls c' = Some a \<longrightarrow> c = c') \<and>
     (\<forall>c c' a. fmlookup ls c = Some a \<longrightarrow> fmlookup (staticLease cfg) c' = Some a \<longrightarrow> c = c') \<and>
     (\<forall>c a s. fmlookup ls c = Some a \<longrightarrow> fmlookup (staticLease cfg) c = Some s \<longrightarrow> a = s) \<and>
     (\<forall>c a. fmlookup ls c = Some a \<longrightarrow> a \<in> claim)"

definition mgr_inv :: "mgr_cfg \<Rightarrow> manager \<Rightarrow> bool" where
  "mgr_inv cfg m \<longleftrightarrow>
     registry_ok cfg (sessions m) (active m) (fresh_id m) \<and>
     pool_ok (mpool m) (sessions m) \<and>
     lease_ok cfg (claimable (mpool m)) (sessions m) (leases m) \<and>
     fmdom (leaseTimes m) = fmdom (leases m)"

lemma registry_okD:
  assumes "registry_ok cfg ss ac n"
  shows "fmlookup ac c = Some k \<Longrightarrow> \<exists>e. fmlookup ss k = Some e \<and> e_client e = c"
    and "fmlookup ss k = Some e \<Longrightarrow> fmlookup ac (e_client e) = Some k"
    and "fmlookup ss k = Some e \<Longrightarrow> k \<noteq> 0"
    and "fmlookup ss k = Some e \<Longrightarrow> e_id e < n"
    and "fmlookup ss k = Some e \<Longrightarrow> e_ifname e = ifNameFor cfg (e_client e) k"
    and "fmlookup ss k = Some e \<Longrightarrow> fmlookup ss k' = Some e' \<Longrightarrow> e_id e = e_id e' \<Longrightarrow> k = k'"
  using assms unfolding registry_ok_def by simp_all

lemma lease_okD:
  assumes "lease_ok cfg claim ss ls"
  shows "fmlookup ss k = Some e \<Longrightarrow> fmlookup ls (e_client e) = Some (e_inner e)"
    and "fmlookup ls c = Some a \<Longrightarrow> fmlookup ls c' = Some a \<Longrightarrow> c = c'"
    and "fmlookup ls c = Some a \<Longrightarrow> fmlookup (staticLease cfg) c' = Some a \<Longrightarrow> c = c'"
    and "fmlookup ls c = Some a \<Longrightarrow> fmlookup (staticLease cfg) c = Some s \<Longrightarrow> a = s"
    and "fmlookup ls c = Some a \<Longrightarrow> a \<in> claim"
  using assms unfolding lease_ok_def by simp_all

lemma mgr_invD:
  assumes "mgr_inv cfg m"
  shows "registry_ok cfg (sessions m) (active m) (fresh_id m)"
    and "pool_wf (mpool m)" and "held (mpool m) = e_inner ` fmran' (sessions m)"
    and "lease_ok cfg (claimable (mpool m)) (sessions m) (leases m)"
    and "fmdom (leaseTimes m) = fmdom (leases m)"
  using assms by (simp_all add: mgr_inv_def pool_ok_def)

lemmas mgr_registry = mgr_invD(1) [THEN registry_okD(1)] mgr_invD(1) [THEN registry_okD(2)]
  mgr_invD(1) [THEN registry_okD(3)] mgr_invD(1) [THEN registry_okD(4)]
  mgr_invD(1) [THEN registry_okD(5)] mgr_invD(1) [THEN registry_okD(6)]

lemmas mgr_lease = mgr_invD(4) [THEN lease_okD(1)] mgr_invD(4) [THEN lease_okD(2)]
  mgr_invD(4) [THEN lease_okD(3)] mgr_invD(4) [THEN lease_okD(4)] mgr_invD(4) [THEN lease_okD(5)]

lemma inner_unique:
  assumes "mgr_inv cfg m" "fmlookup (sessions m) k = Some e" "fmlookup (sessions m) k' = Some e'"
    "e_inner e = e_inner e'"
  shows "k = k'"
proof -
  have "e_client e = e_client e'"
    using mgr_lease(1) [OF assms(1)] mgr_lease(2) [OF assms(1)] assms(2-4) by metis
  then show ?thesis using mgr_registry(2) [OF assms(1)] assms(2,3) by (metis option.inject)
qed

section \<open>Removing and adding a session\<close>

lemma registry_drop:
  assumes R: "registry_ok cfg ss ac n" and k: "fmlookup ss k = Some e"
  shows "registry_ok cfg (fmdrop k ss) (fmdrop (e_client e) ac) n"
proof -
  have uniq: "e_client e' \<noteq> e_client e" if "fmlookup ss k' = Some e'" "k' \<noteq> k" for k' e'
    using registry_okD(2) [OF R] that k by (metis option.inject)
  have other: "\<exists>e'. k' \<noteq> k \<and> fmlookup ss k' = Some e' \<and> e_client e' = c"
    if "fmlookup ac c = Some k'" "c \<noteq> e_client e" for c k'
    using registry_okD(1) [OF R that(1)] that k by auto
  show ?thesis
    unfolding registry_ok_def
    using uniq other registry_okD(2-6) [OF R] by simp
qed

lemma lease_drop: "lease_ok cfg cl ss ls \<Longrightarrow> lease_ok cfg cl (fmdrop k ss) ls"
  by (simp add: lease_ok_def)

lemma fmran'_drop: "fmlookup ss k = Some e \<Longrightarrow> fmran' ss = insert e (fmran' (fmdrop k ss))"
proof (intro equalityI subsetI)
  fix x
  assume "fmlookup ss k = Some e" "x \<in> fmran' ss"
  then obtain k' where "fmlookup ss k' = Some x" and "fmlookup ss k = Some e"
    by (auto simp: fmlookup_ran'_iff)
  then show "x \<in> insert e (fmran' (fmdrop k ss))"
    using fmran'I [of "fmdrop k ss" k' x] by (cases "k' = k") simp_all
qed (auto simp: fmlookup_ran'_iff split: if_splits)

lemma pool_drop:
  assumes "mgr_inv cfg m" "fmlookup (sessions m) k = Some e"
  shows "pool_ok (pool_release (mpool m) (e_inner e)) (fmdrop k (sessions m))"
proof -
  have "e_inner e' \<noteq> e_inner e" if "e' \<in> fmran' (fmdrop k (sessions m))" for e'
  proof -
    from that obtain k' where "fmlookup (sessions m) k' = Some e'" "k' \<noteq> k"
      by (auto simp: fmlookup_ran'_iff split: if_splits)
    then show ?thesis using inner_unique [OF assms(1) _ assms(2)] by blast
  qed
  then have "e_inner ` fmran' (fmdrop k (sessions m)) = held (mpool m) - {e_inner e}"
    unfolding mgr_invD(3) [OF assms(1)] fmran'_drop [OF assms(2)] by auto
  then show ?thesis
    using ap.release_ok [OF mgr_invD(2) [OF assms(1)]] by (simp add: pool_ok_def)
qed

lemma claimable_release [simp]: "claimable (pool_release p a) = claimable p"
  by (simp add: pool_release_def)

text \<open>A session taken out with its address, its lease kept.\<close>

lemma drop_session_inv:
  assumes "mgr_inv cfg m" "fmlookup (sessions m) k = Some e"
  shows "mgr_inv cfg (m\<lparr>sessions := fmdrop k (sessions m), active := fmdrop (e_client e) (active m),
    mpool := pool_release (mpool m) (e_inner e)\<rparr>)"
  using registry_drop [OF mgr_invD(1) [OF assms(1)] assms(2)] pool_drop [OF assms]
    lease_drop [OF mgr_invD(4) [OF assms(1)]] mgr_invD(5) [OF assms(1)]
  by (simp add: mgr_inv_def)

section \<open>Every locked section keeps the invariant\<close>

lemma purge_inv:
  assumes "mgr_inv cfg m"
  shows "mgr_inv cfg (purgeExpiredLeases cfg now m)"
proof (cases "leaseTTL cfg \<le> 0")
  case False
  let ?keep = "\<lambda>c. \<not> lease_expired cfg now m c"
  have keep: "?keep (e_client e)" if "fmlookup (sessions m) k = Some e" for k e
    using mgr_registry(2) [OF assms that] by (auto simp: lease_expired_def split: option.splits)
  have "fmdom (fmfilter ?keep (leaseTimes m)) = fmdom (fmfilter ?keep (leases m))"
    using mgr_invD(5) [OF assms] by simp
  moreover have "lease_ok cfg (claimable (mpool m)) (sessions m) (fmfilter ?keep (leases m))"
    unfolding lease_ok_def using mgr_lease [OF assms] keep by simp
  ultimately show ?thesis
    using False assms by (simp add: mgr_inv_def purgeExpiredLeases_def)
qed (use assms in \<open>simp add: purgeExpiredLeases_def\<close>)

lemma evict_cases:
  assumes "mgr_inv cfg m"
  obtains (none) "fmlookup (active m) c = None" "evict c m = (None, m)"
  | (some) k e where "fmlookup (active m) c = Some k" "fmlookup (sessions m) k = Some e"
      "e_client e = c" "evict c m = (Some e, m\<lparr>sessions := fmdrop k (sessions m),
        active := fmdrop (e_client e) (active m), mpool := pool_release (mpool m) (e_inner e)\<rparr>)"
proof (cases "fmlookup (active m) c")
  case None
  then show thesis using none by (simp add: evict_def)
next
  case (Some k)
  with mgr_registry(1) [OF assms] obtain e where "fmlookup (sessions m) k = Some e" "e_client e = c" by blast
  then show thesis using some [OF Some] Some by (simp add: evict_def)
qed

lemma evict_inv:
  assumes "mgr_inv cfg m"
  shows "mgr_inv cfg (snd (evict c m))" and "fmlookup (active (snd (evict c m))) c = None"
    and "leases (snd (evict c m)) = leases m" and "fresh_id (snd (evict c m)) = fresh_id m"
proof -
  have "mgr_inv cfg (snd (evict c m)) \<and> fmlookup (active (snd (evict c m))) c = None \<and>
    leases (snd (evict c m)) = leases m \<and> fresh_id (snd (evict c m)) = fresh_id m"
    using assms
  proof (cases rule: evict_cases [of cfg m c])
    case (some k e)
    then show ?thesis using drop_session_inv [OF assms some(2)] by simp
  qed (use assms in simp)
  then show "mgr_inv cfg (snd (evict c m))" "fmlookup (active (snd (evict c m))) c = None"
    "leases (snd (evict c m)) = leases m" "fresh_id (snd (evict c m)) = fresh_id m" by auto
qed

lemma registry_add:
  assumes R: "registry_ok cfg ss ac n"
    and free: "fmlookup ac (e_client e) = None" "fmlookup ss k = None" "k \<noteq> 0"
    and e: "e_id e = n" "e_ifname e = ifNameFor cfg (e_client e) k"
  shows "registry_ok cfg (fmupd k e ss) (fmupd (e_client e) k ac) (n + 1)"
proof -
  have "e_client e' \<noteq> e_client e" if "fmlookup ss k' = Some e'" for k' e'
    using registry_okD(2) [OF R that] free by auto
  moreover have "e_id e' \<noteq> n" "e_id e' < n + 1" if "fmlookup ss k' = Some e'" for k' e'
    using registry_okD(4) [OF R that] by auto
  moreover have "\<exists>e'. k' \<noteq> k \<and> fmlookup ss k' = Some e' \<and> e_client e' = c"
    if "fmlookup ac c = Some k'" for c k'
    using registry_okD(1) [OF R that] free by auto
  moreover note registry_okD(2,3,5,6) [OF R]
  moreover have "n \<noteq> e_id e'" if "fmlookup ss k' = Some e'" for k' e'
    using registry_okD(4) [OF R that] by auto
  moreover have "fmlookup ac c \<noteq> Some k" for c
    using registry_okD(1) [OF R, of c k] free by auto
  ultimately show ?thesis
    unfolding registry_ok_def using free e by (intro conjI allI impI) (auto split: if_splits)
qed

lemma lease_add:
  assumes L: "lease_ok cfg cl ss ls" and k: "fmlookup ss k = None"
    and new: "\<And>k' e'. fmlookup ss k' = Some e' \<Longrightarrow> e_client e' \<noteq> e_client e"
    and av: "leaseAvailableTo cfg ls (e_client e) (e_inner e)"
    and st: "fmlookup (staticLease cfg) (e_client e) \<in> {None, Some (e_inner e)}"
    and cl: "e_inner e \<in> cl"
  shows "lease_ok cfg cl (fmupd k e ss) (fmupd (e_client e) (e_inner e) ls)"
proof -
  have "c = e_client e" if "fmlookup ls c = Some (e_inner e) \<or> fmlookup (staticLease cfg) c = Some (e_inner e)" for c
    using that av by (auto simp: leaseAvailableTo_iff)
  moreover have "e_client e \<noteq> e_client e'" if "fmlookup ss k' = Some e'" for k' e'
    using new [OF that] by simp
  ultimately show ?thesis
    unfolding lease_ok_def using lease_okD [OF L] st cl by auto
qed

lemma pool_add:
  assumes "pool_ok p ss" "fmlookup ss k = None" "e_inner e \<in> claimable p"
  shows "pool_ok (p\<lparr>used := finsert (e_inner e) (used p)\<rparr>) (fmupd k e ss)"
proof -
  have "fmdrop k (fmupd k e ss) = ss" using assms(2) by (intro fmap_ext) auto
  then have "fmran' (fmupd k e ss) = insert e (fmran' ss)"
    using fmran'_drop [of "fmupd k e ss" k e] by simp
  then show ?thesis
    using assms held_claimable [of p] unfolding pool_ok_def
    by (auto simp: held_def intro!: pool_wf_update)
qed

lemma register_inv:
  assumes I: "mgr_inv cfg m" and free: "fmlookup (active m) (sp_client p) = None"
      "fmlookup (sessions m) k = None" "k \<noteq> 0"
    and al: "allocInner cfg (leases m) (sp_client p) req (mpool m) = (Inr (e_inner e), pl)"
    and e: "e_id e = fresh_id m" "e_ifname e = ifNameFor cfg (e_client e) k" "e_client e = sp_client p"
  shows "mgr_inv cfg (register p k e (m\<lparr>mpool := pl\<rparr>))"
proof -
  note a = allocInner_ok [OF mgr_invD(2) [OF I] al]
  have new: "e_client e' \<noteq> e_client e" if "fmlookup (sessions m) k' = Some e'" for k' e'
    using mgr_registry(2) [OF I that] free e by auto
  have "lease_ok cfg (claimable (mpool m)) (fmupd k e (sessions m))
      (fmupd (e_client e) (e_inner e) (leases m))"
    using a e by (intro lease_add [OF mgr_invD(4) [OF I] free(2) new]) auto
  moreover have "pool_ok pl (fmupd k e (sessions m))"
    using I a by (auto simp: mgr_inv_def intro!: pool_add free)
  moreover have "registry_ok cfg (fmupd k e (sessions m)) (fmupd (e_client e) k (active m)) (fresh_id m + 1)"
    using registry_add [OF mgr_invD(1) [OF I], of e k] free e by simp
  ultimately show ?thesis
    using a(3) e mgr_invD(5) [OF I] by (simp add: mgr_inv_def register_def)
qed

lemma randomKey_ok: "randomKey ss ds = Some (Inr k) \<Longrightarrow> k \<noteq> 0 \<and> fmlookup ss k = None"
  by (induction ss ds rule: randomKey.induct) (auto simp: Let_def split: if_splits)

lemma randomKey_err: "randomKey ss ds = Some (Inl err) \<Longrightarrow> err = KeyFailed"
  by (induction ss ds rule: randomKey.induct) (auto simp: Let_def split: if_splits)

text \<open>
  The locked section of \<^verbatim>\<open>Establish\<close> in the three ways it can end. \<open>m2\<close> is the state after
  the purge and the eviction.
\<close>

lemma establish_locked_cases:
  assumes I: "mgr_inv cfg m" and est: "establish_locked cfg env p mtu m = Some (r, m')"
  obtains (noaddr) err m2 where "r = Inl (ResultNoAddresses, err)" "m' = m2" "mgr_inv cfg m2"
      "m2 = snd (evict (sp_client p) (purgeExpiredLeases cfg (now_purge env) m))"
      "allocInner cfg (leases m2) (sp_client p) (sp_requested p) (mpool m2) = (Inl err, mpool m2)"
  | (nokey) m2 where "r = Inl (ResultInternal, KeyFailed)" "m' = m2" "mgr_inv cfg m2"
      "m2 = snd (evict (sp_client p) (purgeExpiredLeases cfg (now_purge env) m))"
  | (ok) k e m2 pl where
      "r = Inr (k, e, fst (evict (sp_client p) (purgeExpiredLeases cfg (now_purge env) m)))"
      "m2 = snd (evict (sp_client p) (purgeExpiredLeases cfg (now_purge env) m))" "mgr_inv cfg m2"
      "m' = register p k e (m2\<lparr>mpool := pl\<rparr>)" "mgr_inv cfg m'"
      "fmlookup (sessions m2) k = None" "k \<noteq> 0"
      "allocInner cfg (leases m2) (sp_client p) (sp_requested p) (mpool m2) = (Inr (e_inner e), pl)"
      "e = \<lparr>e_client = sp_client p, e_ifname = ifNameFor cfg (sp_client p) k, e_inner = e_inner e,
         e_outer = sp_outer p, e_grekey = (if useGREKey cfg then k else 0), e_mtu = mtu,
         e_since = now_since env, e_id = fresh_id m2\<rparr>"
proof -
  obtain ev m2 where ev: "evict (sp_client p) (purgeExpiredLeases cfg (now_purge env) m) = (ev, m2)"
    by (metis surj_pair)
  note i2 = evict_inv [OF purge_inv [OF I, of "now_purge env"], where c = "sp_client p", unfolded ev snd_conv]
  obtain al pl where al: "allocInner cfg (leases m2) (sp_client p) (sp_requested p) (mpool m2) = (al, pl)"
    by (metis surj_pair)
  show thesis
  proof (cases al)
    case (Inl err)
    with al have "pl = mpool m2" using allocInner_err(1) [OF mgr_invD(2) [OF i2(1)]] by blast
    moreover from this have "r = Inl (ResultNoAddresses, err)" "m' = m2"
      using Inl est ev al by (auto simp: establish_locked_def)
    ultimately show thesis
      by (intro noaddr [of err m2] i2(1)) (simp_all only: ev al Inl snd_conv)
  next
    case (Inr a)
    note a = allocInner_ok [OF mgr_invD(2) [OF i2(1)] al [unfolded Inr]]
    have restore: "pool_release pl a = mpool m2"
      using a(2,3) by (auto simp: pool_release_def held_def)
    show thesis
    proof (cases "randomKey (sessions m2) (draws env)")
      case None
      with est ev al Inr show thesis by (simp add: establish_locked_def)
    next
      case (Some kr)
      show thesis
      proof (cases kr)
        case (Inl err)
        then have "err = KeyFailed" using Some randomKey_err by blast
        then have "r = Inl (ResultInternal, KeyFailed)" "m' = m2"
          using Some Inl est ev al Inr restore by (auto simp: establish_locked_def)
        then show thesis by (intro nokey [of m2] i2(1)) (simp_all only: ev snd_conv)
      next
        case key: (Inr k)
        let ?e = "\<lparr>e_client = sp_client p, e_ifname = ifNameFor cfg (sp_client p) k, e_inner = a,
          e_outer = sp_outer p, e_grekey = (if useGREKey cfg then k else 0), e_mtu = mtu,
          e_since = now_since env, e_id = fresh_id m2\<rparr>"
        have k: "fmlookup (sessions m2) k = None" "k \<noteq> 0"
          using randomKey_ok [of "sessions m2" "draws env" k] Some key by auto
        have m': "m' = register p k ?e (m2\<lparr>mpool := pl\<rparr>)" "r = Inr (k, ?e, ev)"
          using Some key est ev al Inr by (simp_all add: establish_locked_def Let_def)
        have "mgr_inv cfg m'"
          unfolding m' using al Inr k i2(2)
          by (intro register_inv [OF i2(1), where req = "sp_requested p"]) auto
        then show thesis
          by (intro ok [of k ?e m2 pl] k i2(1) m'(1)) (simp_all add: m'(2) ev al Inr)
      qed
    qed
  qed
qed

lemma establish_locked_inv:
  "mgr_inv cfg m \<Longrightarrow> establish_locked cfg env p mtu m = Some (r, m') \<Longrightarrow> mgr_inv cfg m'"
  by (erule (1) establish_locked_cases) simp_all

lemma rollback_inv:
  assumes I: "mgr_inv cfg m" and c: "c = e_client e"
    and same: "\<And>e'. fmlookup (sessions m) k = Some e' \<Longrightarrow> e_id e' = e_id e \<Longrightarrow> e' = e"
  shows "mgr_inv cfg (rollback c k e m)"
proof (cases "map_option e_id (fmlookup (sessions m) k) = Some (e_id e)")
  case True
  then have k: "fmlookup (sessions m) k = Some e" using same by auto
  have "e_client e' \<noteq> c" if "fmlookup (sessions m) k' = Some e'" "k' \<noteq> k" for k' e'
    using mgr_registry(2) [OF I] that k c by (metis option.inject)
  then have "lease_ok cfg (claimable (mpool m)) (fmdrop k (sessions m)) (fmdrop c (leases m))"
    unfolding lease_ok_def using mgr_lease [OF I] by auto
  then show ?thesis
    using True drop_session_inv [OF I k] mgr_registry(2) [OF I k] mgr_invD(5) [OF I]
    by (simp add: rollback_def c mgr_inv_def)
next
  case False
  then show ?thesis using I unfolding rollback_def by (simp only: if_False)
qed

lemma teardown_inv:
  assumes I: "mgr_inv cfg m"
  shows "mgr_inv cfg (snd (teardown_locked k now m))"
proof (cases "fmlookup (sessions m) k")
  case (Some e)
  have "e_client e |\<in>| fmdom (leases m)" using mgr_lease(1) [OF I Some] by (rule fmdomI)
  then show ?thesis
    using drop_session_inv [OF I Some] mgr_registry(2) [OF I Some] mgr_invD(5) [OF I] Some
    by (auto simp: teardown_locked_def mgr_inv_def)
qed (use I in \<open>simp add: teardown_locked_def\<close>)

section \<open>Whole calls\<close>

text \<open>
  The ways a whole \<^verbatim>\<open>Establish\<close> can end: refused before the registry is touched, refused by
  the locked section, or registered and then provisioned or rolled back.
\<close>

lemma Establish_cases:
  assumes "Establish cfg env p m = Some (res, m', evs)"
  obtains (refused) code err where "res = Inl (code, err)" "m' = m" "evs = []"
      "code \<in> {ResultInternal, ResultUnsupported}" "err = MissingOuter \<or> (\<exists>a b. err = FamilyMismatch a b)"
  | (locked) code err where "res = Inl (code, err)" "evs = []"
      "establish_locked cfg env p (est_mtu cfg env p) m = Some (Inl (code, err), m')"
  | (run) k e ev m1 evs1 where
      "establish_locked cfg env p (est_mtu cfg env p) m = Some (Inr (k, e, ev), m1)"
      "provision cfg env k e m1 = (res, m', evs1)"
      "evs = (case ev of None \<Rightarrow> [] | Some old \<Rightarrow> removeAndNotify cfg (monitors m1) old) @ evs1"
  using assms
  by (auto simp: Establish_def Let_def split: if_splits option.splits sum.splits prod.splits)

lemma provision_cases:
  assumes "provision cfg env k e m1 = (res, m', evs)"
  obtains (failed) err where "res = Inl (ResultInternal, err)" "m' = rollback (e_client e) k e m1"
      "(\<exists>s. err = EnsureFailed s) \<or> (\<exists>s. err = ClampFailed s)"
  | (provisioned) "res = Inr (grant_of cfg k e)" "m' = start_monitor cfg e m1"
  using assms by (auto simp: provision_def Let_def split: option.splits)

lemma start_monitor_fields [simp]:
  "sessions (start_monitor cfg e m) = sessions m" "active (start_monitor cfg e m) = active m"
  "leases (start_monitor cfg e m) = leases m" "leaseTimes (start_monitor cfg e m) = leaseTimes m"
  "mpool (start_monitor cfg e m) = mpool m" "fresh_id (start_monitor cfg e m) = fresh_id m"
  by (simp_all add: start_monitor_def)

lemma start_monitor_inv [simp]: "mgr_inv cfg (start_monitor cfg' e m) \<longleftrightarrow> mgr_inv cfg m"
  by (simp add: mgr_inv_def)

lemma register_lookup [simp]:
  "fmlookup (sessions (register p k e m)) k = Some e"
  "fmlookup (active (register p k e m)) (sp_client p) = Some k"
  "fmlookup (leases (register p k e m)) (sp_client p) = Some (e_inner e)"
  by (simp_all add: register_def)

lemma Establish_inv:
  assumes I: "mgr_inv cfg m" and est: "Establish cfg env p m = Some (res, m', evs)"
  shows "mgr_inv cfg m'"
  using est
proof (cases rule: Establish_cases)
  case (locked code err)
  then show ?thesis using establish_locked_inv [OF I] by blast
next
  case (run k e ev m1 evs1)
  have I1: "mgr_inv cfg m1" using establish_locked_inv [OF I run(1)] .
  have "fmlookup (sessions m1) k = Some e"
    using I run(1) by (rule establish_locked_cases) auto
  then have "mgr_inv cfg (rollback (e_client e) k e m1)"
    using I1 by (intro rollback_inv) auto
  with run(2) I1 show ?thesis by (cases rule: provision_cases) auto
qed (use I in simp)

lemma Teardown_inv: "mgr_inv cfg m \<Longrightarrow> mgr_inv cfg (fst (Teardown_session cfg g now m))"
  using teardown_inv [of cfg m "g_key g" now] by (auto simp: Teardown_session_def split: prod.splits option.splits)

text \<open>After the eviction nobody but other clients holds anything, and nobody holds what is leased to the client.\<close>

lemma not_held_after_evict:
  assumes I: "mgr_inv cfg m2" and c: "fmlookup (active m2) c = None"
    and a: "\<And>c'. fmlookup (leases m2) c' = Some a \<Longrightarrow> c' = c"
  shows "a \<notin> held (mpool m2)"
proof
  assume "a \<in> held (mpool m2)"
  then obtain k e where e: "fmlookup (sessions m2) k = Some e" "a = e_inner e"
    unfolding mgr_invD(3) [OF I] by (auto simp: fmlookup_ran'_iff)
  with a [of "e_client e"] mgr_lease(1) [OF I e(1)] mgr_registry(2) [OF I e(1)] c show False by simp
qed

lemma claimable_evict: "claimable (mpool (snd (evict c m))) = claimable (mpool m)"
  by (auto simp: evict_def Let_def split: option.splits)

lemma purge_fields [simp]:
  "mpool (purgeExpiredLeases cfg now m) = mpool m" "sessions (purgeExpiredLeases cfg now m) = sessions m"
  "active (purgeExpiredLeases cfg now m) = active m" "fresh_id (purgeExpiredLeases cfg now m) = fresh_id m"
  "monitors (purgeExpiredLeases cfg now m) = monitors m"
  by (simp_all add: purgeExpiredLeases_def)

text \<open>The leases that count at the time of a call: those the purge keeps.\<close>

definition live_leases :: "mgr_cfg \<Rightarrow> int \<Rightarrow> manager \<Rightarrow> (string, addr) fmap" where
  "live_leases cfg now m =
     (if leaseTTL cfg \<le> 0 then leases m else fmfilter (\<lambda>c. \<not> lease_expired cfg now m c) (leases m))"

lemma leases_purge: "leases (purgeExpiredLeases cfg now m) = live_leases cfg now m"
  by (simp add: purgeExpiredLeases_def live_leases_def)

end
