(* ===== verification/Session_Props.thy ===== *)
theory Session_Props
  imports Session_Inv
begin

text \<open>
  What the session manager promises its callers: who gets which address, when a session is
  refused, what a stale teardown may touch, the negotiated MTU, and that the interfaces of the
  data-plane are those of the live sessions.
\<close>

section \<open>Addresses\<close>

lemma establish_locked_entry:
  assumes "mgr_inv cfg m" "establish_locked cfg env p mtu m = Some (Inr (k, e, ev), m1)"
  shows "fmlookup (sessions m1) k = Some e" "e_client e = sp_client p"
    "e_mtu e = mtu" "e_ifname e = ifNameFor cfg (sp_client p) k"
proof -
  have "fmlookup (sessions m1) k = Some e \<and> e_client e = sp_client p \<and> e_mtu e = mtu \<and>
      e_ifname e = ifNameFor cfg (sp_client p) k"
    using assms
  proof (cases rule: establish_locked_cases)
    case (ok k' e' m2 pl)
    from ok(9) have "e_client e' = sp_client p" "e_mtu e' = mtu" "e_ifname e' = ifNameFor cfg (sp_client p) k'"
      by (metis entry.select_convs)+
    with ok(1,4) show ?thesis by simp
  qed simp_all
  then show "fmlookup (sessions m1) k = Some e" "e_client e = sp_client p"
    "e_mtu e = mtu" "e_ifname e = ifNameFor cfg (sp_client p) k" by auto
qed

text \<open>The locked section, seen from its allocation: the leases and the pool it is made from.\<close>

lemma establish_alloc:
  assumes I: "mgr_inv cfg m" and est: "Establish cfg env p m = Some (res, m', evs)"
  obtains (early) code err where "res = Inl (code, err)" "code \<noteq> ResultNoAddresses"
  | (alloc) m2 r pl where "mgr_inv cfg m2" "fmlookup (active m2) (sp_client p) = None"
      "leases m2 = live_leases cfg (now_purge env) m"
      "claimable (mpool m2) = claimable (mpool m)" "dynamic (mpool m2) = dynamic (mpool m)"
      "held (mpool m2) \<subseteq> held (mpool m)"
      "allocInner cfg (leases m2) (sp_client p) (sp_requested p) (mpool m2) = (r, pl)"
      "case res of Inl (code, err) \<Rightarrow> code = ResultNoAddresses \<longrightarrow> r = Inl err \<and> m' = m2
         | Inr g \<Rightarrow> r = Inr (g_client_inner g)"
proof -
  let ?m2 = "snd (evict (sp_client p) (purgeExpiredLeases cfg (now_purge env) m))"
  note i2 = evict_inv [OF purge_inv [OF I], of "sp_client p" "now_purge env"]
  have pool: "claimable (mpool ?m2) = claimable (mpool m)" "dynamic (mpool ?m2) = dynamic (mpool m)"
    "held (mpool ?m2) \<subseteq> held (mpool m)"
    by (auto simp: evict_def Let_def pool_release_def held_def split: option.splits)
  note alloc2 = alloc [OF i2(1,2) i2(3) [unfolded leases_purge] pool]
  from est show thesis
  proof (cases rule: Establish_cases)
    case (refused code err)
    then show thesis
      by (intro early) (auto simp: ResultNoAddresses_def ResultInternal_def ResultUnsupported_def)
  next
    case (locked code err)
    from I locked(3) show thesis
    proof (cases rule: establish_locked_cases)
      case (noaddr err' m2)
      then show thesis using alloc2 [of "Inl err'"] locked by simp
    next
      case (nokey m2)
      with locked show thesis
        by (intro early) (auto simp: ResultNoAddresses_def ResultInternal_def)
    qed simp
  next
    case (run k e ev m1 evs1)
    from I run(1) show thesis
    proof (cases rule: establish_locked_cases)
      case (ok k' e' m2 pl)
      with run(2) show thesis
        using alloc2 [of "Inr (e_inner e)" pl]
        by (cases rule: provision_cases)
          (auto simp: grant_of_def ResultNoAddresses_def ResultInternal_def)
    qed simp_all
  qed
qed

text \<open>A client that holds a lease and no session finds at least that address free.\<close>

lemma alloc_with_lease:
  assumes I: "mgr_inv cfg m2" and c: "fmlookup (active m2) c = None"
    and l: "fmlookup (leases m2) c = Some a"
  shows "a \<in> claimable (mpool m2) - held (mpool m2)" and "leaseAvailableTo cfg (leases m2) c a"
    and "is_valid a" and "lease_of (leases m2) c = a"
    and "allocInner cfg (leases m2) c req (mpool m2) = (r, pl) \<Longrightarrow> \<exists>b. r = Inr b"
proof -
  show free: "a \<in> claimable (mpool m2) - held (mpool m2)"
    using not_held_after_evict [OF I c] mgr_lease(2) [OF I l] mgr_lease(5) [OF I l] by blast
  show avail: "leaseAvailableTo cfg (leases m2) c a"
    using mgr_lease(2,3) [OF I l] by (auto simp: leaseAvailableTo_iff)
  show valid: "is_valid a" using free contains_valid by (auto simp: claimable_def)
  show cand: "lease_of (leases m2) c = a" using l by (simp add: lease_of_def)
  note wf = mgr_invD(2) [OF I]
  show "\<exists>b. r = Inr b" if al: "allocInner cfg (leases m2) c req (mpool m2) = (r, pl)"
  proof (cases r)
    case (Inl err)
    note al' = al [unfolded Inl]
    show ?thesis
    proof (cases "fmlookup (staticLease cfg) c")
      case None
      from allocInner_err(3) [OF wf al' None _ valid free] cand avail show ?thesis by simp
    next
      case (Some s)
      with mgr_lease(4) [OF I l Some] have "fmlookup (staticLease cfg) c = Some a" by simp
      from allocInner_err(4) [OF wf al' this free] avail show ?thesis by simp
    qed
  qed simp
qed

text \<open>
  C2. A client with a static lease always gets it: in every state the manager can be in, its
  \<^verbatim>\<open>Establish\<close> never reports that no address is available, and a granted session carries the
  configured address. (The configuration gives the address to no other client and the pool
  may hand it out.)
\<close>

theorem static_lease_always:
  assumes I: "mgr_inv cfg m"
    and static: "fmlookup (staticLease cfg) (sp_client p) = Some a"
    and only: "\<And>c'. fmlookup (staticLease cfg) c' = Some a \<Longrightarrow> c' = sp_client p"
    and pool: "a \<in> claimable (mpool m)"
    and est: "Establish cfg env p m = Some (res, m', evs)"
  shows "(\<forall>err. res \<noteq> Inl (ResultNoAddresses, err)) \<and> (\<forall>g. res = Inr g \<longrightarrow> g_client_inner g = a)"
  using I est
proof (cases rule: establish_alloc)
  case (alloc m2 r pl)
  have lease: "c' = sp_client p" if "fmlookup (leases m2) c' = Some a" for c'
    using mgr_lease(3) [OF alloc(1) that static] .
  have free: "a \<in> claimable (mpool m2) - held (mpool m2)"
    using not_held_after_evict [OF alloc(1,2)] lease alloc(4) pool by blast
  have avail: "leaseAvailableTo cfg (leases m2) (sp_client p) a"
    using only lease by (simp add: leaseAvailableTo_iff)
  have wf: "pool_wf (mpool m2)" using mgr_invD(2) [OF alloc(1)] .
  have "r = Inr a"
  proof (cases r)
    case (Inl err)
    from allocInner_err(4) [OF wf alloc(7) [unfolded Inl] static free] avail show ?thesis by simp
  next
    case (Inr b)
    from allocInner_ok(4) [OF wf alloc(7) [unfolded Inr]] static Inr show ?thesis by simp
  qed
  with alloc(8) show ?thesis by auto
qed auto

text \<open>
  C9. Leases are sticky: a client without a static lease that reconnects, with its old session
  still registered or within the lease time after its end, is never refused for lack of an
  address, whatever else it requests; and if it requests nothing, or its old address, it gets
  its old address back.
\<close>

theorem sticky_lease:
  assumes I: "mgr_inv cfg m"
    and dyn: "fmlookup (staticLease cfg) (sp_client p) = None"
    and lease: "fmlookup (live_leases cfg (now_purge env) m) (sp_client p) = Some a"
    and est: "Establish cfg env p m = Some (res, m', evs)"
  shows "(\<forall>err. res \<noteq> Inl (ResultNoAddresses, err)) \<and>
    (\<forall>g. res = Inr g \<longrightarrow> sp_requested p \<in> {AddrZero, a} \<longrightarrow> g_client_inner g = a)"
  using I est
proof (cases rule: establish_alloc)
  case (alloc m2 r pl)
  have l2: "fmlookup (leases m2) (sp_client p) = Some a" using lease alloc(3) by simp
  note free = alloc_with_lease(1) [OF alloc(1,2) l2] and avail = alloc_with_lease(2) [OF alloc(1,2) l2]
    and valid = alloc_with_lease(3) [OF alloc(1,2) l2] and cand = alloc_with_lease(4) [OF alloc(1,2) l2]
  have "\<exists>b. r = Inr b" using alloc_with_lease(5) [OF alloc(1,2) l2 alloc(7)] .
  moreover have "r = Inr a" if "sp_requested p \<in> {AddrZero, a}"
  proof -
    let ?first = "try_candidates (leaseAvailableTo cfg (leases m2) (sp_client p)) [sp_requested p, a] (mpool m2)"
    obtain b q where b: "?first = Some (b, q)"
      using try_candidates_complete [of a "[sp_requested p, a]"
          "leaseAvailableTo cfg (leases m2) (sp_client p)" "mpool m2"] valid avail free
      by (cases ?first) (auto simp del: try_candidates.simps)
    from try_candidates_Some [OF b] that have "b = a" by auto
    with b show ?thesis using alloc(7) dyn cand by (simp add: allocInner_def del: try_candidates.simps)
  qed
  ultimately show ?thesis using alloc(8) by auto
qed auto

text \<open>
  C3. A granted address belongs to nobody else: it lies in the pool, is not reserved, is no
  other client's static lease, no other client's unexpired lease and no other session's
  address.
\<close>

theorem grant_exclusive:
  assumes I: "mgr_inv cfg m" and est: "Establish cfg env p m = Some (Inr g, m', evs)"
  shows "g_client_inner g \<in> claimable (mpool m) \<and>
    (\<forall>c'. fmlookup (staticLease cfg) c' = Some (g_client_inner g) \<longrightarrow> c' = sp_client p) \<and>
    (\<forall>c'. fmlookup (live_leases cfg (now_purge env) m) c' = Some (g_client_inner g) \<longrightarrow> c' = sp_client p) \<and>
    (\<forall>k e. fmlookup (sessions m') k = Some e \<longrightarrow> e_inner e = g_client_inner g \<longrightarrow>
      k = g_key g \<and> e_client e = sp_client p)"
proof (intro conjI allI impI)
  from I est obtain m2 pl where al: "mgr_inv cfg m2" "leases m2 = live_leases cfg (now_purge env) m"
    "claimable (mpool m2) = claimable (mpool m)"
    "allocInner cfg (leases m2) (sp_client p) (sp_requested p) (mpool m2) = (Inr (g_client_inner g), pl)"
    by (cases rule: establish_alloc) auto
  note a = allocInner_ok [OF mgr_invD(2) [OF al(1)] al(4)]
  show "g_client_inner g \<in> claimable (mpool m)" using a(2) al(3) by simp
  show "c' = sp_client p" if "fmlookup (staticLease cfg) c' = Some (g_client_inner g)" for c'
    using that a(1) by (auto simp: leaseAvailableTo_iff)
  show "c' = sp_client p"
    if "fmlookup (live_leases cfg (now_purge env) m) c' = Some (g_client_inner g)" for c'
    using that a(1) al(2) by (auto simp: leaseAvailableTo_iff)
  from est obtain e' where reg: "fmlookup (sessions m') (g_key g) = Some e'"
    "e_inner e' = g_client_inner g" "e_client e' = sp_client p"
  proof (cases rule: Establish_cases)
    case (run k e ev m1 evs1)
    note establish_locked_entry [OF I run(1)]
    with run(2) that show ?thesis by (cases rule: provision_cases) (auto simp: grant_of_def)
  qed simp_all
  show "k = g_key g" "e_client e = sp_client p"
    if "fmlookup (sessions m') k = Some e" "e_inner e = g_client_inner g" for k e
    using inner_unique [OF Establish_inv [OF I est] that(1) reg(1)] that reg by auto
qed

text \<open>
  A client without a static lease is refused for lack of addresses only when there is
  none: every address the pool hands out dynamically is held by a session of another client, or
  is another client's static or unexpired lease. The refusal leaves the registry and the pool
  with nothing but the client's own old session removed.
\<close>

theorem exhaustion_complete:
  assumes I: "mgr_inv cfg m" and dyn: "fmlookup (staticLease cfg) (sp_client p) = None"
    and est: "Establish cfg env p m = Some (Inl (ResultNoAddresses, err), m', evs)"
    and a: "a \<in> dynamic (mpool m)"
  shows "(\<exists>k e. fmlookup (sessions m') k = Some e \<and> e_inner e = a \<and> e_client e \<noteq> sp_client p) \<or>
    (\<exists>c'. c' \<noteq> sp_client p \<and> (fmlookup (staticLease cfg) c' = Some a \<or>
       fmlookup (live_leases cfg (now_purge env) m) c' = Some a))"
  using I est
proof (cases rule: establish_alloc)
  case (early code err')
  with est show ?thesis by auto
next
  case (alloc m2 r pl)
  then have r: "r = Inl err" and m': "m' = m2" by auto
  show ?thesis
  proof (cases "a \<in> held (mpool m2)")
    case True
    then obtain k e where e: "fmlookup (sessions m2) k = Some e" "e_inner e = a"
      unfolding mgr_invD(3) [OF alloc(1)] by (auto simp: fmlookup_ran'_iff)
    with mgr_registry(2) [OF alloc(1) e(1)] alloc(2) m' show ?thesis by auto
  next
    case False
    then have "\<not> leaseAvailableTo cfg (leases m2) (sp_client p) a"
      using allocInner_err(2) [OF mgr_invD(2) [OF alloc(1)]] alloc(5,7) r dyn a by blast
    then show ?thesis using alloc(3) by (auto simp: leaseAvailableTo_iff)
  qed
qed

section \<open>Ending a session\<close>

lemma evict_purge:
  "sessions (snd (evict c (purgeExpiredLeases cfg now m))) = sessions (snd (evict c m))"
  "active (snd (evict c (purgeExpiredLeases cfg now m))) = active (snd (evict c m))"
  "mpool (snd (evict c (purgeExpiredLeases cfg now m))) = mpool (snd (evict c m))"
  "fst (evict c (purgeExpiredLeases cfg now m)) = fst (evict c m)"
  by (auto simp: evict_def Let_def split: option.splits)

text \<open>The state a granted session was added to, and the state with it.\<close>

lemma establish_granted:
  assumes I: "mgr_inv cfg m" and est: "Establish cfg env p m = Some (Inr g, m', evs)"
  obtains e m2 where
    "m2 = snd (evict (sp_client p) (purgeExpiredLeases cfg (now_purge env) m))" "mgr_inv cfg m2"
    "sessions m' = fmupd (g_key g) e (sessions m2)"
    "active m' = fmupd (sp_client p) (g_key g) (active m2)"
    "leases m' = fmupd (sp_client p) (e_inner e) (leases m2)"
    "mpool m' = mpool m2\<lparr>used := finsert (e_inner e) (used (mpool m2))\<rparr>"
    "e_inner e \<notin> held (mpool m2)" "fmlookup (sessions m2) (g_key g) = None"
    "fmlookup (active m2) (sp_client p) = None"
    "e_client e = sp_client p" "g_client_inner g = e_inner e" "e_mtu e = est_mtu cfg env p"
    "g_mtu g = of_int (e_mtu e)"
  using est
proof (cases rule: Establish_cases)
  case (run k e ev m1 evs1)
  note ent = establish_locked_entry [OF I run(1)]
  from I run(1) show ?thesis
  proof (cases rule: establish_locked_cases)
    case (ok k' e' m2 pl)
    then have e': "e' = e" "k' = k" by auto
    note a = allocInner_ok [OF mgr_invD(2) [OF ok(3)] ok(8)]
    from run(2) have g: "g = grant_of cfg k e" "m' = start_monitor cfg e m1"
      by (cases rule: provision_cases; simp)+
    have act: "fmlookup (active m2) (sp_client p) = None"
      unfolding ok(2) by (rule evict_inv(2) [OF purge_inv [OF I]])
    show ?thesis
      using ok(2,4,6) e' a(2,3) ent g act
      by (intro that [of m2 e] ok(3)) (simp_all add: register_def grant_of_def)
  qed simp_all
qed simp_all

text \<open>
  A superseded connection cannot hurt its successor: once the client has reconnected and
  the new session has another key, the teardown of the old session changes nothing and touches
  no interface.
\<close>

theorem superseded_teardown_noop:
  assumes I: "mgr_inv cfg m" and old: "fmlookup (sessions m) (g_key g0) = Some e0" "e_client e0 = sp_client p"
    and est: "Establish cfg env p m = Some (Inr g, m', evs)" and key: "g_key g \<noteq> g_key g0"
  shows "Teardown_session cfg g0 now m' = (m', [])"
  using I est
proof (cases rule: establish_granted)
  case (1 e m2)
  have "sessions m2 = fmdrop (g_key g0) (sessions m)"
    using mgr_registry(2) [OF I old(1)] old unfolding 1(1) evict_purge by (simp add: evict_def)
  with 1(3) key show ?thesis by (simp add: Teardown_session_def teardown_locked_def)
qed

text \<open>
  Nothing leaks through a session: after \<^verbatim>\<open>Establish\<close> and the \<^verbatim>\<open>Teardown\<close> of what it
  granted, the registry, the index and the pool are those of before, less the session of the
  same client that the first call evicted; the lease remains.
\<close>

theorem establish_teardown_conserves:
  assumes I: "mgr_inv cfg m" and est: "Establish cfg env p m = Some (Inr g, m', evs)"
    and td: "Teardown_session cfg g now m' = (m'', evs')"
  shows "sessions m'' = sessions (snd (evict (sp_client p) m)) \<and>
    active m'' = active (snd (evict (sp_client p) m)) \<and>
    mpool m'' = mpool (snd (evict (sp_client p) m)) \<and>
    fmlookup (leases m'') (sp_client p) = Some (g_client_inner g)"
  using I est
proof (cases rule: establish_granted)
  case (1 e m2)
  have "fmdrop (g_key g) (fmupd (g_key g) e (sessions m2)) = sessions m2"
    "fmdrop (sp_client p) (fmupd (sp_client p) (g_key g) (active m2)) = active m2"
    using 1(8,9) by (auto intro!: fmap_ext)
  moreover have "pool_release (mpool m') (e_inner e) = mpool m2"
    using 1(6,7) by (auto simp: pool_release_def held_def)
  moreover have "m'' = snd (teardown_locked (g_key g) now m')"
    using td by (auto simp: Teardown_session_def split: prod.splits option.splits)
  ultimately show ?thesis
    using 1(3-5,10,11) evict_purge [of "sp_client p" cfg "now_purge env" m] 1(1)
    by (simp add: teardown_locked_def)
qed

section \<open>The negotiated MTU\<close>

definition effective_outer :: "mgr_cfg \<Rightarrow> est_env \<Rightarrow> int" where
  "effective_outer cfg env =
     (case path_mtu env of Some m \<Rightarrow> if m \<le> 0 then outerMTU cfg else m | None \<Rightarrow> outerMTU cfg)"

definition encap :: "mgr_cfg \<Rightarrow> int" where
  "encap cfg = OverheadWithFOU (greLocal cfg) (useGREKey cfg) (useGRESeq cfg) (fouPort cfg \<noteq> 0)"

lemma est_mtu_eq:
  "est_mtu cfg env p =
     (let o1 = effective_outer cfg env; c = uint (sp_mtu p);
          o2 = (if 0 < c \<and> c < o1 then c else o1);
          t = (if 0 < mtuCap cfg \<and> mtuCap cfg < o2 - encap cfg then mtuCap cfg else o2 - encap cfg)
      in max (minimumTunnelMTU (greLocal cfg)) t)"
  by (auto simp: est_mtu_def negotiateMTUWithServerOuter_def effective_outer_def encap_def Let_def
      max_def split: option.splits)

text \<open>
  C24. The negotiated MTU is at least the minimum of the address family; when both outer links
  can carry that minimum and the configured cap allows it, an encapsulated packet of that MTU
  fits the outer MTU of both peers and the MTU respects the cap; it is the largest such value;
  and the 16-bit field of the reply carries it unchanged when the server's outer MTU is below
  64 KiB.
\<close>

theorem mtu_negotiated:
  assumes I: "mgr_inv cfg m" and est: "Establish cfg env p m = Some (Inr g, m', evs)"
    and server: "minimumTunnelMTU (greLocal cfg) + encap cfg \<le> effective_outer cfg env"
      "effective_outer cfg env \<le> 65535"
    and client: "sp_mtu p = 0 \<or> minimumTunnelMTU (greLocal cfg) + encap cfg \<le> uint (sp_mtu p)"
    and cap: "mtuCap cfg \<le> 0 \<or> minimumTunnelMTU (greLocal cfg) \<le> mtuCap cfg"
  shows "minimumTunnelMTU (greLocal cfg) \<le> uint (g_mtu g) \<and>
    uint (g_mtu g) + encap cfg \<le> effective_outer cfg env \<and>
    (sp_mtu p \<noteq> 0 \<longrightarrow> uint (g_mtu g) + encap cfg \<le> uint (sp_mtu p)) \<and>
    (0 < mtuCap cfg \<longrightarrow> uint (g_mtu g) \<le> mtuCap cfg) \<and>
    (\<forall>t. t + encap cfg \<le> effective_outer cfg env \<and> (sp_mtu p \<noteq> 0 \<longrightarrow> t + encap cfg \<le> uint (sp_mtu p)) \<and>
       (0 < mtuCap cfg \<longrightarrow> t \<le> mtuCap cfg) \<longrightarrow> t \<le> uint (g_mtu g))"
  using I est
proof (cases rule: establish_granted)
  case (1 e m2)
  let ?t = "est_mtu cfg env p"
  have min: "576 \<le> minimumTunnelMTU (greLocal cfg)" by (simp add: minimumTunnelMTU_def)
  have ov: "0 \<le> encap cfg" by (simp add: encap_def OverheadWithFOU_def)
  have c0: "0 < uint (sp_mtu p) \<longleftrightarrow> sp_mtu p \<noteq> 0"
    by (metis le_less unsigned_0 word_eq_iff_unsigned unsigned_greater_eq less_irrefl)
  have b: "minimumTunnelMTU (greLocal cfg) \<le> ?t" "?t + encap cfg \<le> effective_outer cfg env"
    "sp_mtu p \<noteq> 0 \<longrightarrow> ?t + encap cfg \<le> uint (sp_mtu p)" "0 < mtuCap cfg \<longrightarrow> ?t \<le> mtuCap cfg"
    using server client cap c0 by (auto simp: est_mtu_eq Let_def)
  have best: "t \<le> ?t" if "t + encap cfg \<le> effective_outer cfg env"
      "sp_mtu p \<noteq> 0 \<longrightarrow> t + encap cfg \<le> uint (sp_mtu p)" "0 < mtuCap cfg \<longrightarrow> t \<le> mtuCap cfg" for t
    using that c0 by (auto simp: est_mtu_eq Let_def le_max_iff_disj)
  have "0 \<le> ?t" "?t < 2 ^ 16" using b min ov server(2) by auto
  then have "uint (g_mtu g) = ?t"
    unfolding 1(12,13) by (simp add: uint_word_of_int_eq take_bit_int_eq_self)
  with b best show ?thesis by auto
qed

text \<open>
  The cap of the configuration is not an upper bound when it is below the minimum of the
  address family: with an IPv6 outer address and a cap of 1000 the negotiated MTU is 1280.
\<close>

theorem mtu_cap_exceeded:
  assumes "is6 (greLocal cfg)" and "mtuCap cfg = 1000"
  shows "negotiateMTU cfg c = 1280"
  using assms by (auto simp: negotiateMTU_def negotiateMTUWithServerOuter_def minimumTunnelMTU_def Let_def)

section \<open>Interfaces\<close>

text \<open>
  The interfaces of the data-plane after a sequence of events, when removals succeed: an
  \<^verbatim>\<open>Ensure\<close> that succeeds leaves its interface in place, one that fails leaves none of that
  name (it deletes a leftover first and unwinds).
\<close>

fun dp_apply :: "string set \<Rightarrow> dp_event \<Rightarrow> string set" where
  "dp_apply ifs (EvEnsure p None) = insert (gp_name p) ifs"
| "dp_apply ifs (EvEnsure p (Some _)) = ifs - {gp_name p}"
| "dp_apply ifs (EvRemove n) = ifs - {n}"
| "dp_apply ifs _ = ifs"

definition dp_run :: "string set \<Rightarrow> dp_event list \<Rightarrow> string set" where
  "dp_run ifs evs = foldl dp_apply ifs evs"

definition live_ifs :: "manager \<Rightarrow> string set" where
  "live_ifs m = e_ifname ` fmran' (sessions m)"

text \<open>The pinned names of a valid configuration are distinct and outside the generated names.\<close>

definition names_ok :: "mgr_cfg \<Rightarrow> bool" where
  "names_ok cfg \<longleftrightarrow>
     (\<forall>c n. fmlookup (ifNames cfg) c = Some n \<longrightarrow> \<not> IsGeneratedName n) \<and>
     (\<forall>c c' n. fmlookup (ifNames cfg) c = Some n \<longrightarrow> fmlookup (ifNames cfg) c' = Some n \<longrightarrow> c = c')"

lemma ifNameFor_inject:
  assumes "names_ok cfg" "ifNameFor cfg c k = ifNameFor cfg c' k'"
  shows "c = c' \<or> k = k'"
proof (cases "fmlookup (ifNames cfg) c"; cases "fmlookup (ifNames cfg) c'")
  fix n n'
  assume "fmlookup (ifNames cfg) c = Some n" "fmlookup (ifNames cfg) c' = Some n'"
  then show ?thesis using assms by (auto simp: ifNameFor_def names_ok_def)
next
  fix n
  assume n: "fmlookup (ifNames cfg) c = Some n" "fmlookup (ifNames cfg) c' = None"
  then have "n = ifName k'" using assms(2) by (simp add: ifNameFor_def)
  then show ?thesis using ifName_props(3) [of k'] n assms(1) by (auto simp: names_ok_def)
next
  fix n'
  assume n: "fmlookup (ifNames cfg) c = None" "fmlookup (ifNames cfg) c' = Some n'"
  then have "n' = ifName k" using assms(2) by (simp add: ifNameFor_def)
  then show ?thesis using ifName_props(3) [of k] n assms(1) by (auto simp: names_ok_def)
qed (use assms(2) in \<open>simp add: ifNameFor_def ifName_inject\<close>)

lemma ifname_unique:
  assumes I: "mgr_inv cfg m" and n: "names_ok cfg"
    and e: "fmlookup (sessions m) k = Some e" "fmlookup (sessions m) k' = Some e'" "e_ifname e = e_ifname e'"
  shows "k = k'"
proof -
  have "e_client e = e_client e' \<or> k = k'"
    using ifNameFor_inject [OF n] mgr_registry(5) [OF I] e by metis
  then show ?thesis using mgr_registry(2) [OF I] e(1,2) by (metis option.inject)
qed

text \<open>
  No two live sessions share an interface: their names differ, whether pinned by the
  configuration or generated from the session key.
\<close>

theorem live_interfaces_distinct:
  assumes "mgr_inv cfg m" and "names_ok cfg"
    and "fmlookup (sessions m) k = Some e" and "fmlookup (sessions m) k' = Some e'" and "k \<noteq> k'"
  shows "e_ifname e \<noteq> e_ifname e'"
  using ifname_unique [OF assms(1-4)] assms(5) by blast

lemma live_drop:
  assumes I: "mgr_inv cfg m" and n: "names_ok cfg" and k: "fmlookup (sessions m) k = Some e"
  shows "e_ifname ` fmran' (fmdrop k (sessions m)) = live_ifs m - {e_ifname e}"
proof -
  have "e_ifname e' \<noteq> e_ifname e" if "e' \<in> fmran' (fmdrop k (sessions m))" for e'
  proof -
    from that obtain k' where "fmlookup (sessions m) k' = Some e'" "k' \<noteq> k"
      by (auto simp: fmlookup_ran'_iff split: if_splits)
    then show ?thesis using ifname_unique [OF I n _ k] by blast
  qed
  then show ?thesis unfolding live_ifs_def fmran'_drop [OF k] by auto
qed

lemma dp_run_simps [simp]:
  "dp_run ifs [] = ifs" "dp_run ifs (ev # evs) = dp_run (dp_apply ifs ev) evs"
  "dp_run ifs (evs @ evs') = dp_run (dp_run ifs evs) evs'"
  unfolding dp_run_def by simp_all

lemma dp_run_if [simp]: "dp_apply ifs ev = ifs \<Longrightarrow> dp_run ifs (if b then [ev] else []) = ifs"
  by simp

lemma dp_run_hooks [simp]: "dp_run ifs (map (\<lambda>(s, i). EvHook s i) hs) = ifs"
  by (induction hs arbitrary: ifs) (auto simp: dp_run_def)

lemma dp_run_remove [simp]: "dp_run ifs (removeAndNotify cfg mons e) = ifs - {e_ifname e}"
  by (simp add: removeAndNotify_def)

lemma gp_name_ensure [simp]: "gp_name (ensure_params cfg e) = e_ifname e"
  by (simp add: ensure_params_def)

lemma dp_run_provision:
  assumes "provision cfg env k e m1 = (res, m', evs)"
  shows "dp_run ifs evs = (case res of Inl _ \<Rightarrow> ifs - {e_ifname e} | Inr _ \<Rightarrow> insert (e_ifname e) ifs)"
  using assms unfolding provision_def Let_def
  by (cases "ensure_err env"; cases "clamp_result cfg env") auto

lemma evict_ifs:
  assumes I: "mgr_inv cfg m" and n: "names_ok cfg"
  shows "live_ifs (snd (evict c m)) =
    (case fst (evict c m) of None \<Rightarrow> live_ifs m | Some old \<Rightarrow> live_ifs m - {e_ifname old})"
  using I
proof (cases rule: evict_cases [of cfg m c])
  case (some k e)
  then show ?thesis using live_drop [OF I n some(2)] by (simp add: live_ifs_def)
qed simp

lemma rollback_ifs:
  assumes I: "mgr_inv cfg m1" and n: "names_ok cfg" and k: "fmlookup (sessions m1) k = Some e"
  shows "live_ifs (rollback (e_client e) k e m1) = live_ifs m1 - {e_ifname e}"
  using live_drop [OF I n k] k by (simp add: rollback_def live_ifs_def)

lemma register_ifs:
  assumes "fmlookup (sessions m) k = None"
  shows "live_ifs (register p k e m) = insert (e_ifname e) (live_ifs m)"
proof -
  have "fmdrop k (fmupd k e (sessions m)) = sessions m" using assms by (intro fmap_ext) auto
  then show ?thesis
    using fmran'_drop [of "fmupd k e (sessions m)" k e] by (simp add: live_ifs_def register_def)
qed

lemma live_ifs_cong: "sessions m = sessions m' \<Longrightarrow> live_ifs m = live_ifs m'"
  by (simp add: live_ifs_def)

text \<open>A client that is refused for lack of an address had no session to evict.\<close>

lemma refused_not_evicted:
  assumes I: "mgr_inv cfg m"
    and m2: "m2 = snd (evict (sp_client p) (purgeExpiredLeases cfg now m))" "mgr_inv cfg m2"
    and no: "allocInner cfg (leases m2) (sp_client p) req (mpool m2) = (Inl err, pl)"
  shows "fst (evict (sp_client p) m) = None"
  using I
proof (cases rule: evict_cases [of cfg m "sp_client p"])
  case (some k e)
  have "fmlookup (leases m2) (sp_client p) = Some (e_inner e)"
    using mgr_lease(1) [OF I some(2)] some(1,3)
    unfolding m2(1) evict_inv(3) [OF purge_inv [OF I]] leases_purge
    by (simp add: live_leases_def lease_expired_def split: option.splits)
  moreover have "fmlookup (active m2) (sp_client p) = None"
    unfolding m2(1) by (rule evict_inv(2) [OF purge_inv [OF I]])
  ultimately show ?thesis
    using alloc_with_lease(5) [OF m2(2) _ _ no] by auto
qed simp

text \<open>The locked section, seen from the data plane: the evicted interface goes, a new name comes.\<close>

lemma establish_locked_ifs:
  assumes I: "mgr_inv cfg m" and n: "names_ok cfg"
    and est: "establish_locked cfg env p mtu m = Some (Inr (k, e, ev), m1)"
  defines "rest \<equiv> (case ev of None \<Rightarrow> live_ifs m | Some old \<Rightarrow> live_ifs m - {e_ifname old})"
  shows "live_ifs m1 = insert (e_ifname e) rest" "e_ifname e \<notin> rest"
    "ev = Some old \<Longrightarrow> \<exists>k0. fmlookup (sessions m) k0 = Some old"
    "e_inner e \<in> claimable (mpool m)" "claimable (mpool m1) = claimable (mpool m)" "e_outer e = sp_outer p"
proof -
  note I1 = establish_locked_inv [OF I est]
  note ent = establish_locked_entry [OF I est]
  have "live_ifs m1 = insert (e_ifname e) rest \<and> e_ifname e \<notin> rest \<and>
    (ev = Some old \<longrightarrow> (\<exists>k0. fmlookup (sessions m) k0 = Some old)) \<and> e_inner e \<in> claimable (mpool m) \<and>
    claimable (mpool m1) = claimable (mpool m) \<and> e_outer e = sp_outer p" for old
    using I est
  proof (cases rule: establish_locked_cases)
    case (ok k' e' m2 pl)
    then have ke: "k' = k" "e' = e" "ev = fst (evict (sp_client p) m)" by (auto simp: evict_purge)
    have "live_ifs m2 = live_ifs (snd (evict (sp_client p) m))"
      unfolding ok(2) by (rule live_ifs_cong) (rule evict_purge(1))
    then have m2: "live_ifs m2 = rest" using evict_ifs [OF I n, of "sp_client p"] ke(3) by (simp add: rest_def)
    have m1: "live_ifs m1 = insert (e_ifname e) rest"
      using ok(4,6) ke m2 register_ifs [of "m2\<lparr>mpool := pl\<rparr>" k p e] by (simp add: live_ifs_def)
    have "fmdrop k (sessions m1) = sessions m2"
      using ok(4,6) ke by (auto simp: register_def intro!: fmap_ext)
    then have new: "e_ifname e \<notin> rest" using live_drop [OF I1 n ent(1)] m2 by (auto simp: live_ifs_def)
    have "claimable (mpool m2) = claimable (mpool m)"
      unfolding ok(2) claimable_evict by (simp add: purgeExpiredLeases_def)
    moreover note al = allocInner_ok [OF mgr_invD(2) [OF ok(3)] ok(8)]
    moreover have "ev = Some old \<longrightarrow> (\<exists>k0. fmlookup (sessions m) k0 = Some old)"
      using ke(3) by (cases rule: evict_cases [OF I, of "sp_client p"]) auto
    moreover have "e_outer e = sp_outer p" using ok(9) ke(2) by (metis entry.select_convs(4))
    ultimately show ?thesis using m1 new ok(4) ke(2) by (auto simp: register_def)
  qed simp_all
  then show "live_ifs m1 = insert (e_ifname e) rest" "e_ifname e \<notin> rest"
    "ev = Some old \<Longrightarrow> \<exists>k0. fmlookup (sessions m) k0 = Some old"
    "e_inner e \<in> claimable (mpool m)" "claimable (mpool m1) = claimable (mpool m)" "e_outer e = sp_outer p" by auto
qed

lemma establish_ifs:
  assumes I: "mgr_inv cfg m" and n: "names_ok cfg"
    and est: "Establish cfg env p m = Some (res, m', evs)"
    and rnd: "\<forall>code. res \<noteq> Inl (code, KeyFailed)"
  shows "dp_run (live_ifs m) evs = live_ifs m'"
  using est
proof (cases rule: Establish_cases)
  case (locked code err)
  from I locked(3) show ?thesis
  proof (cases rule: establish_locked_cases)
    case (noaddr err' m2)
    have none: "fst (evict (sp_client p) m) = None"
      using refused_not_evicted [OF I noaddr(4,3,5)] .
    have "live_ifs m' = live_ifs (snd (evict (sp_client p) m))"
      unfolding noaddr(2,4) by (rule live_ifs_cong) (rule evict_purge(1))
    then show ?thesis using evict_ifs [OF I n, of "sp_client p"] none locked by simp
  qed (use rnd locked in auto)
next
  case (run k e ev m1 evs1)
  note I1 = establish_locked_inv [OF I run(1)]
  note ent = establish_locked_entry [OF I run(1)]
  note ifs = establish_locked_ifs(1,2) [OF I n run(1)]
  have "dp_run (live_ifs m) evs = dp_run (case ev of None \<Rightarrow> live_ifs m | Some old \<Rightarrow> live_ifs m - {e_ifname old}) evs1"
    using run(3) by (simp split: option.splits)
  with run(2) show ?thesis
    using dp_run_provision [OF run(2)] ifs rollback_ifs [OF I1 n ent(1)]
    by (cases rule: provision_cases) (auto simp: live_ifs_def)
qed simp

text \<open>
  The data-plane mirrors the registry: if the interfaces are those of the live sessions
  before an \<^verbatim>\<open>Establish\<close> that runs alone, they are afterwards, however the call ends, except
  when the random source fails.
\<close>

theorem establish_interfaces:
  assumes I: "mgr_inv cfg m" and n: "names_ok cfg"
    and est: "Establish cfg env p m = Some (res, m', evs)"
    and rnd: "\<forall>code. res \<noteq> Inl (code, KeyFailed)"
  shows "dp_run (live_ifs m) evs = live_ifs m'"
  by (rule establish_ifs [OF assms])

text \<open>
  \<^verbatim>\<open>Teardown\<close> keeps the mirror as well: the interface of the session is removed, every
  other stays, and a teardown of a session that is gone touches nothing.
\<close>

theorem teardown_interfaces:
  assumes I: "mgr_inv cfg m" and n: "names_ok cfg" and td: "Teardown_session cfg g now m = (m', evs)"
  shows "dp_run (live_ifs m) evs = live_ifs m'"
proof (cases "fmlookup (sessions m) (g_key g)")
  case (Some e)
  then have "evs = removeAndNotify cfg (monitors m') e" "sessions m' = fmdrop (g_key g) (sessions m)"
    using td by (auto simp: Teardown_session_def teardown_locked_def)
  then show ?thesis
    using live_drop [OF I n Some] by (simp add: live_ifs_def [of m'])
qed (use td in \<open>auto simp: Teardown_session_def teardown_locked_def\<close>)

text \<open>
  When the random source fails during a reconnect, the evicted session is gone from the
  registry but its interface is left behind: no event removes it, and the old connection's
  teardown will find no entry to remove it for.
\<close>

theorem key_failure_leaks_interface:
  assumes I: "mgr_inv cfg m" and old: "fmlookup (sessions m) k = Some e" "e_client e = sp_client p"
    and n: "names_ok cfg"
    and est: "Establish cfg env p m = Some (Inl (code, KeyFailed), m', evs)"
  shows "evs = [] \<and> e_ifname e \<in> dp_run (live_ifs m) evs \<and> e_ifname e \<notin> live_ifs m' \<and>
    Teardown_session cfg (grant_of cfg k e) now m' = (m', [])"
  using est
proof (cases rule: Establish_cases)
  case (locked code err)
  have live: "e_ifname e \<in> live_ifs m" using old by (auto simp: live_ifs_def intro: fmran'I)
  have ev: "fst (evict (sp_client p) m) = Some e"
    "sessions (snd (evict (sp_client p) m)) = fmdrop k (sessions m)"
    using mgr_registry(2) [OF I old(1)] old by (auto simp: evict_def)
  from I locked(3) have m': "sessions m' = sessions (snd (evict (sp_client p) m))"
    by (cases rule: establish_locked_cases) (auto simp: evict_purge)
  then have "live_ifs m' = live_ifs m - {e_ifname e}"
    using evict_ifs [OF I n, of "sp_client p"] ev(1) by (simp add: live_ifs_def)
  with live m' ev(2) locked(2) show ?thesis
    by (simp add: Teardown_session_def teardown_locked_def grant_of_def)
next
  case (run k e ev m1 evs1)
  from run(2) show ?thesis by (cases rule: provision_cases) auto
qed auto

section \<open>Establish returns\<close>

lemma randomKey_returns:
  "(\<exists>b. Some b \<in> set ds \<and> be_word b \<noteq> (0 :: 32 word) \<and> fmlookup ss (be_word b) = None) \<Longrightarrow>
     randomKey ss ds \<noteq> None"
  by (induction ss ds rule: randomKey.induct) (auto simp: Let_def)

text \<open>
  \<^verbatim>\<open>Establish\<close> returns as soon as the random source has delivered one non-zero key that
  no live session uses, or an error.
\<close>

theorem establish_returns:
  assumes I: "mgr_inv cfg m"
    and draw: "None \<in> set (draws env) \<or> (\<exists>b. Some b \<in> set (draws env) \<and>
      be_word b \<noteq> (0 :: 32 word) \<and> be_word b |\<notin>| fmdom (sessions m))"
  shows "\<exists>res m' evs. Establish cfg env p m = Some (res, m', evs)"
proof -
  let ?m2 = "snd (evict (sp_client p) (purgeExpiredLeases cfg (now_purge env) m))"
  have sub: "fmlookup (sessions ?m2) k = None" if "k |\<notin>| fmdom (sessions m)" for k
    using that unfolding evict_purge by (auto simp: evict_def Let_def fmdom_notD split: option.splits)
  have fail: "None \<in> set ds \<Longrightarrow> randomKey ss ds \<noteq> None" for ss ds
    by (induction ss ds rule: randomKey.induct) (auto simp: Let_def)
  have "randomKey (sessions ?m2) (draws env) \<noteq> None"
    using draw fail randomKey_returns [of "draws env" "sessions ?m2"] sub by blast
  then have "establish_locked cfg env p (est_mtu cfg env p) m \<noteq> None"
    by (auto simp: establish_locked_def Let_def split: prod.splits sum.splits option.splits)
  then show ?thesis
    by (auto simp: Establish_def Let_def split: prod.splits sum.splits option.splits)
qed

section \<open>A concrete manager\<close>

text \<open>A new manager satisfies the invariant.\<close>

lemma newWith_inv:
  assumes "pool_wf p" "used p = {||}" "newWith cfg detected p = (cfg', m)"
  shows "mgr_inv cfg' m"
  using assms
  by (auto simp: newWith_def Let_def mgr_inv_def registry_ok_def pool_ok_def lease_ok_def held_def fmran'_def)

text \<open>
  A /30 pool: the network address, the server's own address, one address pinned for alice and
  one dynamic address; bob's interface name is pinned.
\<close>

definition demo_clamp :: mss_clamp where
  "demo_clamp = \<lparr>mc_enabled = True, mc_backend = ''nftables'', mc_direction = ''out'', mc_mode = ''pmtu'',
     mc_mss = 0, mc_mss4 = 0, mc_mss6 = 0, mc_nft_family = ''inet'', mc_nft_table = ''gremlind'',
     mc_nft_chain = ''forward'', mc_nft_manage = True, mc_ipt_chain = ''FORWARD'', mc_monitor = True\<rparr>"

definition demo_cfg :: mgr_cfg where
  "demo_cfg = \<lparr>serverInner = V4 0x0a000001, greLocal = V4 0xc0000201, outerMTU = 1500, mtuCap = 0,
     useGREKey = True, useGRESeq = False, upHook = '''', downHook = ''/bin/down'', leaseTTL = 60,
     ifNames = fmap_of_list [(''bob'', ''tunbob'')],
     staticLease = fmap_of_list [(''alice'', V4 0x0a000002)], fouPort = 0, mssClamp = demo_clamp\<rparr>"

definition demo_pool :: pool where
  "demo_pool = \<lparr>pprefix = \<lparr>pip = V4 0x0a000000, pbits = 30\<rparr>, reserved = {|V4 0x0a000001|},
     pinned = {|V4 0x0a000002|}, used = {||}\<rparr>"

definition demo_mgr :: manager where
  "demo_mgr = snd (newWith demo_cfg None demo_pool)"

definition demo_env :: "byte \<Rightarrow> est_env" where
  "demo_env k = \<lparr>path_mtu = None, now_purge = 100, draws = [Some [0, 0, 0, 0], Some [0, 0, 0, k]],
     now_since = 100, ensure_err = None, clamp_err = None\<rparr>"

definition demo_params :: "string \<Rightarrow> session_params" where
  "demo_params c = \<lparr>sp_client = c, sp_outer = V4 0xcb007105, sp_mtu = 1400, sp_requested = AddrZero\<rparr>"

definition demo_grant :: "32 word \<Rightarrow> 32 word \<Rightarrow> session_grant" where
  "demo_grant a k = \<lparr>g_client_inner = V4 a, g_server_inner = V4 0x0a000001,
     g_server_outer = V4 0xc0000201, g_grekey = k, g_flags = 1, g_mtu = 1372, g_key = k\<rparr>"

text \<open>The manager with bob's session under key 7, and with alice's under key 9 as well.\<close>

definition demo_mgr1 :: manager where
  "demo_mgr1 = fst (snd (the (Establish demo_cfg (demo_env 7) (demo_params ''bob'') demo_mgr)))"

definition demo_mgr2 :: manager where
  "demo_mgr2 = fst (snd (the (Establish demo_cfg (demo_env 9) (demo_params ''alice'') demo_mgr1)))"

lemma demo_inv: "mgr_inv demo_cfg demo_mgr"
proof -
  have "pool_wf demo_pool"
    by (simp add: pool_wf_def demo_pool_def prefix_wf_def prefix_valid_def contains_def host_bits_def
        masked_def drop_bit_eq_div)
  moreover have "newWith demo_cfg None demo_pool = (demo_cfg, demo_mgr)"
    by (simp add: demo_mgr_def newWith_def demo_cfg_def)
  ultimately show ?thesis using newWith_inv [of demo_pool] by (simp add: demo_pool_def)
qed

lemma est_witness:
  "map_option fst (Establish cfg env p m) = Some res \<Longrightarrow>
     \<exists>m' evs. Establish cfg env p m = Some (res, m', evs) \<and>
       m' = fst (snd (the (Establish cfg env p m))) \<and> evs = snd (snd (the (Establish cfg env p m)))"
  by (cases "Establish cfg env p m") auto

lemma demo_bob: "map_option fst (Establish demo_cfg (demo_env 7) (demo_params ''bob'') demo_mgr)
    = Some (Inr (demo_grant 0x0a000003 7))"
  by code_simp

lemma demo_alice: "map_option fst (Establish demo_cfg (demo_env 7) (demo_params ''alice'') demo_mgr)
    = Some (Inr (demo_grant 0x0a000002 7))"
  by code_simp

lemma demo_alice1: "map_option fst (Establish demo_cfg (demo_env 9) (demo_params ''alice'') demo_mgr1)
    = Some (Inr (demo_grant 0x0a000002 9))"
  by code_simp

lemma demo_bob_again: "map_option fst (Establish demo_cfg (demo_env 9) (demo_params ''bob'') demo_mgr1)
    = Some (Inr (demo_grant 0x0a000003 9))"
  by code_simp

lemma demo_carol: "map_option fst (Establish demo_cfg (demo_env 9) (demo_params ''carol'') demo_mgr1)
    = Some (Inl (ResultNoAddresses, PoolFailed ErrExhausted))"
  by code_simp

lemma demo_bob_nokey: "map_option fst (Establish demo_cfg (demo_env 9\<lparr>draws := [None]\<rparr>) (demo_params ''bob'') demo_mgr1)
    = Some (Inl (ResultInternal, KeyFailed))"
  by code_simp

lemma demo_mgr1_bob: "map_option e_ifname (fmlookup (sessions demo_mgr1) 7) = Some ''tunbob''"
    "map_option e_client (fmlookup (sessions demo_mgr1) 7) = Some ''bob''"
  by code_simp+

lemma demo_inv1: "mgr_inv demo_cfg demo_mgr1"
proof -
  obtain m' evs where est: "Establish demo_cfg (demo_env 7) (demo_params ''bob'') demo_mgr
      = Some (Inr (demo_grant 0x0a000003 7), m', evs)"
    using est_witness [OF demo_bob] by blast
  then show ?thesis using Establish_inv [OF demo_inv est] by (simp add: demo_mgr1_def)
qed

lemma demo_inv2: "mgr_inv demo_cfg demo_mgr2"
proof -
  obtain m' evs where est: "Establish demo_cfg (demo_env 9) (demo_params ''alice'') demo_mgr1
      = Some (Inr (demo_grant 0x0a000002 9), m', evs)"
    using est_witness [OF demo_alice1] by blast
  then show ?thesis using Establish_inv [OF demo_inv1 est] by (simp add: demo_mgr2_def)
qed

lemma demo_names: "names_ok demo_cfg"
proof -
  have "\<not> IsGeneratedName ''tunbob''" by code_simp
  then show ?thesis by (simp add: names_ok_def demo_cfg_def)
qed

lemma demo_bob_entry:
  obtains e where "fmlookup (sessions demo_mgr1) 7 = Some e" "e_client e = ''bob''" "e_ifname e = ''tunbob''"
  using demo_mgr1_bob by auto

section \<open>Witnesses\<close>

theorem static_lease_always_witness:
  "g_client_inner (demo_grant 0x0a000002 7) = V4 0x0a000002"
proof -
  obtain m' evs where est: "Establish demo_cfg (demo_env 7) (demo_params ''alice'') demo_mgr
      = Some (Inr (demo_grant 0x0a000002 7), m', evs)"
    using est_witness [OF demo_alice] by blast
  have "V4 0x0a000002 \<in> claimable (mpool demo_mgr)"
    by (simp add: claimable_def demo_mgr_def newWith_def demo_pool_def contains_def prefix_valid_def
        host_bits_def Let_def)
  moreover have "fmlookup (staticLease demo_cfg) c' = Some (V4 0x0a000002) \<longleftrightarrow> c' = ''alice''" for c'
    by (auto simp: demo_cfg_def)
  ultimately show ?thesis
    using static_lease_always [OF demo_inv _ _ _ est, of "V4 0x0a000002"] by (simp add: demo_params_def)
qed

theorem sticky_lease_witness: "g_client_inner (demo_grant 0x0a000003 9) = V4 0x0a000003"
proof -
  obtain m' evs where est: "Establish demo_cfg (demo_env 9) (demo_params ''bob'') demo_mgr1
      = Some (Inr (demo_grant 0x0a000003 9), m', evs)"
    using est_witness [OF demo_bob_again] by blast
  have "fmlookup (live_leases demo_cfg (now_purge (demo_env 9)) demo_mgr1) (sp_client (demo_params ''bob''))
      = Some (V4 0x0a000003)"
    by code_simp
  from sticky_lease [OF demo_inv1 _ this est] show ?thesis
    by (simp add: demo_params_def demo_cfg_def)
qed

theorem grant_exclusive_witness:
  "V4 0x0a000002 \<in> claimable (mpool demo_mgr1)"
proof -
  obtain m' evs where est: "Establish demo_cfg (demo_env 9) (demo_params ''alice'') demo_mgr1
      = Some (Inr (demo_grant 0x0a000002 9), m', evs)"
    using est_witness [OF demo_alice1] by blast
  from grant_exclusive [OF demo_inv1 est] show ?thesis by (simp add: demo_grant_def)
qed

theorem exhaustion_complete_witness:
  "\<exists>m' evs. Establish demo_cfg (demo_env 9) (demo_params ''carol'') demo_mgr1
      = Some (Inl (ResultNoAddresses, PoolFailed ErrExhausted), m', evs) \<and>
    ((\<exists>k e. fmlookup (sessions m') k = Some e \<and> e_inner e = V4 0x0a000003 \<and> e_client e \<noteq> ''carol'') \<or>
     (\<exists>c'. c' \<noteq> ''carol'' \<and> (fmlookup (staticLease demo_cfg) c' = Some (V4 0x0a000003) \<or>
       fmlookup (live_leases demo_cfg 100 demo_mgr1) c' = Some (V4 0x0a000003))))"
proof -
  obtain m' evs where est: "Establish demo_cfg (demo_env 9) (demo_params ''carol'') demo_mgr1
      = Some (Inl (ResultNoAddresses, PoolFailed ErrExhausted), m', evs)"
    using est_witness [OF demo_carol] by blast
  have "contains (pprefix (mpool demo_mgr1)) (V4 0x0a000003) \<and>
      V4 0x0a000003 \<noteq> pip (pprefix (mpool demo_mgr1)) \<and>
      V4 0x0a000003 |\<notin>| reserved (mpool demo_mgr1) \<and> V4 0x0a000003 |\<notin>| pinned (mpool demo_mgr1)"
    by code_simp
  then have "V4 0x0a000003 \<in> dynamic (mpool demo_mgr1)" by (simp add: dynamic_def)
  from exhaustion_complete [OF demo_inv1 _ est this] est show ?thesis
    by (simp add: demo_params_def demo_cfg_def demo_env_def)
qed

theorem superseded_teardown_noop_witness:
  "\<exists>m'. Teardown_session demo_cfg (demo_grant 0x0a000003 7) 200 m' = (m', [])"
proof -
  obtain m' evs where est: "Establish demo_cfg (demo_env 9) (demo_params ''bob'') demo_mgr1
      = Some (Inr (demo_grant 0x0a000003 9), m', evs)"
    using est_witness [OF demo_bob_again] by blast
  obtain e where "fmlookup (sessions demo_mgr1) 7 = Some e" "e_client e = ''bob''" by (rule demo_bob_entry)
  then show ?thesis
    using superseded_teardown_noop [OF demo_inv1 _ _ est, of "demo_grant 0x0a000003 7" e 200]
    by (auto simp: demo_grant_def demo_params_def)
qed

theorem establish_teardown_conserves_witness:
  "\<exists>m'' :: manager. sessions m'' = sessions (snd (evict ''bob'' demo_mgr)) \<and>
     fmlookup (leases m'') ''bob'' = Some (V4 0x0a000003)"
proof -
  obtain m' evs where est: "Establish demo_cfg (demo_env 7) (demo_params ''bob'') demo_mgr
      = Some (Inr (demo_grant 0x0a000003 7), m', evs)"
    using est_witness [OF demo_bob] by blast
  obtain m'' evs' where "Teardown_session demo_cfg (demo_grant 0x0a000003 7) 200 m' = (m'', evs')"
    by (metis surj_pair)
  from establish_teardown_conserves [OF demo_inv est this] show ?thesis
    by (auto simp: demo_params_def demo_grant_def)
qed

theorem mtu_negotiated_witness:
  "576 \<le> uint (g_mtu (demo_grant 0x0a000003 7)) \<and> uint (g_mtu (demo_grant 0x0a000003 7)) + 28 \<le> 1400"
proof -
  obtain m' evs where est: "Establish demo_cfg (demo_env 7) (demo_params ''bob'') demo_mgr
      = Some (Inr (demo_grant 0x0a000003 7), m', evs)"
    using est_witness [OF demo_bob] by blast
  have c: "encap demo_cfg = 28" "effective_outer demo_cfg (demo_env 7) = 1500"
    "minimumTunnelMTU (greLocal demo_cfg) = 576" "mtuCap demo_cfg = 0"
    by (simp_all add: encap_def OverheadWithFOU_def effective_outer_def minimumTunnelMTU_def
        demo_cfg_def demo_env_def)
  have p: "sp_mtu (demo_params ''bob'') = 1400" by (simp add: demo_params_def)
  show ?thesis using mtu_negotiated [OF demo_inv est, unfolded c p] by simp
qed

theorem mtu_cap_exceeded_witness:
  "negotiateMTU (demo_cfg\<lparr>greLocal := V6 0x20010db8000000000000000000000001 '''', mtuCap := 1000\<rparr>) 1500 = 1280"
  using mtu_cap_exceeded [of "demo_cfg\<lparr>greLocal := V6 0x20010db8000000000000000000000001 '''', mtuCap := 1000\<rparr>" 1500]
  by simp

theorem live_interfaces_distinct_witness:
  "map_option e_ifname (fmlookup (sessions demo_mgr2) 7) \<noteq> map_option e_ifname (fmlookup (sessions demo_mgr2) 9)"
proof -
  have "fmlookup (sessions demo_mgr2) 7 \<noteq> None" "fmlookup (sessions demo_mgr2) 9 \<noteq> None" by code_simp+
  then obtain e e' where "fmlookup (sessions demo_mgr2) 7 = Some e" "fmlookup (sessions demo_mgr2) 9 = Some e'"
    by auto
  with live_interfaces_distinct [OF demo_inv2 demo_names this] show ?thesis by simp
qed

theorem establish_interfaces_witness:
  "\<exists>m' evs. Establish demo_cfg (demo_env 9) (demo_params ''bob'') demo_mgr1
      = Some (Inr (demo_grant 0x0a000003 9), m', evs) \<and> dp_run (live_ifs demo_mgr1) evs = live_ifs m'"
proof -
  obtain m' evs where est: "Establish demo_cfg (demo_env 9) (demo_params ''bob'') demo_mgr1
      = Some (Inr (demo_grant 0x0a000003 9), m', evs)"
    using est_witness [OF demo_bob_again] by blast
  with establish_interfaces [OF demo_inv1 demo_names est] show ?thesis by auto
qed

theorem teardown_interfaces_witness:
  "\<exists>m' evs. Teardown_session demo_cfg (demo_grant 0x0a000003 7) 200 demo_mgr1 = (m', evs) \<and>
     dp_run (live_ifs demo_mgr1) evs = live_ifs m'"
  using teardown_interfaces [OF demo_inv1 demo_names] by (metis surj_pair)

theorem key_failure_leaks_interface_witness:
  "\<exists>m'. ''tunbob'' \<in> dp_run (live_ifs demo_mgr1) [] \<and> ''tunbob'' \<notin> live_ifs m'"
proof -
  obtain m' evs where est: "Establish demo_cfg (demo_env 9\<lparr>draws := [None]\<rparr>) (demo_params ''bob'') demo_mgr1
      = Some (Inl (ResultInternal, KeyFailed), m', evs)"
    using est_witness [OF demo_bob_nokey] by blast
  obtain e where e: "fmlookup (sessions demo_mgr1) 7 = Some e" "e_client e = ''bob''" "e_ifname e = ''tunbob''"
    by (rule demo_bob_entry)
  from key_failure_leaks_interface [OF demo_inv1 e(1) _ demo_names est, where now = 0] e(2,3)
  show ?thesis by (intro exI [of _ m']) (clarsimp simp: demo_params_def)
qed

theorem establish_returns_witness:
  "\<exists>res m' evs. Establish demo_cfg (demo_env 9) (demo_params ''bob'') demo_mgr1 = Some (res, m', evs)"
proof -
  have "be_word [0, 0, 0, 9] \<noteq> (0 :: 32 word) \<and> be_word [0, 0, 0, 9] |\<notin>| fmdom (sessions demo_mgr1)"
    by code_simp
  then show ?thesis
    by (intro establish_returns [OF demo_inv1] disjI2 exI [of _ "[0, 0, 0, 9]"]) (simp add: demo_env_def)
qed

end
