(* ===== verification/Session_Steps.thy ===== *)
theory Session_Steps
  imports Session_Props
begin

text \<open>
  The session manager under concurrency. Each control connection runs \<^verbatim>\<open>Establish\<close> and later
  \<^verbatim>\<open>Teardown\<close> in its own goroutine; only the sections under the mutex are atomic. A call in
  progress is a \<open>task\<close>: the place it has reached, with what it holds in local variables. A
  step is one locked section or one call to the data-plane, of any task, so every interleaving
  is a sequence of steps.
\<close>

section \<open>Tasks and steps\<close>

datatype task =
    Evicting "32 word" entry "entry option"
  | Ensuring "32 word" entry
  | Clamping "32 word" entry
  | Rolling "32 word" entry
  | Live "32 word" entry
  | Closing entry

record world =
  wm :: manager
  tasks :: "task list"
  ifaces :: "string set"

definition without :: "nat \<Rightarrow> 'a list \<Rightarrow> 'a list" where
  "without i xs = take i xs @ drop (Suc i) xs"

inductive wstep :: "mgr_cfg \<Rightarrow> world \<Rightarrow> world \<Rightarrow> bool" for cfg where
  start: "establish_locked cfg env p (est_mtu cfg env p) (wm w) = Some (Inr (k, e, ev), m') \<Longrightarrow>
     wstep cfg w (w\<lparr>wm := m', tasks := Evicting k e ev # tasks w\<rparr>)"
| refuse: "establish_locked cfg env p (est_mtu cfg env p) (wm w) = Some (Inl err, m') \<Longrightarrow>
     wstep cfg w (w\<lparr>wm := m'\<rparr>)"
| evicted: "i < length (tasks w) \<Longrightarrow> tasks w ! i = Evicting k e ev \<Longrightarrow>
     wstep cfg w (w\<lparr>tasks := (tasks w)[i := Ensuring k e],
       ifaces := ifaces w - e_ifname ` set_option ev\<rparr>)"
| ensured: "i < length (tasks w) \<Longrightarrow> tasks w ! i = Ensuring k e \<Longrightarrow>
     wstep cfg w (w\<lparr>tasks := (tasks w)[i := Clamping k e], ifaces := insert (e_ifname e) (ifaces w)\<rparr>)"
| not_ensured: "i < length (tasks w) \<Longrightarrow> tasks w ! i = Ensuring k e \<Longrightarrow>
     wstep cfg w (w\<lparr>tasks := (tasks w)[i := Rolling k e], ifaces := ifaces w - {e_ifname e}\<rparr>)"
| clamped: "i < length (tasks w) \<Longrightarrow> tasks w ! i = Clamping k e \<Longrightarrow>
     wstep cfg w (w\<lparr>wm := start_monitor cfg e (wm w), tasks := (tasks w)[i := Live k e]\<rparr>)"
| not_clamped: "i < length (tasks w) \<Longrightarrow> tasks w ! i = Clamping k e \<Longrightarrow> mc_enabled (mssClamp cfg) \<Longrightarrow>
     wstep cfg w (w\<lparr>tasks := (tasks w)[i := Rolling k e], ifaces := ifaces w - {e_ifname e}\<rparr>)"
| rolled: "i < length (tasks w) \<Longrightarrow> tasks w ! i = Rolling k e \<Longrightarrow>
     wstep cfg w (w\<lparr>wm := rollback (e_client e) k e (wm w), tasks := without i (tasks w)\<rparr>)"
| down: "i < length (tasks w) \<Longrightarrow> tasks w ! i = Live k e \<Longrightarrow>
     teardown_locked k now (wm w) = (Some e', m') \<Longrightarrow>
     wstep cfg w (w\<lparr>wm := m', tasks := (tasks w)[i := Closing e']\<rparr>)"
| down_stale: "i < length (tasks w) \<Longrightarrow> tasks w ! i = Live k e \<Longrightarrow>
     teardown_locked k now (wm w) = (None, m') \<Longrightarrow>
     wstep cfg w (w\<lparr>wm := m', tasks := without i (tasks w)\<rparr>)"
| closed: "i < length (tasks w) \<Longrightarrow> tasks w ! i = Closing e \<Longrightarrow>
     wstep cfg w (w\<lparr>tasks := without i (tasks w), ifaces := ifaces w - {e_ifname e}\<rparr>)"

inductive_cases wstepE: "wstep cfg w w'"

definition winit :: "mgr_cfg \<Rightarrow> world \<Rightarrow> bool" where
  "winit cfg w \<longleftrightarrow> mgr_inv cfg (wm w) \<and> tasks w = []"

section \<open>The invariant of every interleaving\<close>

text \<open>
  A task that may still roll its session back holds an entry older than the next identity, and
  if the registry has an entry of the same identity under the task's key, it is the same entry.
\<close>

fun task_entry :: "task \<Rightarrow> (32 word \<times> entry) option" where
  "task_entry (Evicting k e _) = Some (k, e)"
| "task_entry (Ensuring k e) = Some (k, e)"
| "task_entry (Clamping k e) = Some (k, e)"
| "task_entry (Rolling k e) = Some (k, e)"
| "task_entry (Live _ _) = None"
| "task_entry (Closing _) = None"

definition task_ok :: "manager \<Rightarrow> task \<Rightarrow> bool" where
  "task_ok m t \<longleftrightarrow> (\<forall>k e. task_entry t = Some (k, e) \<longrightarrow> e_id e < fresh_id m \<and>
     (\<forall>e'. fmlookup (sessions m) k = Some e' \<longrightarrow> e_id e' = e_id e \<longrightarrow> e' = e))"

definition world_inv :: "mgr_cfg \<Rightarrow> world \<Rightarrow> bool" where
  "world_inv cfg w \<longleftrightarrow> mgr_inv cfg (wm w) \<and> list_all (task_ok (wm w)) (tasks w)"

text \<open>Sessions are only ever removed, or added under a new identity.\<close>

definition grows :: "manager \<Rightarrow> manager \<Rightarrow> bool" where
  "grows m m' \<longleftrightarrow> fresh_id m \<le> fresh_id m' \<and>
     (\<forall>k e. fmlookup (sessions m') k = Some e \<longrightarrow>
        fmlookup (sessions m) k = Some e \<or> fresh_id m \<le> e_id e)"

lemma task_ok_grows: "task_ok m t \<Longrightarrow> grows m m' \<Longrightarrow> task_ok m' t"
  by (fastforce simp: task_ok_def grows_def)

lemma grows_evict: "grows m (snd (evict c (purgeExpiredLeases cfg now m)))"
  unfolding grows_def evict_purge
  by (auto simp: evict_def Let_def split: option.splits if_splits)

lemma establish_locked_grows:
  assumes "mgr_inv cfg m" "establish_locked cfg env p mtu m = Some (r, m')"
  shows "grows m m'"
proof -
  let ?m2 = "snd (evict (sp_client p) (purgeExpiredLeases cfg (now_purge env) m))"
  have g: "grows m ?m2" by (rule grows_evict)
  have id: "fresh_id ?m2 = fresh_id m"
    using evict_inv(4) [OF purge_inv [OF assms(1)]] by simp
  from assms show ?thesis
  proof (cases rule: establish_locked_cases)
    case (ok k e m2 pl)
    then have m2: "m2 = ?m2" by blast
    have "e_id e = fresh_id m" using arg_cong [OF ok(9), of e_id] id m2 by simp
    then show ?thesis using g id unfolding ok(4) m2 by (auto simp: grows_def register_def)
  qed (use g in auto)
qed

lemma rollback_grows: "grows m (rollback c k e m)"
  by (auto simp: grows_def rollback_def)

lemma teardown_grows: "grows m (snd (teardown_locked k now m))"
  by (auto simp: grows_def teardown_locked_def split: option.splits)

lemma monitor_grows: "grows m (start_monitor cfg e m)"
  by (simp add: grows_def)

lemma list_all_without: "list_all P xs \<Longrightarrow> list_all P (without i xs)"
  by (auto simp: list_all_iff without_def dest: in_set_takeD in_set_dropD)

lemma list_all_update: "list_all P xs \<Longrightarrow> P x \<Longrightarrow> list_all P (xs[i := x])"
  by (auto simp: list_all_iff dest: set_update_subset_insert [THEN subsetD])

lemma list_all_nth': "list_all P xs \<Longrightarrow> i < length xs \<Longrightarrow> P (xs ! i)"
  by (simp add: list_all_length)

lemma task_ok_cong: "task_entry t = task_entry t' \<or> task_entry t = None \<Longrightarrow> task_ok m t' \<Longrightarrow> task_ok m t"
  by (auto simp: task_ok_def)

lemma all_grows: "list_all (task_ok m) ts \<Longrightarrow> grows m m' \<Longrightarrow> list_all (task_ok m') ts"
  by (auto simp: list_all_iff intro: task_ok_grows)

lemma world_inv_step:
  assumes "wstep cfg w w'" "world_inv cfg w"
  shows "world_inv cfg w'"
  using assms
proof (induction rule: wstep.induct)
  case (start env p w k e ev m')
  then have I: "mgr_inv cfg (wm w)" and ts: "list_all (task_ok (wm w)) (tasks w)"
    by (auto simp: world_inv_def)
  note I' = establish_locked_inv [OF I start(1)] and ent = establish_locked_entry(1) [OF I start(1)]
  have "task_ok m' (Evicting k e ev)"
    using mgr_registry(4) [OF I' ent] ent by (simp add: task_ok_def)
  then show ?case
    using I' all_grows [OF ts establish_locked_grows [OF I start(1)]] by (simp add: world_inv_def)
next
  case (refuse env p w err m')
  then have I: "mgr_inv cfg (wm w)" and ts: "list_all (task_ok (wm w)) (tasks w)"
    by (auto simp: world_inv_def)
  from establish_locked_inv [OF I refuse(1)] all_grows [OF ts establish_locked_grows [OF I refuse(1)]]
  show ?case by (simp add: world_inv_def)
next
  case (clamped i w k e)
  then show ?case
    using all_grows [OF _ monitor_grows, of "wm w" "tasks w" cfg e]
    by (auto simp: world_inv_def task_ok_def intro!: list_all_update)
next
  case (rolled i w k e)
  then have I: "mgr_inv cfg (wm w)" and ts: "list_all (task_ok (wm w)) (tasks w)"
    by (auto simp: world_inv_def)
  from list_all_nth' [OF ts rolled(1)] rolled(2)
  have "mgr_inv cfg (rollback (e_client e) k e (wm w))"
    by (intro rollback_inv I) (auto simp: task_ok_def)
  with all_grows [OF ts rollback_grows] show ?case by (simp add: world_inv_def list_all_without)
next
  case (down i w k e now e' m')
  then show ?case
    using teardown_inv [of cfg "wm w" k now] all_grows [OF _ teardown_grows, of "wm w" "tasks w" k now]
    by (auto simp: world_inv_def task_ok_def intro!: list_all_update)
next
  case (down_stale i w k e now m')
  then show ?case
    using teardown_inv [of cfg "wm w" k now] all_grows [OF _ teardown_grows, of "wm w" "tasks w" k now]
    by (auto simp: world_inv_def intro!: list_all_without)
qed (auto simp: world_inv_def list_all_without intro!: list_all_update
    intro: task_ok_cong [rotated, OF list_all_nth'])

interpretation world: transition_system "winit cfg" "wstep cfg" "world_inv cfg" for cfg
  by (unfold_locales, simp add: winit_def world_inv_def, rule world_inv_step)


section \<open>A race\<close>

definition race_entry :: "32 word \<Rightarrow> string \<Rightarrow> nat \<Rightarrow> entry" where
  "race_entry k n i = \<lparr>e_client = ''carol'', e_ifname = n, e_inner = V4 0x0a000003,
     e_outer = V4 0xcb007105, e_grekey = k, e_mtu = 1372, e_since = 100, e_id = i\<rparr>"

definition race_m1 :: manager where
  "race_m1 = snd (the (establish_locked demo_cfg (demo_env 7) (demo_params ''carol'') 1372 demo_mgr))"

definition race_m2 :: manager where
  "race_m2 = snd (the (establish_locked demo_cfg (demo_env 9) (demo_params ''carol'') 1372 race_m1))"

lemma race_start1:
  "map_option fst (establish_locked demo_cfg (demo_env 7) (demo_params ''carol'') 1372 demo_mgr)
    = Some (Inr (7, race_entry 7 ''grem7'' 0, None))"
  by code_simp

lemma race_start2:
  "map_option fst (establish_locked demo_cfg (demo_env 9) (demo_params ''carol'') 1372 race_m1)
    = Some (Inr (9, race_entry 9 ''grem9'' 1, Some (race_entry 7 ''grem7'' 0)))"
  by code_simp

lemma race_m2_sessions: "fmlookup (sessions race_m2) 7 = None"
    "fmlookup (sessions race_m2) 9 = Some (race_entry 9 ''grem9'' 1)"
    "fmdrop 9 (sessions race_m2) = fmempty"
  by code_simp+

lemma race_mtu: "est_mtu demo_cfg (demo_env k) (demo_params c) = 1372"
  by (simp add: est_mtu_def negotiateMTUWithServerOuter_def demo_cfg_def demo_env_def demo_params_def
      OverheadWithFOU_def minimumTunnelMTU_def)

lemma locked_witness: "map_option fst x = Some r \<Longrightarrow> x = Some (r, snd (the x))"
  by (cases x) auto

definition at :: "manager \<Rightarrow> task list \<Rightarrow> string set \<Rightarrow> world" where
  "at m ts ifs = \<lparr>wm = m, tasks = ts, ifaces = ifs\<rparr>"

lemma at_simps [simp]: "wm (at m ts ifs) = m" "tasks (at m ts ifs) = ts" "ifaces (at m ts ifs) = ifs"
  "(at m ts ifs)\<lparr>wm := m'\<rparr> = at m' ts ifs" "(at m ts ifs)\<lparr>tasks := ts'\<rparr> = at m ts' ifs"
  "(at m ts ifs)\<lparr>ifaces := ifs'\<rparr> = at m ts ifs'"
  by (simp_all add: at_def)

text \<open>
  Two connections of one client, both still provisioning: the second evicts the first, whose
  interface does not exist yet, and removes nothing; then the first creates it.
\<close>

lemma race_run:
  fixes e7 e9 defines "e7 \<equiv> race_entry 7 ''grem7'' 0" and "e9 \<equiv> race_entry 9 ''grem9'' 1"
  shows "(wstep demo_cfg)\<^sup>*\<^sup>* (at demo_mgr [] {})
    (at (start_monitor demo_cfg e9 (start_monitor demo_cfg e7 race_m2)) [Live 9 e9, Live 7 e7] {''grem7'', ''grem9''})"
proof -
  have names: "e_ifname e7 = ''grem7''" "e_ifname e9 = ''grem9''"
    by (simp_all add: e7_def e9_def race_entry_def)
  note start1 = locked_witness [OF race_start1, folded race_m1_def e7_def]
  note start2 = locked_witness [OF race_start2, folded race_m2_def e7_def e9_def]
  let ?s = "wstep demo_cfg" and ?m = "start_monitor demo_cfg e7 race_m2"
  let ?w2 = "at race_m2 [Evicting 9 e9 (Some e7), Evicting 7 e7 None] {}"
  let ?w3 = "at race_m2 [Ensuring 9 e9, Evicting 7 e7 None] {}"
  let ?w4 = "at race_m2 [Ensuring 9 e9, Ensuring 7 e7] {}"
  let ?w5 = "at race_m2 [Ensuring 9 e9, Clamping 7 e7] {''grem7''}"
  let ?w6 = "at ?m [Ensuring 9 e9, Live 7 e7] {''grem7''}"
  let ?w7 = "at ?m [Clamping 9 e9, Live 7 e7] {''grem9'', ''grem7''}"
  have s1: "?s (at demo_mgr [] {}) (at race_m1 [Evicting 7 e7 None] {})"
    using wstep.start [of demo_cfg "demo_env 7" "demo_params ''carol''" "at demo_mgr [] {}"] start1
    by (simp add: race_mtu)
  have s2: "?s (at race_m1 [Evicting 7 e7 None] {}) ?w2"
    using wstep.start [of demo_cfg "demo_env 9" "demo_params ''carol''" "at race_m1 [Evicting 7 e7 None] {}"]
      start2 by (simp add: race_mtu)
  have s3: "?s ?w2 ?w3" using wstep.evicted [of 0 ?w2 9 e9 "Some e7" demo_cfg] by simp
  have s4: "?s ?w3 ?w4" using wstep.evicted [of 1 ?w3 7 e7 None demo_cfg] by simp
  have s5: "?s ?w4 ?w5" using wstep.ensured [of 1 ?w4 7 e7 demo_cfg] names by simp
  have s6: "?s ?w5 ?w6" using wstep.clamped [of 1 ?w5 7 e7 demo_cfg] by simp
  have s7: "?s ?w6 ?w7" using wstep.ensured [of 0 ?w6 9 e9 demo_cfg] names by simp
  have s8: "?s ?w7 (at (start_monitor demo_cfg e9 ?m) [Live 9 e9, Live 7 e7] {''grem9'', ''grem7''})"
    using wstep.clamped [of 0 ?w7 9 e9 demo_cfg] by simp
  show ?thesis
    using s1 s2 s3 s4 s5 s6 s7 s8
    by (auto simp: insert_commute intro: converse_rtranclp_into_rtranclp)
qed

text \<open>
  C39. Two reconnects of one client that overlap leak an interface: there is a run at whose end
  every call has returned and no session is left, and the interface of the superseded
  connection still exists.
\<close>

theorem race_leaks_interface:
  "\<exists>w. (wstep demo_cfg)\<^sup>*\<^sup>* (at demo_mgr [] {}) w \<and> tasks w = [] \<and> sessions (wm w) = fmempty \<and>
     ifaces w = {''grem7''}"
proof -
  let ?e7 = "race_entry 7 ''grem7'' 0" and ?e9 = "race_entry 9 ''grem9'' 1"
  let ?m = "start_monitor demo_cfg ?e9 (start_monitor demo_cfg ?e7 race_m2)"
  let ?w0 = "at ?m [Live 9 ?e9, Live 7 ?e7] {''grem7'', ''grem9''}"
  let ?w1 = "at ?m [Live 9 ?e9] {''grem7'', ''grem9''}"
  let ?m2 = "snd (teardown_locked 9 200 ?m)"
  let ?w2 = "at ?m2 [Closing ?e9] {''grem7'', ''grem9''}"
  have td: "teardown_locked 7 200 ?m = (None, ?m)" "teardown_locked 9 200 ?m = (Some ?e9, ?m2)"
    "sessions ?m2 = fmempty"
    using race_m2_sessions by (simp_all add: teardown_locked_def)
  have "wstep demo_cfg ?w0 ?w1"
    using wstep.down_stale [of 1 ?w0 7 ?e7 200 ?m demo_cfg] td(1) by (simp add: without_def)
  moreover have "wstep demo_cfg ?w1 ?w2"
    using wstep.down [of 0 ?w1 9 ?e9 200 ?e9 ?m2 demo_cfg] td(2) by simp
  moreover have "e_ifname ?e9 = ''grem9''" by (simp add: race_entry_def)
  then have "wstep demo_cfg ?w2 (at ?m2 [] {''grem7''})"
    using wstep.closed [of 0 ?w2 ?e9 demo_cfg] by (simp add: without_def insert_Diff_if)
  ultimately have "(wstep demo_cfg)\<^sup>*\<^sup>* (at demo_mgr [] {}) (at ?m2 [] {''grem7''})"
    using race_run by (meson rtranclp.rtrancl_into_rtrancl)
  then show ?thesis using td(3) by (intro exI [of _ "at ?m2 [] {''grem7''}"]) simp
qed


end
