(* ===== verification/Hardening.thy ===== *)
theory Hardening
  imports Prelude
begin

text \<open>
  Package \<^verbatim>\<open>internal/hardening\<close> on Linux: the process attributes it tightens. Each system call may
  be denied, which is logged and otherwise ignored.
\<close>

record process =
  pr_umask :: nat
  pr_core :: "nat \<times> nat"
  pr_dumpable :: bool
  pr_no_new_privs :: bool
  pr_ambient :: "nat set"
  pr_bounding :: "nat set"

datatype syscall = Umask nat | SetCore nat nat | SetDumpable bool | NoNewPrivs | ClearAmbient | DropBounding nat

fun effect :: "syscall \<Rightarrow> process \<Rightarrow> process" where
  "effect (Umask m) p = p\<lparr>pr_umask := m\<rparr>"
| "effect (SetCore c h) p = p\<lparr>pr_core := (c, h)\<rparr>"
| "effect (SetDumpable b) p = p\<lparr>pr_dumpable := b\<rparr>"
| "effect NoNewPrivs p = p\<lparr>pr_no_new_privs := True\<rparr>"
| "effect ClearAmbient p = p\<lparr>pr_ambient := {}\<rparr>"
| "effect (DropBounding c) p = p\<lparr>pr_bounding := pr_bounding p - {c}\<rparr>"

definition CAP_NET_ADMIN :: nat where "CAP_NET_ADMIN = 12"
definition CAP_LAST_CAP :: nat where "CAP_LAST_CAP = 40"

text \<open>The capabilities dropped from the bounding set.\<close>

definition dropped_caps :: "nat list" where
  "dropped_caps = filter (\<lambda>c. c \<noteq> CAP_NET_ADMIN) [0..<Suc CAP_LAST_CAP]"

text \<open>The calls of \<^verbatim>\<open>Apply\<close> in order; 63 is the mask 077.\<close>

definition hardening_calls :: "syscall list" where
  "hardening_calls =
     [Umask 63, SetCore 0 0, SetDumpable False, NoNewPrivs, ClearAmbient] @
     map DropBounding dropped_caps"

text \<open>Whether a call is denied may depend on the state; the umask cannot fail.\<close>

definition is_umask :: "syscall \<Rightarrow> bool" where
  "is_umask c = (case c of Umask _ \<Rightarrow> True | _ \<Rightarrow> False)"

fun hardening_Apply :: "(syscall \<Rightarrow> process \<Rightarrow> bool) \<Rightarrow> syscall list \<Rightarrow> process \<Rightarrow> process" where
  "hardening_Apply denied [] p = p"
| "hardening_Apply denied (c # cs) p =
     hardening_Apply denied cs (if denied c p \<and> \<not> is_umask c then p else effect c p)"

definition no_looser :: "process \<Rightarrow> process \<Rightarrow> bool" where
  "no_looser p q \<longleftrightarrow> (pr_core q = pr_core p \<or> pr_core q = (0, 0)) \<and> (pr_dumpable q \<longrightarrow> pr_dumpable p) \<and>
     (pr_no_new_privs p \<longrightarrow> pr_no_new_privs q) \<and> pr_ambient q \<subseteq> pr_ambient p \<and>
     pr_bounding p \<inter> {CAP_NET_ADMIN} \<subseteq> pr_bounding q \<and> pr_bounding q \<subseteq> pr_bounding p"

lemma set_dropped_caps: "set dropped_caps = {0..CAP_LAST_CAP} - {CAP_NET_ADMIN}"
  by (auto simp: dropped_caps_def simp del: upt_Suc)

lemma no_looser_trans: "no_looser p q \<Longrightarrow> no_looser q r \<Longrightarrow> no_looser p r"
  by (auto simp: no_looser_def)

lemma call_no_looser: "c \<in> set hardening_calls \<Longrightarrow> no_looser p (effect c p)"
  by (auto simp: hardening_calls_def no_looser_def set_dropped_caps)

lemma hardening_no_looser: "set cs \<subseteq> set hardening_calls \<Longrightarrow> no_looser p (hardening_Apply denied cs p)"
proof (induction cs arbitrary: p)
  case (Cons c cs)
  let ?q = "if denied c p \<and> \<not> is_umask c then p else effect c p"
  have "no_looser p p" by (simp add: no_looser_def)
  then have "no_looser p ?q" using Cons.prems call_no_looser [of c p] by (simp split: if_split)
  moreover have "no_looser ?q (hardening_Apply denied cs ?q)" using Cons.IH [of ?q] Cons.prems by simp
  ultimately show ?case unfolding hardening_Apply.simps by (rule no_looser_trans)
qed (simp add: no_looser_def)

lemma hardening_all: "hardening_Apply (\<lambda>_ _. False) cs p = fold effect cs p"
  by (induction cs arbitrary: p) auto

lemma drops: "fold effect (map DropBounding xs) p = p\<lparr>pr_bounding := pr_bounding p - set xs\<rparr>"
  by (induction xs arbitrary: p) (simp_all flip: Diff_insert2)

lemma hardening_umask: "pr_umask (hardening_Apply denied hardening_calls p) = 63"
proof -
  have keep: "pr_umask (hardening_Apply denied cs q) = pr_umask q" if "\<forall>c \<in> set cs. \<not> is_umask c" for cs q
    using that
  proof (induction cs arbitrary: q)
    case (Cons c cs)
    then show ?case by (cases c) (simp_all add: is_umask_def)
  qed simp
  show ?thesis by (simp add: hardening_calls_def keep is_umask_def)
qed

text \<open>
  Hardening is best effort: whatever calls are denied, it loosens nothing and never gives up the
  one capability the daemon needs; and when none is denied, new files are private, core dumps and
  tracing are off, and of the known capabilities a later exec can gain only that one.
\<close>

theorem hardening_tightens:
  "no_looser p (hardening_Apply denied hardening_calls p) \<and>
   hardening_Apply (\<lambda>_ _. False) hardening_calls p =
     \<lparr>pr_umask = 63, pr_core = (0, 0), pr_dumpable = False, pr_no_new_privs = True, pr_ambient = {},
      pr_bounding = pr_bounding p - ({0..CAP_LAST_CAP} - {CAP_NET_ADMIN})\<rparr>"
proof
  show "no_looser p (hardening_Apply denied hardening_calls p)" by (rule hardening_no_looser) simp
  show "hardening_Apply (\<lambda>_ _. False) hardening_calls p =
     \<lparr>pr_umask = 63, pr_core = (0, 0), pr_dumpable = False, pr_no_new_privs = True, pr_ambient = {},
      pr_bounding = pr_bounding p - ({0..CAP_LAST_CAP} - {CAP_NET_ADMIN})\<rparr>"
    unfolding hardening_all hardening_calls_def fold_append comp_apply drops set_dropped_caps by simp
qed

end
