(* ===== verification/Unix_Socket.thy ===== *)
theory Unix_Socket
  imports Hardening Netip_Text
begin

text \<open>
  The life of a unix socket in the file system. \<^verbatim>\<open>admin.ServeWithOptions\<close> and
  \<^verbatim>\<open>provisionrpc.Server.Serve\<close> prepare their sockets by the same steps: remove a stale socket,
  listen, set the group, set the mode. The object at the path is followed through every system
  call, each of which may fail.
\<close>

section \<open>The path and the system\<close>

text \<open>What is at the path: nothing, a socket with its mode and the group it was given, or something else.\<close>

datatype node = Absent | Socket int "int option" | Foreign

text \<open>
  The answers of the system: the error of \<^verbatim>\<open>Lstat\<close> other than absence, of \<^verbatim>\<open>Remove\<close>, of \<^verbatim>\<open>Listen\<close>,
  of \<^verbatim>\<open>Chown\<close> and of \<^verbatim>\<open>Chmod\<close>, the text of the id of a group, and the error of the removals
  that clean up, which the code ignores.
\<close>

record sock_sys =
  ss_lstat :: "string option"
  ss_remove :: "string option"
  ss_listen :: "string option"
  ss_lookup :: "string \<Rightarrow> (string, string) result"
  ss_chown :: "string option"
  ss_chmod :: "string option"
  ss_unlink :: "string option"

datatype sock_error =
    NotSocket
  | RemoveStale string
  | StatFailed string
  | ListenFailed string
  | LookupGroup string
  | ParseGid string
  | ChownFailed string
  | ChmodFailed string

text \<open>\<^verbatim>\<open>strconv.Atoi\<close>: an optional sign and decimal digits, in the range of a 64-bit integer.\<close>

definition atoi :: "string \<Rightarrow> int option" where
  "atoi s =
     (let neg = (s \<noteq> [] \<and> hd s = CHR ''-'');
          ds = (if s \<noteq> [] \<and> (hd s = CHR ''-'' \<or> hd s = CHR ''+'') then tl s else s)
      in if \<not> all_digits ds then None
         else let n = int (number_of ds) in
           if neg then if n \<le> 2 ^ 63 then Some (- n) else None
           else if n < 2 ^ 63 then Some n else None)"

text \<open>Binding a socket gives it all permissions that the umask does not withhold; an id of -1 leaves the group.\<close>

definition bind_mode :: "nat \<Rightarrow> int" where
  "bind_mode umask = 511 AND NOT (int umask)"

fun chown_node :: "int \<Rightarrow> node \<Rightarrow> node" where
  "chown_node gid (Socket m g) = Socket m (if gid = -1 then g else Some gid)"
| "chown_node gid n = n"

fun chmod_node :: "int \<Rightarrow> node \<Rightarrow> node" where
  "chmod_node mode (Socket m g) = Socket mode g"
| "chmod_node mode n = n"

section \<open>Preparing a socket\<close>

text \<open>Each function gives the error, if any, and the states of the path after its calls, the last one last.\<close>

definition removeStaleSocket :: "sock_sys \<Rightarrow> node \<Rightarrow> sock_error option \<times> node list" where
  "removeStaleSocket sys n =
     (case ss_lstat sys of
        Some e \<Rightarrow> (Some (StatFailed e), [])
      | None \<Rightarrow>
          (case n of
             Absent \<Rightarrow> (None, [])
           | Foreign \<Rightarrow> (Some NotSocket, [])
           | Socket _ _ \<Rightarrow> (case ss_remove sys of Some e \<Rightarrow> (Some (RemoveStale e), []) | None \<Rightarrow> (None, [Absent]))))"

text \<open>Closing the listener and removing the socket after a failure.\<close>

definition give_up :: "sock_sys \<Rightarrow> sock_error \<Rightarrow> node \<Rightarrow> sock_error option \<times> node list" where
  "give_up sys e n = (Some e, [if ss_unlink sys = None then Absent else n])"

definition set_group :: "sock_sys \<Rightarrow> string \<Rightarrow> node \<Rightarrow> sock_error option \<times> node list" where
  "set_group sys grp n =
     (if grp = '''' then (None, [])
      else case ss_lookup sys grp of
        Inl e \<Rightarrow> give_up sys (LookupGroup e) n
      | Inr gid \<Rightarrow>
          (case atoi gid of
             None \<Rightarrow> give_up sys (ParseGid gid) n
           | Some g \<Rightarrow>
               (case ss_chown sys of
                  Some e \<Rightarrow> give_up sys (ChownFailed e) n
                | None \<Rightarrow> (None, [chown_node g n]))))"

definition set_mode :: "sock_sys \<Rightarrow> int \<Rightarrow> node \<Rightarrow> sock_error option \<times> node list" where
  "set_mode sys mode n =
     (case ss_chmod sys of Some e \<Rightarrow> give_up sys (ChmodFailed e) n | None \<Rightarrow> (None, [chmod_node mode n]))"

definition listen_socket :: "sock_sys \<Rightarrow> nat \<Rightarrow> sock_error option \<times> node list" where
  "listen_socket sys umask =
     (case ss_listen sys of Some e \<Rightarrow> (Some (ListenFailed e), []) | None \<Rightarrow> (None, [Socket (bind_mode umask) None]))"

text \<open>One step after another on the path as the steps before left it, until one fails.\<close>

fun in_turn :: "(node \<Rightarrow> 'e option \<times> node list) list \<Rightarrow> node \<Rightarrow> 'e option \<times> node list" where
  "in_turn [] n = (None, [])"
| "in_turn (f # fs) n =
     (case f n of
        (Some e, h) \<Rightarrow> (Some e, h)
      | (None, h) \<Rightarrow> (case in_turn fs (last (n # h)) of (r, h') \<Rightarrow> (r, h @ h')))"

definition open_socket :: "sock_sys \<Rightarrow> nat \<Rightarrow> int \<Rightarrow> string \<Rightarrow> node \<Rightarrow> sock_error option \<times> node list" where
  "open_socket sys umask mode grp =
     in_turn [removeStaleSocket sys, \<lambda>_. listen_socket sys umask, set_group sys grp, set_mode sys mode]"

text \<open>When the context is cancelled the listener is closed and the socket removed, if it is still one.\<close>

definition close_socket :: "sock_sys \<Rightarrow> node \<Rightarrow> node" where
  "close_socket sys n =
     (case n of Socket _ _ \<Rightarrow> if ss_lstat sys = None \<and> ss_unlink sys = None then Absent else n | _ \<Rightarrow> n)"

section \<open>What others can see of it\<close>

text \<open>A socket that only its owner can use, and one with exactly the mode and the group asked for.\<close>

definition private_mode :: "int \<Rightarrow> bool" where
  "private_mode m \<longleftrightarrow> m AND 63 = 0"

definition group_given :: "sock_sys \<Rightarrow> string \<Rightarrow> int option \<Rightarrow> bool" where
  "group_given sys grp g \<longleftrightarrow>
     (if grp = '''' then g = None
      else \<exists>gid i. ss_lookup sys grp = Inr gid \<and> atoi gid = Some i \<and> g = (if i = -1 then None else Some i))"

lemma bind_mode_private: "private_mode (bind_mode 63)"
  by (simp add: private_mode_def bind_mode_def)

lemma set_group_result:
  "set_group sys grp (Socket m None) = (r, h) \<Longrightarrow>
     (r = None \<longrightarrow> (\<exists>g. last (Socket m None # h) = Socket m g \<and> group_given sys grp g) \<and> (\<forall>s \<in> set h. \<exists>g. s = Socket m g)) \<and>
     (r \<noteq> None \<longrightarrow> h = [if ss_unlink sys = None then Absent else Socket m None])"
  by (auto simp: set_group_def give_up_def group_given_def split: if_splits sum.splits option.splits)

text \<open>The states of the path after the first, and how it ends.\<close>

lemma open_socket_states:
  assumes "open_socket sys umask mode grp n = (r, h)"
  shows "s \<in> set h \<Longrightarrow> s = Absent \<or> (\<exists>g. s = Socket (bind_mode umask) g) \<or> (\<exists>g. s = Socket mode g \<and> group_given sys grp g)"
    and "n = Foreign \<Longrightarrow> h = [] \<and> r \<noteq> None"
    and "r = None \<Longrightarrow> \<exists>g. last (n # h) = Socket mode g \<and> group_given sys grp g"
    and "r \<noteq> None \<Longrightarrow> ss_unlink sys = None \<Longrightarrow> last (n # h) = n \<or> last (n # h) = Absent"
proof -
  obtain rg hg where g: "set_group sys grp (Socket (bind_mode umask) None) = (rg, hg)" by force
  note sg = set_group_result [OF g]
  show "n = Foreign \<Longrightarrow> h = [] \<and> r \<noteq> None"
    using assms by (auto simp: open_socket_def removeStaleSocket_def split: option.splits)
  have "(s \<in> set h \<longrightarrow> s = Absent \<or> (\<exists>g. s = Socket (bind_mode umask) g) \<or> (\<exists>g. s = Socket mode g \<and> group_given sys grp g)) \<and>
    (r = None \<longrightarrow> (\<exists>g. last (n # h) = Socket mode g \<and> group_given sys grp g)) \<and>
    (r \<noteq> None \<longrightarrow> ss_unlink sys = None \<longrightarrow> last (n # h) = n \<or> last (n # h) = Absent)" for s
    using assms g sg
    by (cases n; cases rg)
      (auto simp: open_socket_def removeStaleSocket_def listen_socket_def set_mode_def give_up_def split: option.splits if_splits)
  then show "s \<in> set h \<Longrightarrow> s = Absent \<or> (\<exists>g. s = Socket (bind_mode umask) g) \<or> (\<exists>g. s = Socket mode g \<and> group_given sys grp g)"
    "r = None \<Longrightarrow> \<exists>g. last (n # h) = Socket mode g \<and> group_given sys grp g"
    "r \<noteq> None \<Longrightarrow> ss_unlink sys = None \<Longrightarrow> last (n # h) = n \<or> last (n # h) = Absent" by blast+
qed

text \<open>How a socket may be used by a process: at no time is it open to more than the owner, the mode and group asked for apart.\<close>

definition well_kept :: "sock_sys \<Rightarrow> int \<Rightarrow> string \<Rightarrow> node \<Rightarrow> bool \<Rightarrow> node list \<Rightarrow> bool" where
  "well_kept sys mode grp n failed h \<longleftrightarrow>
     (\<forall>m g. Socket m g \<in> set h \<longrightarrow> private_mode m \<or> m = mode \<and> group_given sys grp g) \<and>
     (n = Foreign \<longrightarrow> h = [] \<and> failed) \<and>
     (\<not> failed \<longrightarrow> (\<exists>g. last (n # h) = Socket mode g \<and> group_given sys grp g)) \<and>
     (failed \<and> ss_unlink sys = None \<longrightarrow> last (n # h) = n \<or> last (n # h) = Absent)"

lemma open_socket_well_kept:
  assumes "open_socket sys 63 mode grp n = (r, h)"
  shows "well_kept sys mode grp n (r \<noteq> None) h"
  using open_socket_states [OF assms] bind_mode_private unfolding well_kept_def by blast

text \<open>When no call fails and the path is free or a stale socket, the socket comes up.\<close>

definition sock_ok :: "sock_sys \<Rightarrow> string \<Rightarrow> node \<Rightarrow> bool" where
  "sock_ok sys grp n \<longleftrightarrow> ss_lstat sys = None \<and> ss_remove sys = None \<and> ss_listen sys = None \<and>
     ss_chown sys = None \<and> ss_chmod sys = None \<and> n \<noteq> Foreign \<and>
     (grp = '''' \<or> (case ss_lookup sys grp of Inl _ \<Rightarrow> False | Inr gid \<Rightarrow> atoi gid \<noteq> None))"

lemma open_socket_ok: "sock_ok sys grp n \<Longrightarrow> fst (open_socket sys umask mode grp n) = None"
  by (cases n)
    (auto simp: sock_ok_def open_socket_def removeStaleSocket_def listen_socket_def set_group_def set_mode_def
      split: sum.splits option.splits prod.splits)

section \<open>The accept loop\<close>

text \<open>
  What \<^verbatim>\<open>Accept\<close> returns, and for an error whether the context is cancelled by then. Every
  connection is handed to its own goroutine; the loop is observed for finitely many rounds.
\<close>

datatype 'c accept = Accepted 'c | AcceptFailed string bool

datatype serve_end = StillServing | ServingCancelled | ServingFailed string

fun accept_loop :: "'c accept list \<Rightarrow> 'c list \<times> serve_end" where
  "accept_loop [] = ([], StillServing)"
| "accept_loop (Accepted c # rs) = (case accept_loop rs of (cs, e) \<Rightarrow> (c # cs, e))"
| "accept_loop (AcceptFailed err cancelled # rs) = ([], if cancelled then ServingCancelled else ServingFailed err)"

end
