(* ===== verification/Broker.thy ===== *)
theory Broker
  imports Names Link Unix_Socket
begin

text \<open>
  Package \<^verbatim>\<open>internal/provisionrpc\<close>: the privileged broker that creates and removes tunnel
  interfaces for the daemon over a local socket, and the client the daemon uses. A request is
  taken as decoded by \<^verbatim>\<open>encoding/json\<close>; the netlink backend is an argument: what its calls
  would return. The calls the broker really makes are returned in order.
\<close>

section \<open>Requests, state and backend\<close>

record request =
  rq_op :: string
  rq_params :: gre_params
  rq_name :: string
  rq_local :: addr
  rq_remote :: addr

record response =
  rs_mtu :: int
  rs_error :: string

record broker =
  br_local :: addr
  br_allow :: "string fset"
  br_created :: "string fset"

text \<open>The answers of the backend; an error is its text.\<close>

record backend =
  be_ensure :: "gre_params \<Rightarrow> string option"
  be_remove :: "string \<Rightarrow> string option"
  be_mtu :: "addr \<Rightarrow> string + int"
  be_path :: "addr \<Rightarrow> addr \<Rightarrow> string + int"

datatype call = CallEnsure gre_params | CallRemove string

section \<open>Validation\<close>

definition validateName :: "broker \<Rightarrow> string \<Rightarrow> string option" where
  "validateName b name =
     (if validateGremName name then None
      else if name |\<in>| br_allow b \<and> ValidName name then None
      else Some ''invalid interface name'')"

definition validateParams :: "broker \<Rightarrow> gre_params \<Rightarrow> string option" where
  "validateParams b p =
     (case validateName b (gp_name p) of Some e \<Rightarrow> Some e | None \<Rightarrow>
      if \<not> is_valid (gp_local p) \<or> \<not> is_valid (gp_remote p) \<or> is6 (gp_local p) \<noteq> is6 (gp_remote p)
      then Some ''invalid outer endpoints''
      else if is_multicast (gp_local p) \<or> is_multicast (gp_remote p) \<or>
              is_unspecified (gp_local p) \<or> is_unspecified (gp_remote p)
      then Some ''invalid outer endpoints''
      else if is_valid (br_local b) \<and> gp_local p \<noteq> br_local b
      then Some ''outer local address not allowed''
      else if \<not> is_valid (gp_inner_local p) \<or> is_multicast (gp_inner_local p) \<or> is_unspecified (gp_inner_local p)
      then Some ''invalid inner local address''
      else if is_valid (gp_inner_peer p) \<and> (is_multicast (gp_inner_peer p) \<or> is_unspecified (gp_inner_peer p))
      then Some ''invalid inner peer address''
      else if is_valid (gp_inner_peer p) \<and> is6 (gp_inner_local p) \<noteq> is6 (gp_inner_peer p)
      then Some ''inner address families differ''
      else if is_valid (gp_linklocal p) \<and> (\<not> is6 (gp_linklocal p) \<or> \<not> is_link_local_unicast (gp_linklocal p))
      then Some ''invalid link-local address''
      else if gp_mtu p < 576 \<or> 65535 < gp_mtu p then Some ''invalid mtu''
      else None)"

section \<open>The handler\<close>

definition markCreated :: "string \<Rightarrow> broker \<Rightarrow> broker" where
  "markCreated n b = b\<lparr>br_created := finsert n (br_created b)\<rparr>"

definition wasCreated :: "string \<Rightarrow> broker \<Rightarrow> bool" where
  "wasCreated n b \<longleftrightarrow> n |\<in>| br_created b"

definition markRemoved :: "string \<Rightarrow> broker \<Rightarrow> broker" where
  "markRemoved n b = b\<lparr>br_created := br_created b |-| {|n|}\<rparr>"

definition reply_error :: "string \<Rightarrow> response" where
  "reply_error e = \<lparr>rs_mtu = 0, rs_error = e\<rparr>"

definition reply_mtu :: "string + int \<Rightarrow> response" where
  "reply_mtu r = (case r of Inl e \<Rightarrow> reply_error e | Inr m \<Rightarrow> \<lparr>rs_mtu = m, rs_error = ''''\<rparr>)"

definition reply_ok :: response where
  "reply_ok = \<lparr>rs_mtu = 0, rs_error = ''''\<rparr>"

definition handle_ensure :: "backend \<Rightarrow> gre_params \<Rightarrow> broker \<Rightarrow> response \<times> broker \<times> call list" where
  "handle_ensure be p b =
     (case validateParams b p of
        Some e \<Rightarrow> (reply_error e, b, [])
      | None \<Rightarrow>
          (case be_ensure be p of
             Some e \<Rightarrow> (reply_error e, b, [CallEnsure p])
           | None \<Rightarrow> (reply_ok, markCreated (gp_name p) b, [CallEnsure p])))"

definition handle_remove :: "backend \<Rightarrow> string \<Rightarrow> broker \<Rightarrow> response \<times> broker \<times> call list" where
  "handle_remove be n b =
     (case validateName b n of
        Some e \<Rightarrow> (reply_error e, b, [])
      | None \<Rightarrow>
          if \<not> wasCreated n b
          then (reply_error ''refusing to remove interface not created by this broker'', b, [])
          else (case be_remove be n of
                  Some e \<Rightarrow> (reply_error e, b, [CallRemove n])
                | None \<Rightarrow> (reply_ok, markRemoved n b, [CallRemove n])))"

definition handle_outer_mtu :: "backend \<Rightarrow> addr \<Rightarrow> addr \<Rightarrow> broker \<Rightarrow> response" where
  "handle_outer_mtu be l r b =
     (if \<not> is_valid l \<or> is_multicast l \<or> is_unspecified l then reply_error ''invalid local address''
      else if is_valid (br_local b) \<and> l \<noteq> br_local b then reply_error ''local address not allowed''
      else if is_valid r
      then if is_multicast r \<or> is_unspecified r \<or> is6 r \<noteq> is6 l
           then reply_error ''invalid remote address''
           else reply_mtu (be_path be l r)
      else reply_mtu (be_mtu be l))"

text \<open>\<^verbatim>\<open>Server.handle\<close>, on a decoded request or the text of the decoding error.\<close>

definition broker_handle :: "backend \<Rightarrow> string + request \<Rightarrow> broker \<Rightarrow> response \<times> broker \<times> call list" where
  "broker_handle be dec b =
     (case dec of
        Inl e \<Rightarrow> (reply_error (''decode request: '' @ e), b, [])
      | Inr rq \<Rightarrow>
          if rq_op rq = ''ensure'' then handle_ensure be (rq_params rq) b
          else if rq_op rq = ''remove'' then handle_remove be (rq_name rq) b
          else if rq_op rq = ''outer_mtu''
          then (handle_outer_mtu be (rq_local rq) (rq_remote rq) b, b, [])
          else (reply_error ''unknown operation'', b, []))"

section \<open>Starting the broker\<close>

datatype serve_error =
    MissingProvisioner
  | InvalidAllowedName string
  | SocketFailed sock_error

text \<open>The part of \<^verbatim>\<open>Serve\<close> that prepares the state: the names allowed must be valid.\<close>

definition serve_init :: "bool \<Rightarrow> addr \<Rightarrow> string list \<Rightarrow> (serve_error, broker) result" where
  "serve_init has_prov local names =
     (if \<not> has_prov then Inl MissingProvisioner
      else case find (\<lambda>n. \<not> ValidName n) names of
        Some n \<Rightarrow> Inl (InvalidAllowedName n)
      | None \<Rightarrow> Inr \<lparr>br_local = local, br_allow = fset_of_list names, br_created = {||}\<rparr>)"

text \<open>\<^verbatim>\<open>Serve\<close> up to its accept loop; the umask is that of the process.\<close>

definition broker_serve ::
  "sock_sys \<Rightarrow> nat \<Rightarrow> bool \<Rightarrow> addr \<Rightarrow> string list \<Rightarrow> int \<Rightarrow> string \<Rightarrow> node \<Rightarrow> (serve_error, broker) result \<times> node list" where
  "broker_serve sys umask has_prov local names mode grp n =
     (case serve_init has_prov local names of
        Inl e \<Rightarrow> (Inl e, [])
      | Inr b \<Rightarrow>
          (case open_socket sys umask (if mode = 0 then 384 else mode) grp n of
             (Some e, h) \<Rightarrow> (Inl (SocketFailed e), h)
           | (None, h) \<Rightarrow> (Inr b, h)))"

section \<open>The client\<close>

text \<open>
  \<^verbatim>\<open>Client.call\<close>: \<open>transport\<close> is what dialling, writing and reading yield for a request, an error
  or the response of the broker.
\<close>

definition client_call :: "(request \<Rightarrow> string + response) \<Rightarrow> request \<Rightarrow> string + response" where
  "client_call transport rq =
     (case transport rq of
        Inl e \<Rightarrow> Inl e
      | Inr rs \<Rightarrow> if rs_error rs \<noteq> '''' then Inl (rs_error rs) else Inr rs)"

definition zero_params :: gre_params where
  "zero_params = \<lparr>gp_name = '''', gp_local = AddrZero, gp_remote = AddrZero, gp_key = 0, gp_seq = False,
     gp_mtu = 0, gp_hoplimit = 0, gp_inner_local = AddrZero, gp_inner_peer = AddrZero,
     gp_linklocal = AddrZero, gp_fou_sport = 0, gp_fou_dport = 0\<rparr>"

definition zero_request :: request where
  "zero_request = \<lparr>rq_op = '''', rq_params = zero_params, rq_name = '''', rq_local = AddrZero, rq_remote = AddrZero\<rparr>"

definition err_of :: "string + 'a \<Rightarrow> string option" where
  "err_of r = (case r of Inl e \<Rightarrow> Some e | Inr _ \<Rightarrow> None)"

definition client_ensure :: "(request \<Rightarrow> string + response) \<Rightarrow> gre_params \<Rightarrow> string option" where
  "client_ensure tr p = err_of (client_call tr (zero_request\<lparr>rq_op := ''ensure'', rq_params := p\<rparr>))"

definition client_remove :: "(request \<Rightarrow> string + response) \<Rightarrow> string \<Rightarrow> string option" where
  "client_remove tr n = err_of (client_call tr (zero_request\<lparr>rq_op := ''remove'', rq_name := n\<rparr>))"

definition client_outer_mtu :: "(request \<Rightarrow> string + response) \<Rightarrow> addr \<Rightarrow> string + int" where
  "client_outer_mtu tr l =
     map_sum id rs_mtu (client_call tr (zero_request\<lparr>rq_op := ''outer_mtu'', rq_local := l\<rparr>))"

definition client_outer_mtu_path :: "(request \<Rightarrow> string + response) \<Rightarrow> addr \<Rightarrow> addr \<Rightarrow> string + int" where
  "client_outer_mtu_path tr l r =
     map_sum id rs_mtu (client_call tr (zero_request\<lparr>rq_op := ''outer_mtu'', rq_local := l, rq_remote := r\<rparr>))"

section \<open>Confinement\<close>

text \<open>The names the broker may ever touch.\<close>

definition permitted :: "broker \<Rightarrow> string \<Rightarrow> bool" where
  "permitted b n \<longleftrightarrow> (IsGeneratedName n \<or> n |\<in>| br_allow b) \<and> ValidName n"

lemma generated_valid:
  assumes "IsGeneratedName n" "length n \<le> 15"
  shows "ValidName n"
proof -
  from assms(1) obtain rest where n: "n = ''grem'' @ rest" "\<forall>c \<in> set rest. is_hex (ord c)"
    by (auto simp: IsGeneratedName_iff)
  have "is_alnum (ord c)" if "c \<in> set n" for c
  proof -
    from that n have "c \<in> set ''grem'' \<or> is_hex (ord c)" by auto
    then show ?thesis by (auto simp: rune_class_defs)
  qed
  moreover have "0 < length n" using n(1) by simp
  ultimately show ?thesis
    using assms(2) unfolding ValidName_iff name_rune_def by (auto simp del: One_nat_def)
qed

lemma validateName_iff: "validateName b n = None \<longleftrightarrow> permitted b n"
proof -
  have "ValidName n \<Longrightarrow> length n \<le> 15" by (simp add: ValidName_iff)
  then show ?thesis
    using generated_valid [of n] by (auto simp: validateName_def validateGremName_iff permitted_def)
qed

text \<open>What a valid request asks for.\<close>

definition params_ok :: "broker \<Rightarrow> gre_params \<Rightarrow> bool" where
  "params_ok b p \<longleftrightarrow> permitted b (gp_name p) \<and>
     is_valid (gp_local p) \<and> is_valid (gp_remote p) \<and> is6 (gp_local p) = is6 (gp_remote p) \<and>
     \<not> is_multicast (gp_local p) \<and> \<not> is_multicast (gp_remote p) \<and>
     \<not> is_unspecified (gp_local p) \<and> \<not> is_unspecified (gp_remote p) \<and>
     (is_valid (br_local b) \<longrightarrow> gp_local p = br_local b) \<and>
     is_valid (gp_inner_local p) \<and> \<not> is_multicast (gp_inner_local p) \<and> \<not> is_unspecified (gp_inner_local p) \<and>
     (is_valid (gp_inner_peer p) \<longrightarrow> \<not> is_multicast (gp_inner_peer p) \<and> \<not> is_unspecified (gp_inner_peer p) \<and>
        is6 (gp_inner_local p) = is6 (gp_inner_peer p)) \<and>
     (is_valid (gp_linklocal p) \<longrightarrow> is6 (gp_linklocal p) \<and> is_link_local_unicast (gp_linklocal p)) \<and>
     576 \<le> gp_mtu p \<and> gp_mtu p \<le> 65535"

lemma validateParams_iff: "validateParams b p = None \<longleftrightarrow> params_ok b p"
  unfolding params_ok_def validateName_iff [symmetric]
  by (cases "validateName b (gp_name p)") (auto simp: validateParams_def)

lemma params_ok_cong: "br_local b' = br_local b \<Longrightarrow> br_allow b' = br_allow b \<Longrightarrow> params_ok b' = params_ok b"
  "br_allow b' = br_allow b \<Longrightarrow> permitted b' = permitted b"
  by (auto simp: params_ok_def permitted_def fun_eq_iff)

text \<open>
  C15. The daemon sees the broker as the backend behind a filter: provisioning through the
  client succeeds exactly when the parameters are valid and the backend accepts them, and a
  removal exactly when the broker created the interface and the backend removes it (error
  texts of the backend are not empty).
\<close>

theorem broker_client:
  assumes "be_ensure be p \<noteq> Some ''''" and "be_remove be n \<noteq> Some ''''"
    and "\<And>rq. tr rq = Inr (fst (broker_handle be (Inr rq) b))"
  shows "(client_ensure tr p = None \<longleftrightarrow> params_ok b p \<and> be_ensure be p = None) \<and>
    (client_remove tr n = None \<longleftrightarrow> permitted b n \<and> n |\<in>| br_created b \<and> be_remove be n = None)"
proof -
  have "validateParams b p \<noteq> Some ''''" "validateName b n \<noteq> Some ''''"
    by (auto simp: validateParams_def validateName_def split: option.splits)
  then show ?thesis
    using assms validateParams_iff [of b p] validateName_iff [of b n]
    by (auto simp: client_ensure_def client_remove_def client_call_def err_of_def broker_handle_def
        handle_ensure_def handle_remove_def reply_error_def reply_ok_def wasCreated_def
        split: option.splits if_splits)
qed

section \<open>Witnesses\<close>

definition demo_ensure :: gre_params where
  "demo_ensure = zero_params\<lparr>gp_name := ''grem7'', gp_local := V4 0xc0000201, gp_remote := V4 0xcb007105,
     gp_mtu := 1400, gp_inner_local := V4 0x0a000001, gp_inner_peer := V4 0x0a000002\<rparr>"

definition demo_backend :: backend where
  "demo_backend = \<lparr>be_ensure = \<lambda>_. None, be_remove = \<lambda>_. None, be_mtu = \<lambda>_. Inr 1500, be_path = \<lambda>_ _. Inr 1500\<rparr>"

definition demo_broker :: broker where
  "demo_broker = \<lparr>br_local = V4 0xc0000201, br_allow = {||}, br_created = {||}\<rparr>"

lemma demo_broker_init: "serve_init True (V4 0xc0000201) [] = Inr demo_broker"
  by (simp add: serve_init_def demo_broker_def)

theorem broker_client_witness:
  "client_ensure (\<lambda>rq. Inr (fst (broker_handle demo_backend (Inr rq) demo_broker))) demo_ensure = None \<longleftrightarrow>
     params_ok demo_broker demo_ensure"
proof -
  have "be_ensure demo_backend demo_ensure = None" "be_remove demo_backend ''x'' = None"
    by (simp_all add: demo_backend_def)
  then show ?thesis
    using broker_client [of demo_backend demo_ensure "''x''" "\<lambda>rq. Inr (fst (broker_handle demo_backend (Inr rq) demo_broker))"]
    by simp
qed

end
