(* ===== verification/Broker_Steps.thy ===== *)
theory Broker_Steps
  imports Broker "HOL-Library.Multiset"
begin

text \<open>
  The broker under concurrent requests: \<^verbatim>\<open>Serve\<close> gives every connection to its own goroutine, and
  only the accesses to the ledger of created interfaces are under a mutex. A handler is therefore
  a sequence of steps, between which other handlers run.
\<close>

section \<open>Handlers in progress\<close>

text \<open>
  Where a handler stands between two of its steps: its interface is created and not yet in the
  ledger; its name was found in the ledger; its interface is removed and still in the ledger.
  A handler that is before its first step or has only its reply left to send is not listed.
\<close>

datatype phase = Ensured string | Checked string | Removed string

record bworld =
  bw_broker :: broker
  bw_flight :: "phase multiset"
  bw_calls :: "call list"

inductive bstep :: "bworld \<Rightarrow> bworld \<Rightarrow> bool" where
  ensure_failed: "validateParams (bw_broker w) p = None \<Longrightarrow>
     bstep w (w\<lparr>bw_calls := bw_calls w @ [CallEnsure p]\<rparr>)"
| ensure: "validateParams (bw_broker w) p = None \<Longrightarrow>
     bstep w (w\<lparr>bw_calls := bw_calls w @ [CallEnsure p], bw_flight := add_mset (Ensured (gp_name p)) (bw_flight w)\<rparr>)"
| mark: "Ensured n \<in># bw_flight w \<Longrightarrow>
     bstep w (w\<lparr>bw_broker := markCreated n (bw_broker w), bw_flight := bw_flight w - {#Ensured n#}\<rparr>)"
| check: "validateName (bw_broker w) n = None \<Longrightarrow> wasCreated n (bw_broker w) \<Longrightarrow>
     bstep w (w\<lparr>bw_flight := add_mset (Checked n) (bw_flight w)\<rparr>)"
| remove_failed: "Checked n \<in># bw_flight w \<Longrightarrow>
     bstep w (w\<lparr>bw_calls := bw_calls w @ [CallRemove n], bw_flight := bw_flight w - {#Checked n#}\<rparr>)"
| remove: "Checked n \<in># bw_flight w \<Longrightarrow>
     bstep w (w\<lparr>bw_calls := bw_calls w @ [CallRemove n],
       bw_flight := add_mset (Removed n) (bw_flight w - {#Checked n#})\<rparr>)"
| unmark: "Removed n \<in># bw_flight w \<Longrightarrow>
     bstep w (w\<lparr>bw_broker := markRemoved n (bw_broker w), bw_flight := bw_flight w - {#Removed n#}\<rparr>)"

definition bstart :: "broker \<Rightarrow> bworld \<Rightarrow> bool" where
  "bstart b w \<longleftrightarrow> w = \<lparr>bw_broker = b, bw_flight = {#}, bw_calls = []\<rparr>"

section \<open>A handler alone\<close>

lemma bstep_then: "bstep w w' \<Longrightarrow> bstep\<^sup>*\<^sup>* w' w'' \<Longrightarrow> bstep\<^sup>*\<^sup>* w w''"
  by (rule converse_rtranclp_into_rtranclp)

text \<open>The handler of theory \<^verbatim>\<open>Broker\<close>, run without interference, is a sequence of these steps.\<close>

lemma handle_steps:
  assumes "broker_handle be dec b = (rs, b', cs)"
  shows "bstep\<^sup>*\<^sup>* \<lparr>bw_broker = b, bw_flight = F, bw_calls = C\<rparr> \<lparr>bw_broker = b', bw_flight = F, bw_calls = C @ cs\<rparr>"
proof -
  let ?w = "\<lparr>bw_broker = b, bw_flight = F, bw_calls = C\<rparr>"
  have ens: "bstep\<^sup>*\<^sup>* ?w (?w\<lparr>bw_calls := C @ [CallEnsure p]\<rparr>)"
    "bstep\<^sup>*\<^sup>* ?w (?w\<lparr>bw_calls := C @ [CallEnsure p], bw_broker := markCreated (gp_name p) b\<rparr>)"
    if "validateParams b p = None" for p
  proof -
    show "bstep\<^sup>*\<^sup>* ?w (?w\<lparr>bw_calls := C @ [CallEnsure p]\<rparr>)" using ensure_failed [of ?w p] that by auto
    show "bstep\<^sup>*\<^sup>* ?w (?w\<lparr>bw_calls := C @ [CallEnsure p], bw_broker := markCreated (gp_name p) b\<rparr>)"
      using ensure [of ?w p] that mark [of "gp_name p" "?w\<lparr>bw_calls := C @ [CallEnsure p], bw_flight := add_mset (Ensured (gp_name p)) F\<rparr>"]
      by (auto elim!: bstep_then)
  qed
  have rem: "bstep\<^sup>*\<^sup>* ?w (?w\<lparr>bw_calls := C @ [CallRemove n]\<rparr>)"
    "bstep\<^sup>*\<^sup>* ?w (?w\<lparr>bw_calls := C @ [CallRemove n], bw_broker := markRemoved n b\<rparr>)"
    if "validateName b n = None" "wasCreated n b" for n
  proof -
    let ?w1 = "?w\<lparr>bw_flight := add_mset (Checked n) F\<rparr>"
    have c: "bstep ?w ?w1" using check [of ?w n] that by simp
    show "bstep\<^sup>*\<^sup>* ?w (?w\<lparr>bw_calls := C @ [CallRemove n]\<rparr>)" using remove_failed [of n ?w1] c by (auto elim!: bstep_then)
    show "bstep\<^sup>*\<^sup>* ?w (?w\<lparr>bw_calls := C @ [CallRemove n], bw_broker := markRemoved n b\<rparr>)"
      using remove [of n ?w1] unmark [of n "?w\<lparr>bw_calls := C @ [CallRemove n], bw_flight := add_mset (Removed n) F\<rparr>"] c
      by (auto elim!: bstep_then)
  qed
  show ?thesis
    using assms ens rem
    by (auto simp: broker_handle_def handle_ensure_def handle_remove_def split: sum.splits if_splits option.splits)
qed

section \<open>Confinement\<close>

definition ensured :: "call list \<Rightarrow> string set" where
  "ensured cs = {gp_name p |p. CallEnsure p \<in> set cs}"

lemma ensured_simps [simp]:
  "ensured [] = {}" "ensured (cs @ ds) = ensured cs \<union> ensured ds"
  "ensured [CallEnsure p] = {gp_name p}" "ensured [CallRemove n] = {}"
  by (auto simp: ensured_def)

fun phase_ok :: "broker \<Rightarrow> string set \<Rightarrow> phase \<Rightarrow> bool" where
  "phase_ok b ns (Ensured n) = (n \<in> ns)"
| "phase_ok b ns (Checked n) = (n \<in> ns \<and> permitted b n)"
| "phase_ok b ns (Removed n) = True"

lemma phase_ok_mono: "phase_ok b ns f \<Longrightarrow> ns \<subseteq> ns' \<Longrightarrow> phase_ok b ns' f"
  by (cases f) auto

definition step_ok :: "broker \<Rightarrow> call list \<Rightarrow> call \<Rightarrow> bool" where
  "step_ok b before c =
     (case c of CallEnsure p \<Rightarrow> params_ok b p | CallRemove n \<Rightarrow> permitted b n \<and> n \<in> ensured before)"

definition calls_ok :: "broker \<Rightarrow> call list \<Rightarrow> bool" where
  "calls_ok b cs \<longleftrightarrow> (\<forall>i < length cs. step_ok b (take i cs) (cs ! i))"

lemma calls_ok_snoc: "calls_ok b (cs @ [c]) \<longleftrightarrow> calls_ok b cs \<and> step_ok b cs c"
  by (auto simp: calls_ok_def less_Suc_eq nth_append)

lemma calls_ok_nth: "calls_ok b (before @ c # after) \<Longrightarrow> step_ok b before c"
  unfolding calls_ok_def by (elim allE [of _ "length before"]) simp

definition bw_inv :: "broker \<Rightarrow> bworld \<Rightarrow> bool" where
  "bw_inv b w \<longleftrightarrow> br_local (bw_broker w) = br_local b \<and> br_allow (bw_broker w) = br_allow b \<and>
     fset (br_created (bw_broker w)) \<subseteq> ensured (bw_calls w) \<and>
     (\<forall>f \<in># bw_flight w. phase_ok b (ensured (bw_calls w)) f) \<and> calls_ok b (bw_calls w)"

lemma bw_inv_start: "br_created b = {||} \<Longrightarrow> bstart b w \<Longrightarrow> bw_inv b w"
  by (simp add: bstart_def bw_inv_def calls_ok_def)

lemma bw_inv_step:
  assumes I: "bw_inv b w" and st: "bstep w w'"
  shows "bw_inv b w'"
proof -
  have same: "params_ok (bw_broker w) = params_ok b" "permitted (bw_broker w) = permitted b"
    using I params_ok_cong [of "bw_broker w" b] by (simp_all add: bw_inv_def)
  from st show ?thesis
  proof cases
    case (ensure_failed p)
    then show ?thesis
      using I same by (auto simp: bw_inv_def calls_ok_snoc step_ok_def validateParams_iff intro: phase_ok_mono)
  next
    case (ensure p)
    then show ?thesis
      using I same by (auto simp: bw_inv_def calls_ok_snoc step_ok_def validateParams_iff intro: phase_ok_mono)
  next
    case (mark n)
    then show ?thesis using I by (force simp: bw_inv_def markCreated_def dest: in_diffD)
  next
    case (check n)
    then show ?thesis using I same by (auto simp: bw_inv_def validateName_iff wasCreated_def)
  next
    case (remove_failed n)
    then show ?thesis using I by (force simp: bw_inv_def calls_ok_snoc step_ok_def dest: in_diffD)
  next
    case (remove n)
    then show ?thesis using I by (force simp: bw_inv_def calls_ok_snoc step_ok_def dest: in_diffD)
  next
    case (unmark n)
    then show ?thesis using I by (auto simp: bw_inv_def markRemoved_def dest: in_diffD)
  qed
qed

interpretation handlers: transition_system "\<lambda>w. br_created b = {||} \<and> bstart b w" bstep "bw_inv b" for b
  by unfold_locales (auto intro: bw_inv_start bw_inv_step)


text \<open>
  The check of the ledger and the removal are not one step: two requests to remove an interface
  that was created once can both find it in the ledger, and the second then removes whatever has
  that name by the time it runs.
\<close>

theorem race_removes_twice:
  assumes "validateParams b p = None" "bstart b w0"
  shows "\<exists>w. bstep\<^sup>*\<^sup>* w0 w \<and> bw_flight w = {#} \<and> gp_name p |\<notin>| br_created (bw_broker w) \<and>
    bw_calls w = [CallEnsure p, CallRemove (gp_name p), CallRemove (gp_name p)]"
proof -
  let ?n = "gp_name p" and ?c = "\<lambda>k. CallEnsure p # replicate k (CallRemove (gp_name p))"
  define b1 where "b1 = markCreated ?n b"
  define b2 where "b2 = markRemoved ?n b1"
  have name: "validateName b1 ?n = None" "wasCreated ?n b1"
    using assms(1) by (auto simp: b1_def markCreated_def wasCreated_def validateName_iff permitted_def validateParams_iff params_ok_def)
  have "bstep\<^sup>*\<^sup>* w0 \<lparr>bw_broker = b1, bw_flight = {#}, bw_calls = ?c 0\<rparr>"
    using assms ensure [of w0 p] mark [of ?n "w0\<lparr>bw_calls := ?c 0, bw_flight := {#Ensured ?n#}\<rparr>"]
    by (auto simp: bstart_def b1_def elim!: bstep_then)
  also have "bstep\<^sup>*\<^sup>* \<dots> \<lparr>bw_broker = b1, bw_flight = {#Checked ?n, Checked ?n#}, bw_calls = ?c 0\<rparr>"
    using check [of "\<lparr>bw_broker = b1, bw_flight = {#}, bw_calls = ?c 0\<rparr>" ?n]
      check [of "\<lparr>bw_broker = b1, bw_flight = {#Checked ?n#}, bw_calls = ?c 0\<rparr>" ?n] name
    by (auto elim!: bstep_then)
  also have "bstep\<^sup>*\<^sup>* \<dots> \<lparr>bw_broker = b1, bw_flight = {#Removed ?n, Removed ?n#}, bw_calls = ?c 2\<rparr>"
    using remove [of ?n "\<lparr>bw_broker = b1, bw_flight = {#Checked ?n, Checked ?n#}, bw_calls = ?c 0\<rparr>"]
      remove [of ?n "\<lparr>bw_broker = b1, bw_flight = {#Removed ?n, Checked ?n#}, bw_calls = ?c 1\<rparr>"]
    by (auto elim!: bstep_then simp: numeral_2_eq_2 add_mset_commute)
  also have "bstep\<^sup>*\<^sup>* \<dots> \<lparr>bw_broker = b2, bw_flight = {#}, bw_calls = ?c 2\<rparr>"
  proof -
    have "markRemoved ?n b2 = b2" by (simp add: b2_def markRemoved_def)
    then show ?thesis
      using unmark [of ?n "\<lparr>bw_broker = b1, bw_flight = {#Removed ?n, Removed ?n#}, bw_calls = ?c 2\<rparr>"]
        unmark [of ?n "\<lparr>bw_broker = b2, bw_flight = {#Removed ?n#}, bw_calls = ?c 2\<rparr>"]
      by (auto simp: b2_def [symmetric] elim!: bstep_then)
  qed
  finally show ?thesis
    by (intro exI [of _ "\<lparr>bw_broker = b2, bw_flight = {#}, bw_calls = ?c 2\<rparr>"]) (simp add: b2_def markRemoved_def numeral_2_eq_2)
qed

section \<open>Witness\<close>


end
