(* ===== verification/Provisioning.thy ===== *)
theory Provisioning
  imports Broker Session_Props
begin

text \<open>
  The session manager when it provisions through the broker (\<^verbatim>\<open>NewWithProvisioner\<close> with a
  \<^verbatim>\<open>provisionrpc.Client\<close>): every interface it creates or removes is a request to the privileged
  process. The broker trusts nothing of it, so the composition works only when the requests of
  the manager are among those the broker serves, and when both agree on the interfaces that
  exist.
\<close>

section \<open>The requests of the manager\<close>

fun event_request :: "dp_event \<Rightarrow> request option" where
  "event_request (EvEnsure p r) = Some (zero_request\<lparr>rq_op := ''ensure'', rq_params := p\<rparr>)"
| "event_request (EvRemove n) = Some (zero_request\<lparr>rq_op := ''remove'', rq_name := n\<rparr>)"
| "event_request ev = None"

text \<open>What the events say the provisioner returned: a removal is expected to succeed.\<close>

fun event_result :: "dp_event \<Rightarrow> string option list" where
  "event_result (EvEnsure p r) = [r]"
| "event_result (EvRemove n) = [None]"
| "event_result ev = []"

text \<open>The events of a call sent to the broker one after the other, and what its client returns.\<close>

fun broker_events :: "backend \<Rightarrow> dp_event list \<Rightarrow> broker \<Rightarrow> string option list \<times> broker" where
  "broker_events be [] b = ([], b)"
| "broker_events be (ev # evs) b =
     (case event_request ev of
        None \<Rightarrow> broker_events be evs b
      | Some rq \<Rightarrow>
          let (rs, b', _) = broker_handle be (Inr rq) b;
              (errs, b'') = broker_events be evs b'
          in (err_of (client_call (\<lambda>_. Inr rs) rq) # errs, b''))"

section \<open>Requests the broker serves\<close>

fun event_ok :: "broker \<Rightarrow> string set \<Rightarrow> dp_event \<Rightarrow> bool" where
  "event_ok b ifs (EvEnsure p r) = (params_ok b p \<and> (r \<noteq> None \<longrightarrow> gp_name p \<notin> ifs))"
| "event_ok b ifs (EvRemove n) = (permitted b n \<and> n \<in> ifs)"
| "event_ok b ifs ev = True"

fun servable :: "broker \<Rightarrow> string set \<Rightarrow> dp_event list \<Rightarrow> bool" where
  "servable b ifs [] = True"
| "servable b ifs (ev # evs) = (event_ok b ifs ev \<and> servable b (dp_apply ifs ev) evs)"

lemma servable_append [simp]: "servable b ifs (xs @ ys) \<longleftrightarrow> servable b ifs xs \<and> servable b (dp_run ifs xs) ys"
  by (induction xs arbitrary: ifs) auto

lemma servable_hooks [simp]: "servable b ifs (map (\<lambda>(s, i). EvHook s i) hs)"
  by (induction hs arbitrary: ifs) auto

lemma servable_created [simp]: "servable (b\<lparr>br_created := F\<rparr>) ifs evs = servable b ifs evs"
proof -
  have "params_ok (b\<lparr>br_created := F\<rparr>) = params_ok b" "permitted (b\<lparr>br_created := F\<rparr>) = permitted b"
    by (rule params_ok_cong; simp)+
  then have "event_ok (b\<lparr>br_created := F\<rparr>) ifs ev = event_ok b ifs ev" for ifs ev by (cases ev) simp_all
  then show ?thesis by (induction evs arbitrary: ifs) simp_all
qed

definition backend_answers :: "backend \<Rightarrow> dp_event list \<Rightarrow> bool" where
  "backend_answers be evs \<longleftrightarrow> (\<forall>n. be_remove be n = None) \<and>
     (\<forall>p r. EvEnsure p r \<in> set evs \<longrightarrow> be_ensure be p = r \<and> r \<noteq> Some '''')"

text \<open>One request that is served: the answer is the backend's and the ledger follows the data plane.\<close>

lemma served_step:
  assumes "event_ok b (fset (br_created b)) ev" "backend_answers be (ev # evs)"
  obtains F where "fset F = dp_apply (fset (br_created b)) ev"
    "broker_events be (ev # evs) b =
       (event_result ev @ fst (broker_events be evs (b\<lparr>br_created := F\<rparr>)), snd (broker_events be evs (b\<lparr>br_created := F\<rparr>)))"
proof (cases ev)
  case (EvEnsure p r)
  then have ok: "validateParams b p = None" "be_ensure be p = r" "r \<noteq> Some ''''"
    using assms by (simp_all add: validateParams_iff backend_answers_def)
  show thesis
  proof (cases r)
    case None
    then show thesis
      using EvEnsure ok
      by (intro that [of "finsert (gp_name p) (br_created b)"])
        (simp_all add: broker_handle_def handle_ensure_def markCreated_def reply_ok_def client_call_def err_of_def split: prod.split)
  next
    case (Some e)
    then show thesis
      using EvEnsure ok assms(1)
      by (intro that [of "br_created b"])
        (simp_all add: broker_handle_def handle_ensure_def reply_error_def client_call_def err_of_def split: prod.split)
  qed
next
  case (EvRemove n)
  then have "validateName b n = None" "be_remove be n = None" "n |\<in>| br_created b"
    using assms by (simp_all add: validateName_iff backend_answers_def)
  then show thesis
    using EvRemove
    by (intro that [of "br_created b |-| {|n|}"])
      (simp_all add: broker_handle_def handle_remove_def wasCreated_def markRemoved_def reply_ok_def client_call_def err_of_def split: prod.split)
qed (auto intro: that [of "br_created b"])

lemma broker_events_served:
  assumes "servable b (fset (br_created b)) evs" "backend_answers be evs"
  shows "\<exists>F. broker_events be evs b = (concat (map event_result evs), b\<lparr>br_created := F\<rparr>) \<and>
    fset F = dp_run (fset (br_created b)) evs"
  using assms
proof (induction evs arbitrary: b)
  case Nil
  then show ?case by (intro exI [of _ "br_created b"]) simp
next
  case (Cons ev evs)
  from Cons.prems(1) have "event_ok b (fset (br_created b)) ev" by simp
  from served_step [OF this Cons.prems(2)] obtain F where F: "fset F = dp_apply (fset (br_created b)) ev"
    "broker_events be (ev # evs) b =
       (event_result ev @ fst (broker_events be evs (b\<lparr>br_created := F\<rparr>)), snd (broker_events be evs (b\<lparr>br_created := F\<rparr>)))" .
  have "backend_answers be evs" using Cons.prems(2) by (simp add: backend_answers_def)
  with Cons.IH [of "b\<lparr>br_created := F\<rparr>"] Cons.prems(1) F show ?case by auto
qed

section \<open>The manager and its broker\<close>

definition unicast :: "addr \<Rightarrow> bool" where
  "unicast a \<longleftrightarrow> is_valid a \<and> \<not> is_multicast a \<and> \<not> is_unspecified a"

text \<open>
  A broker set up for a manager: the same outer address (or none), the pinned names on its
  list, and addresses on both sides that name hosts.
\<close>

definition broker_fits :: "mgr_cfg \<Rightarrow> addr set \<Rightarrow> broker \<Rightarrow> bool" where
  "broker_fits cfg pool b \<longleftrightarrow> unicast (greLocal cfg) \<and> unicast (serverInner cfg) \<and>
     (is_valid (br_local b) \<longrightarrow> br_local b = greLocal cfg) \<and>
     (\<forall>c n. fmlookup (ifNames cfg) c = Some n \<longrightarrow> n |\<in>| br_allow b \<and> ValidName n) \<and>
     (\<forall>a \<in> pool. unicast a \<and> is6 a = is6 (serverInner cfg))"

text \<open>The ledger of the broker is the registry of the manager.\<close>

definition mirrors :: "mgr_cfg \<Rightarrow> manager \<Rightarrow> broker \<Rightarrow> bool" where
  "mirrors cfg m b \<longleftrightarrow> mgr_inv cfg m \<and> names_ok cfg \<and> broker_fits cfg (claimable (mpool m)) b \<and>
     fset (br_created b) = live_ifs m"

lemma ifNameFor_permitted: "broker_fits cfg pool b \<Longrightarrow> permitted b (ifNameFor cfg c k)"
  by (auto simp: broker_fits_def permitted_def ifNameFor_def ifName_props split: option.splits)

lemma session_permitted:
  "mirrors cfg m b \<Longrightarrow> fmlookup (sessions m) k = Some e \<Longrightarrow> permitted b (e_ifname e) \<and> e_ifname e \<in> live_ifs m"
  unfolding mirrors_def
  by (metis ifNameFor_permitted mgr_registry(5) live_ifs_def fmran'I image_eqI)

lemma est_mtu_bounds:
  assumes "effective_outer cfg env \<le> 65535"
  shows "576 \<le> est_mtu cfg env p" "est_mtu cfg env p \<le> 65535"
proof -
  have "0 \<le> encap cfg" by (simp add: encap_def OverheadWithFOU_def)
  with assms show "576 \<le> est_mtu cfg env p" "est_mtu cfg env p \<le> 65535"
    by (auto simp: est_mtu_eq Let_def minimumTunnelMTU_def)
qed

lemma entry_params_ok:
  assumes "broker_fits cfg pool b" "e_inner e \<in> pool" "e_ifname e = ifNameFor cfg c k"
    "unicast (e_outer e)" "is6 (e_outer e) = is6 (greLocal cfg)" "576 \<le> e_mtu e" "e_mtu e \<le> 65535"
  shows "params_ok b (ensure_params cfg e)"
proof -
  have "is_link_local_unicast ServerLinkLocal" "is6 ServerLinkLocal" by code_simp+
  with assms ifNameFor_permitted [OF assms(1)] show ?thesis
    by (auto simp: params_ok_def ensure_params_def broker_fits_def unicast_def)
qed

lemma servable_remove:
  "permitted b (e_ifname e) \<Longrightarrow> e_ifname e \<in> ifs \<Longrightarrow> servable b ifs (removeAndNotify cfg mons e)"
  by (simp add: removeAndNotify_def)

lemma servable_provision:
  assumes "provision cfg env k e m = (res, m', evs)" "params_ok b (ensure_params cfg e)" "e_ifname e \<notin> ifs"
  shows "servable b ifs evs"
proof -
  have "permitted b (e_ifname e)" using assms(2) by (simp add: params_ok_def)
  with assms show ?thesis by (auto simp: provision_def Let_def split: option.splits if_splits)
qed

lemma establish_claimable:
  assumes I: "mgr_inv cfg m" and n: "names_ok cfg" and est: "Establish cfg env p m = Some (res, m', evs)"
  shows "claimable (mpool m') = claimable (mpool m)"
  using est
proof (cases rule: Establish_cases)
  case (locked code err)
  have "claimable (mpool (snd (evict c (purgeExpiredLeases cfg now m)))) = claimable (mpool m)" for c now
    unfolding claimable_evict by (simp add: purgeExpiredLeases_def)
  with I locked(3) show ?thesis by (cases rule: establish_locked_cases) auto
next
  case (run k e ev m1 evs1)
  from run(2) establish_locked_ifs(5) [OF I n run(1)] show ?thesis
    by (cases rule: provision_cases) (simp_all add: rollback_def)
qed simp

lemma establish_servable:
  assumes mir: "mirrors cfg m b" and est: "Establish cfg env p m = Some (res, m', evs)"
    and peer: "unicast (sp_outer p)" and mtu: "effective_outer cfg env \<le> 65535"
  shows "servable b (live_ifs m) evs"
proof -
  from mir have I: "mgr_inv cfg m" and n: "names_ok cfg" and fits: "broker_fits cfg (claimable (mpool m)) b"
    by (simp_all add: mirrors_def)
  from est show ?thesis
  proof (cases rule: Establish_cases)
    case (run k e ev m1 evs1)
    note ent = establish_locked_entry [OF I run(1)]
    note ifs = establish_locked_ifs [OF I n run(1)]
    have "evs1 \<noteq> []" using run(2) by (auto simp: provision_def Let_def split: option.splits)
    then have fam: "is6 (sp_outer p) = is6 (greLocal cfg)" using est run(3) by (auto simp: Establish_def split: if_splits)
    have "params_ok b (ensure_params cfg e)"
      using entry_params_ok [OF fits ifs(4) ent(4)] ent(3) ifs(6) peer fam est_mtu_bounds [OF mtu] by simp
    from servable_provision [OF run(2) this ifs(2)] show ?thesis
      using run(3) session_permitted [OF mir] ifs(3) servable_remove
      by (fastforce split: option.splits)
  qed simp_all
qed

lemma mirrors_step:
  assumes "mirrors cfg m b" "servable b (live_ifs m) evs" "backend_answers be evs"
    and "mgr_inv cfg m'" "dp_run (live_ifs m) evs = live_ifs m'" "claimable (mpool m') = claimable (mpool m)"
  shows "\<exists>b'. broker_events be evs b = (concat (map event_result evs), b') \<and> mirrors cfg m' b'"
proof -
  from assms(1) have own: "fset (br_created b) = live_ifs m" by (simp add: mirrors_def)
  with broker_events_served [OF _ assms(3), of b] assms(2) obtain F where
    F: "broker_events be evs b = (concat (map event_result evs), b\<lparr>br_created := F\<rparr>)" "fset F = live_ifs m'"
    by (auto simp: assms(5))
  moreover have "broker_fits cfg pool (b\<lparr>br_created := F\<rparr>) = broker_fits cfg pool b" for pool
    by (simp add: broker_fits_def)
  ultimately show ?thesis using assms(1,4,6) by (intro exI [of _ "b\<lparr>br_created := F\<rparr>"]) (simp add: mirrors_def)
qed


section \<open>Witness\<close>

definition pair_broker :: broker where
  "pair_broker = \<lparr>br_local = V4 0xc0000201, br_allow = {|''tunbob''|}, br_created = {||}\<rparr>"

lemma demo_pool_unicast:
  assumes "a \<in> claimable demo_pool"
  shows "unicast a \<and> \<not> is6 a"
proof -
  from assms have c: "contains \<lparr>pip = V4 0x0a000000, pbits = 30\<rparr> a" by (simp add: claimable_def demo_pool_def)
  then obtain w where a: "a = V4 w" by (cases a) (auto simp: contains_def host_bits_def)
  from c have "drop_bit 2 (0x0a000000 XOR w) = 0" by (simp add: a contains_def host_bits_def)
  then have "drop_bit 2 w = drop_bit 2 (0x0a000000 :: 32 word)" by (simp only: drop_bit_xor xor_eq_0_word)
  then have w: "drop_bit 2 w = (0x2800000 :: 32 word)" by (simp add: drop_bit_eq_div)
  have "drop_bit 28 w = drop_bit 26 (drop_bit 2 w)" by (simp add: drop_bit_drop_bit)
  also have "\<dots> = 0" unfolding w by (simp add: drop_bit_eq_div)
  finally have "drop_bit 28 w = 0" .
  moreover have "w \<noteq> 0" using w by auto
  ultimately show ?thesis by (simp add: a unicast_def)
qed

lemma pair_mirrors: "mirrors demo_cfg demo_mgr pair_broker"
proof -
  have "unicast (greLocal demo_cfg)" "unicast (serverInner demo_cfg)" "ValidName ''tunbob''" "\<not> IsGeneratedName ''tunbob''"
    by code_simp+
  moreover have "mpool demo_mgr = demo_pool" "sessions demo_mgr = fmempty" by (simp_all add: demo_mgr_def newWith_def Let_def)
  ultimately show ?thesis
    using demo_inv demo_pool_unicast
    by (auto simp: mirrors_def broker_fits_def names_ok_def live_ifs_def pair_broker_def demo_cfg_def)
qed


end
