(* ===== verification/Server.thy ===== *)
theory Server
  imports Secure Names Netip_Text Link Session
begin

text \<open>
  The control server of \<^verbatim>\<open>internal/control/server.go\<close>: the handshake, the keepalive loop and the
  life of one connection. The input of a connection is the bytes the peer sends until the read
  fails (closed, timed out or shut down), so a deadline is the error after the last byte. The
  session manager behind the \<^verbatim>\<open>Establisher\<close> interface is an argument with a state of its own.
  Admission of connections is in theory \<^verbatim>\<open>Admission\<close>.
\<close>

section \<open>Configuration and interfaces\<close>

record server =
  sv_psk :: string
  sv_clients :: "(string, string) fmap"
  sv_redirect :: string
  sv_must_hide :: bool

record 's establisher =
  es_establish :: "session_params \<Rightarrow> 's \<Rightarrow> (session_grant \<times> 8 word \<times> string option) \<times> 's"
  es_teardown :: "session_params \<Rightarrow> session_grant \<Rightarrow> 's \<Rightarrow> 's"

text \<open>
  What one connection draws from its environment: the two reads of the random source, the path
  \<^verbatim>\<open>http.ReadRequest\<close> finds in the bytes of a probe, and the text of the current date.
\<close>

record hs_env =
  he_secret :: "bytes option"
  he_nonce :: "bytes option"
  he_http :: "bytes \<Rightarrow> string option"
  he_date :: string

datatype net_addr = TCPAddr bytes | OtherAddr string

definition outerAddr :: "net_addr \<Rightarrow> addr" where
  "outerAddr a =
     (case a of
        TCPAddr ip \<Rightarrow> (case addr_from_slice ip of Some x \<Rightarrow> unmap x | None \<Rightarrow> AddrZero)
      | OtherAddr _ \<Rightarrow> AddrZero)"

text \<open>
  \<^verbatim>\<open>net.IP.String\<close>: IPv4 addresses and their IPv6 form in dotted notation, other lengths as hex.
\<close>

definition hexString :: "bytes \<Rightarrow> string" where
  "hexString bs = concat (map (\<lambda>b. [hex_digit (unat b div 16), hex_digit (unat b mod 16)]) bs)"

definition ip_string :: "bytes \<Rightarrow> string" where
  "ip_string ip =
     (if ip = [] then ''<nil>''
      else case addr_from_slice ip of Some a \<Rightarrow> addr_string (unmap a) | None \<Rightarrow> ''?'' @ hexString ip)"

text \<open>The key under which the connections of a peer are counted.\<close>

definition ipOf :: "net_addr \<Rightarrow> string" where
  "ipOf a =
     (case a of
        TCPAddr ip \<Rightarrow> ip_string ip
      | OtherAddr s \<Rightarrow> (case SplitHostPort s of Some (host, _) \<Rightarrow> host | None \<Rightarrow> s))"

text \<open>Peers with the same outer address share a key, an IPv4 peer and its IPv6 form included.\<close>

lemma ipOf_outer: "is_valid (outerAddr (TCPAddr ip)) \<Longrightarrow> ipOf (TCPAddr ip) = addr_string (outerAddr (TCPAddr ip))"
  by (cases "addr_from_slice ip") (auto simp: ipOf_def ip_string_def outerAddr_def addr_from_slice_def)

section \<open>Reason phrases\<close>

definition utf8_lit :: "nat list \<Rightarrow> string" where
  "utf8_lit bs = map char_of bs"

definition ReasonBadClientID :: string where
  "ReasonBadClientID = utf8_lit [0xf0, 0x9f, 0xa7, 0x8c] @ '' who goes there? the gremlins don't know your face''"

definition ReasonAuthFailed :: string where
  "ReasonAuthFailed = utf8_lit [0xf0, 0x9f, 0x94, 0x92] @ '' wrong secret handshake '' @
     utf8_lit [0xe2, 0x80, 0x94] @ '' the gremlins hiss and slam the hatch''"

definition ReasonInternal :: string where
  "ReasonInternal = utf8_lit [0xf0, 0x9f, 0x94, 0xa5] @ '' a gremlin chewed clean through the wiring''"

definition ReasonClientBye :: string where
  "ReasonClientBye = utf8_lit [0xf0, 0x9f, 0x91, 0x8b] @ '' gremlin scuttling back into its box, ta-ra''"

section \<open>Probes and the decoy\<close>

definition maxHandshakePayload :: nat where
  "maxHandshakePayload = 4096"

definition looksLikeControl :: "conn \<Rightarrow> bool" where
  "looksLikeControl c \<longleftrightarrow> frameHeaderLen \<le> length (inbuf c) \<and>
     inbuf c ! 2 = ProtoVersion \<and> newMessage (inbuf c ! 3) \<noteq> None"

definition crlf :: string where
  "crlf = utf8_lit [13, 10]"

definition page :: "string \<Rightarrow> string list \<Rightarrow> string" where
  "page title extra = concat (map (\<lambda>l. l @ crlf)
     ([''<html>'', ''<head><title>'' @ title @ ''</title></head>'', ''<body>'',
       ''<center><h1>'' @ title @ ''</h1></center>''] @ extra @
      [''<hr><center>nginx</center>'', ''</body>'', ''</html>'']))"

definition nginx404Body :: string where
  "nginx404Body = page ''404 Not Found'' []"

definition nginx301Body :: string where
  "nginx301Body = page ''301 Moved Permanently'' []"

definition teapotBody :: string where
  "teapotBody = page ''418 I'm a teapot''
     [''<center>'' @ utf8_lit [0xf0, 0x9f, 0xa7, 0x8c, 0xf0, 0x9f, 0xab, 0x96] @
      '' a gremlin brewed you some tea. no tunnels here, only oolong.</center>'']"

definition decoyEggPath :: string where
  "decoyEggPath = ''/imagremlind''"

text \<open>The choice of \<^verbatim>\<open>writeDecoy\<close>: status, body, content type and location.\<close>

definition decoy_page :: "server \<Rightarrow> string \<Rightarrow> string \<times> string \<times> string \<times> string" where
  "decoy_page sv path =
     (if \<not> sv_must_hide sv \<and> path = decoyEggPath
      then (''418 I'm a teapot'', teapotBody, ''text/html; charset=utf-8'', '''')
      else if sv_redirect sv \<noteq> '''' then (''301 Moved Permanently'', nginx301Body, ''text/html'', sv_redirect sv)
      else (''404 Not Found'', nginx404Body, ''text/html'', ''''))"

definition decoy_response :: "server \<Rightarrow> string \<Rightarrow> string \<Rightarrow> string" where
  "decoy_response sv path date =
     (let (status, body, contentType, location) = decoy_page sv path
      in ''HTTP/1.1 '' @ status @ crlf @
         ''Server: nginx'' @ crlf @
         ''Date: '' @ date @ crlf @
         ''Content-Type: '' @ contentType @ crlf @
         (if location \<noteq> '''' then ''Location: '' @ location @ crlf else '''') @
         ''Content-Length: '' @ decimal (length body) @ crlf @
         ''Connection: close'' @ crlf @ crlf @ body)"

text \<open>\<^verbatim>\<open>io.WriteString\<close> is one call of \<^verbatim>\<open>Write\<close>, and its result is ignored.\<close>

definition writeDecoy :: "server \<Rightarrow> hs_env \<Rightarrow> conn \<Rightarrow> conn" where
  "writeDecoy sv env c =
     (let path = (case he_http env (inbuf c) of Some p \<Rightarrow> p | None \<Rightarrow> '''')
      in snd (snd (conn_write (bytes_of_string (decoy_response sv path (he_date env))) c)))"

section \<open>The handshake\<close>

definition expect :: "msg_kind \<Rightarrow> conn \<Rightarrow> message option \<times> conn" where
  "expect k c =
     (case ReadMessageLimited maxHandshakePayload c of
        (Inl _, c') \<Rightarrow> (None, c')
      | (Inr m, c') \<Rightarrow> (if kind_of m = k then Some m else None, c'))"

definition writeTeardown :: "string \<Rightarrow> conn \<Rightarrow> conn" where
  "writeTeardown reason c = snd (WriteMessage (Teardown reason) c)"

definition zero_reply :: session_reply where
  "zero_reply = \<lparr>Result = 0, ClientInner = AddrZero, ServerInner = AddrZero, ServerOuter = AddrZero,
     GREKey = 0, TunnelFlags = 0, MTU = 0, Message = '''', ServerMAC = []\<rparr>"

definition reply_refused :: "8 word \<Rightarrow> string option \<Rightarrow> session_reply" where
  "reply_refused result err =
     zero_reply\<lparr>Result := result, Message := (case err of Some e \<Rightarrow> e | None \<Rightarrow> ReasonInternal)\<rparr>"

definition reply_flags :: "session_grant \<Rightarrow> 32 word" where
  "reply_flags g = (if g_flags g = 0 \<and> g_grekey g \<noteq> 0 then TunnelFlagGREKey else g_flags g)"

definition reply_granted :: "session_grant \<Rightarrow> session_reply" where
  "reply_granted g =
     zero_reply\<lparr>Result := ResultOK, ClientInner := g_client_inner g, ServerInner := g_server_inner g,
       ServerOuter := g_server_outer g, GREKey := g_grekey g, TunnelFlags := reply_flags g, MTU := g_mtu g\<rparr>"

type_synonym established = "session_params \<times> session_grant \<times> secure_channel"

text \<open>From the decrypted request on: establish, answer, undo when the answer cannot be sent.\<close>

definition server_establish ::
  "'s establisher \<Rightarrow> session_params \<Rightarrow> secure_channel \<Rightarrow> conn \<Rightarrow> 's \<Rightarrow> established option \<times> conn \<times> 's" where
  "server_establish est p sec c s =
     (case es_establish est p s of
        ((g, result, err), s') \<Rightarrow>
          if err \<noteq> None \<or> result \<noteq> ResultOK
          then (None, snd (snd (chan_WriteMessage (SessionReply (reply_refused result err)) (sec, c))), s')
          else (case chan_WriteMessage (SessionReply (reply_granted g)) (sec, c) of
                  (Some _, _, c') \<Rightarrow> (None, c', es_teardown est p g s')
                | (None, sec', c') \<Rightarrow> (Some (p, g, sec'), c', s')))"

text \<open>From the challenge on, with the secret the client is held to.\<close>

definition server_auth ::
  "'s establisher \<Rightarrow> net_addr \<Rightarrow> string \<Rightarrow> string \<Rightarrow> bytes \<Rightarrow> conn \<Rightarrow> 's \<Rightarrow> established option \<times> conn \<times> 's" where
  "server_auth est peer cid secret sn c s =
     (case expect KAuth c of
        (Some (Auth mac), c1) \<Rightarrow>
          if length mac \<noteq> NonceLen then (None, writeTeardown ReasonAuthFailed c1, s)
          else (case newServerSecureChannel secret cid sn mac of
                  Inl _ \<Rightarrow> (None, c1, s)
                | Inr sec \<Rightarrow>
                    (case chan_ReadMessage (sec, c1) of
                       (Inr (SessionRequest mtu requested), sec', c2) \<Rightarrow>
                         server_establish est
                           \<lparr>sp_client = cid, sp_outer = outerAddr peer, sp_mtu = mtu, sp_requested = requested\<rparr>
                           sec' c2 s
                     | (_, _, c2) \<Rightarrow> (None, c2, s)))
      | (_, c1) \<Rightarrow> (None, c1, s))"

definition server_secret :: "server \<Rightarrow> hs_env \<Rightarrow> string \<Rightarrow> string" where
  "server_secret sv env cid =
     (let secret = SecretFor cid (sv_psk sv) (sv_clients sv)
      in if secret = '''' then RandomSecret (he_secret env) else secret)"

definition server_handshake ::
  "server \<Rightarrow> hs_env \<Rightarrow> 's establisher \<Rightarrow> net_addr \<Rightarrow> conn \<Rightarrow> 's \<Rightarrow> established option \<times> conn \<times> 's" where
  "server_handshake sv env est peer c s =
     (if \<not> looksLikeControl c then (None, writeDecoy sv env c, s)
      else case expect KHello c of
        (Some (Hello cid caps), c1) \<Rightarrow>
          if \<not> ValidClientID cid then (None, writeTeardown ReasonBadClientID c1, s)
          else (case NewNonce (he_nonce env) of
                  Inl _ \<Rightarrow> (None, c1, s)
                | Inr sn \<Rightarrow>
                    (case WriteMessage (Challenge sn) c1 of
                       (Some _, c2) \<Rightarrow> (None, c2, s)
                     | (None, c2) \<Rightarrow> server_auth est peer cid (server_secret sv env cid) sn c2 s))
      | (_, c1) \<Rightarrow> (None, c1, s))"

section \<open>The keepalive loop and the life of a connection\<close>

lemma chan_ReadMessage_shorter:
  assumes "chan_ReadMessage (s, c) = (Inr m, s', c')"
  shows "length (inbuf c') < length (inbuf c)"
proof -
  obtain o' where "ReadMessage c = (Inr o', c')"
    using assms by (auto simp: chan_ReadMessage_def Let_def split: prod.splits sum.splits message.splits option.splits)
  then have "inbuf c = marshalPlainFrame o' @ inbuf c'"
    by (simp add: ReadMessage_def ReadMessageLimited_iff)
  then show ?thesis by (simp add: marshalPlainFrame_def Let_def)
qed

lemma chan_WriteMessage_keeps:
  assumes "chan_WriteMessage m (s, c) = (e, s', c')"
  shows "inbuf c' = inbuf c \<and> rend c' = rend c \<and> readKey s' = readKey s \<and> readSeq s' = readSeq s"
proof -
  obtain e' where w: "WriteMessage (Encrypted (Seal (writeKey s) (seqNonce (writeSeq s)) (marshalPlainFrame m) [])) c = (e', c')"
    and s': "s' = s\<lparr>writeSeq := writeSeq s + 1\<rparr>"
    using assms by (auto simp: chan_WriteMessage_def Let_def split: prod.splits)
  from WriteMessage_cases [OF w] s' show ?thesis by simp
qed

function server_keepalive :: "secure_channel \<Rightarrow> conn \<Rightarrow> secure_channel \<times> conn" where
  "server_keepalive sec c =
     (case chan_ReadMessage (sec, c) of
        (Inl _, sec', c') \<Rightarrow> (sec', c')
      | (Inr (Echo n), sec', c') \<Rightarrow>
          (case chan_WriteMessage (EchoAck n) (sec', c') of
             (Some _, sec'', c'') \<Rightarrow> (sec'', c'')
           | (None, sec'', c'') \<Rightarrow> server_keepalive sec'' c'')
      | (Inr (Teardown _), sec', c') \<Rightarrow> (sec', c')
      | (Inr _, sec', c') \<Rightarrow> server_keepalive sec' c')"
  by pat_completeness auto

termination
  by (relation "measure (\<lambda>(sec, c). length (inbuf c))")
    (auto dest!: sym [THEN chan_ReadMessage_shorter] sym [THEN chan_WriteMessage_keeps, THEN conjunct1])

declare server_keepalive.simps [simp del]

text \<open>
  \<^verbatim>\<open>handle\<close>. The admission slots are given back between the handshake and the keepalive loop,
  which touches neither the connection nor the establisher.
\<close>

definition server_handle ::
  "server \<Rightarrow> hs_env \<Rightarrow> 's establisher \<Rightarrow> net_addr \<Rightarrow> conn \<Rightarrow> 's \<Rightarrow> conn \<times> 's" where
  "server_handle sv env est peer c s =
     (case server_handshake sv env est peer c s of
        (None, c', s') \<Rightarrow> (c', s')
      | (Some (p, g, sec), c', s') \<Rightarrow> (snd (server_keepalive sec c'), es_teardown est p g s'))"

section \<open>Frame rules\<close>

text \<open>What the server reads off the wire: the message, as the bytes of its frame.\<close>

lemma expect_Some:
  "expect k c = (Some m, c') \<longleftrightarrow>
     kind_of m = k \<and> msg_ok m \<and> length (marshalPayload m) \<le> maxHandshakePayload \<and>
     inbuf c = marshalPlainFrame m @ inbuf c' \<and> c' = c\<lparr>inbuf := inbuf c'\<rparr>"
proof -
  have lim: "maxHandshakePayload \<le> MaxPayload" by (simp add: maxHandshakePayload_def MaxPayload_def)
  have "expect k c = (Some m, c') \<longleftrightarrow> kind_of m = k \<and> ReadMessageLimited maxHandshakePayload c = (Inr m, c')"
    by (auto simp: expect_def split: prod.splits sum.splits)
  then show ?thesis by (simp only: ReadMessageLimited_iff [OF lim])
qed

text \<open>The frame a client that knows the secret seals its request in, and the request it stands for.\<close>

definition request_of :: "string \<Rightarrow> net_addr \<Rightarrow> 16 word \<Rightarrow> addr \<Rightarrow> session_params" where
  "request_of cid peer mtu requested =
     \<lparr>sp_client = cid, sp_outer = outerAddr peer, sp_mtu = mtu, sp_requested = requested\<rparr>"

definition sealed_request :: "string \<Rightarrow> string \<Rightarrow> bytes \<Rightarrow> bytes \<Rightarrow> 16 word \<Rightarrow> addr \<Rightarrow> bytes" where
  "sealed_request secret cid sn cn mtu requested =
     sealed (writeKey (client_chan secret cid sn cn)) 0 (SessionRequest mtu requested)"

definition opened :: "string \<Rightarrow> string \<Rightarrow> bytes \<Rightarrow> bytes \<Rightarrow> secure_channel" where
  "opened secret cid sn cn = (server_chan secret cid sn cn)\<lparr>readSeq := 1\<rparr>"

lemma chan_fits_request: "chan_fits (SessionRequest mtu a)" if "zone a = ''''"
proof -
  have "length (enc_addr a) \<le> 17"
    using that by (cases a) (auto simp: enc_addr_def enc_u8_def)
  then show ?thesis by (simp add: chan_fits_def MaxPayload_def enc_u16_def)
qed

lemma read_request:
  "chan_ReadMessage (server_chan secret cid sn cn, c) = (Inr (SessionRequest mtu a), sec', c') \<longleftrightarrow>
     zone a = '''' \<and> inbuf c = sealed_request secret cid sn cn mtu a @ inbuf c' \<and>
     sec' = opened secret cid sn cn \<and> c' = c\<lparr>inbuf := inbuf c'\<rparr>"
  unfolding up.read_iff sealed_request_def opened_def
  by (auto simp: chan_ok_def chan_fits_request)

text \<open>The connection after a failed read of a sealed message does not depend on the keys.\<close>

lemma chan_ReadMessage_conn: "snd (snd (chan_ReadMessage (sec, c))) = snd (ReadMessage c)"
  by (simp add: chan_ReadMessage_def Let_def split: prod.splits sum.splits message.splits option.splits)

text \<open>The connection of a peer that was sent the challenge and is not let in.\<close>

definition refused_conn :: "conn \<Rightarrow> conn" where
  "refused_conn c =
     (case expect KAuth c of
        (Some (Auth mac), c1) \<Rightarrow>
          if length mac \<noteq> NonceLen then writeTeardown ReasonAuthFailed c1 else snd (ReadMessage c1)
      | (_, c1) \<Rightarrow> c1)"

lemma server_auth_cases:
  obtains (refused) "server_auth est peer cid secret sn c s = (None, refused_conn c, s)"
  | (let_in) cn mtu a rest where "length cn = NonceLen" "zone a = ''''"
    "inbuf c = marshalPlainFrame (Auth cn) @ sealed_request secret cid sn cn mtu a @ rest"
    "server_auth est peer cid secret sn c s
       = server_establish est (request_of cid peer mtu a) (opened secret cid sn cn) (c\<lparr>inbuf := rest\<rparr>) s"
proof -
  obtain m c1 where e: "expect KAuth c = (m, c1)" by (metis surj_pair)
  show ?thesis
  proof (cases "\<exists>cn. m = Some (Auth cn) \<and> length cn = NonceLen")
    case False
    then have "server_auth est peer cid secret sn c s = (None, refused_conn c, s)"
      using e by (auto simp: server_auth_def refused_conn_def split: option.splits message.splits)
    then show ?thesis by (rule refused)
  next
    case True
    then obtain cn where m: "m = Some (Auth cn)" "length cn = NonceLen" by blast
    obtain r sec' c2 where rd: "chan_ReadMessage (server_chan secret cid sn cn, c1) = (r, sec', c2)"
      by (metis prod_cases3)
    have c2: "snd (ReadMessage c1) = c2" using chan_ReadMessage_conn [of "server_chan secret cid sn cn" c1] rd by simp
    show ?thesis
    proof (cases "\<exists>mtu a. r = Inr (SessionRequest mtu a)")
      case False
      then have "server_auth est peer cid secret sn c s = (None, refused_conn c, s)"
        using e m rd c2 by (simp add: server_auth_def refused_conn_def split: sum.splits message.splits)
      then show ?thesis by (rule refused)
    next
      case True
      then obtain mtu a where r: "r = Inr (SessionRequest mtu a)" by blast
      from e m(1) have "inbuf c = marshalPlainFrame (Auth cn) @ inbuf c1" "c1 = c\<lparr>inbuf := inbuf c1\<rparr>"
        by (simp_all only: expect_Some)
      moreover from rd [unfolded r read_request]
      have "zone a = ''''" "inbuf c1 = sealed_request secret cid sn cn mtu a @ inbuf c2"
        "sec' = opened secret cid sn cn" "c2 = c1\<lparr>inbuf := inbuf c2\<rparr>" by blast+
      moreover from this have "c2 = c\<lparr>inbuf := inbuf c2\<rparr>"
        using \<open>c1 = c\<lparr>inbuf := inbuf c1\<rparr>\<close> by (metis conn.update_convs(1) conn.surjective)
      ultimately show ?thesis
        using let_in [of cn a mtu "inbuf c2"] e m rd r
        by (simp add: server_auth_def request_of_def)
    qed
  qed
qed

text \<open>The same for the whole handshake, whose first part ends with the challenge.\<close>

definition challenged :: "conn \<Rightarrow> hs_env \<Rightarrow> string \<Rightarrow> 32 word \<Rightarrow> conn \<Rightarrow> bytes \<Rightarrow> conn \<Rightarrow> bool" where
  "challenged c env cid caps c1 sn c2 \<longleftrightarrow>
     looksLikeControl c \<and> expect KHello c = (Some (Hello cid caps), c1) \<and> ValidClientID cid \<and>
     NewNonce (he_nonce env) = Inr sn \<and> WriteMessage (Challenge sn) c1 = (None, c2)"

definition unchallenged_conn :: "server \<Rightarrow> hs_env \<Rightarrow> conn \<Rightarrow> conn" where
  "unchallenged_conn sv env c =
     (if \<not> looksLikeControl c then writeDecoy sv env c
      else case expect KHello c of
        (Some (Hello cid caps), c1) \<Rightarrow>
          if \<not> ValidClientID cid then writeTeardown ReasonBadClientID c1
          else (case NewNonce (he_nonce env) of
                  Inl _ \<Rightarrow> c1
                | Inr sn \<Rightarrow> snd (WriteMessage (Challenge sn) c1))
      | (_, c1) \<Rightarrow> c1)"

lemma server_handshake_challenge:
  "(\<nexists>cid caps c1 sn c2. challenged c env cid caps c1 sn c2) \<Longrightarrow>
     server_handshake sv env est peer c s = (None, unchallenged_conn sv env c, s)"
  "challenged c env cid caps c1 sn c2 \<Longrightarrow>
     server_handshake sv env est peer c s = server_auth est peer cid (server_secret sv env cid) sn c2 s"
proof -
  obtain m c1 where e: "expect KHello c = (m, c1)" by (metis surj_pair)
  assume n: "\<nexists>cid caps c1 sn c2. challenged c env cid caps c1 sn c2"
  show "server_handshake sv env est peer c s = (None, unchallenged_conn sv env c, s)"
  proof (cases "\<exists>cid caps. m = Some (Hello cid caps)")
    case False
    then show ?thesis
      using e by (simp add: server_handshake_def unchallenged_conn_def split: option.splits message.splits)
  next
    case True
    then obtain cid caps where m: "m = Some (Hello cid caps)" by blast
    have "\<not> challenged c env cid caps c1 sn c2" for sn c2 using n by blast
    then show ?thesis
      using e m by (auto simp: server_handshake_def unchallenged_conn_def challenged_def
          split: sum.splits prod.splits option.splits)
  qed
qed (simp add: server_handshake_def challenged_def)

lemma server_handshake_cases:
  obtains (refused) c' where "server_handshake sv env est peer c s = (None, c', s)"
  | (let_in) sn cid caps cn mtu a rest c2 where
    "NewNonce (he_nonce env) = Inr sn" "ValidClientID cid" "length cn = NonceLen" "zone a = ''''"
    "inbuf c = marshalPlainFrame (Hello cid caps) @ marshalPlainFrame (Auth cn) @
       sealed_request (server_secret sv env cid) cid sn cn mtu a @ rest"
    "server_handshake sv env est peer c s
       = server_establish est (request_of cid peer mtu a) (opened (server_secret sv env cid) cid sn cn) c2 s"
    "outbuf c2 = outbuf c @ marshalPlainFrame (Challenge sn)"
proof (cases "\<exists>cid caps c1 sn c2. challenged c env cid caps c1 sn c2")
  case False
  then show ?thesis by (rule server_handshake_challenge(1) [THEN refused])
next
  case True
  then obtain cid caps c1 sn c2 where ch: "challenged c env cid caps c1 sn c2" by blast
  note run = server_handshake_challenge(2) [OF ch, of sv est peer s]
  note h = ch [unfolded challenged_def, THEN conjunct2]
  have "inbuf c = marshalPlainFrame (Hello cid caps) @ inbuf c1" 
    and c1: "c1 = c\<lparr>inbuf := inbuf c1\<rparr>"
    using h expect_Some by blast+
  moreover have "inbuf c2 = inbuf c1" and out: "outbuf c2 = outbuf c1 @ marshalPlainFrame (Challenge sn)"
    using h WriteMessage_cases [of "Challenge sn" c1 None c2] by auto
  ultimately have inb: "inbuf c = marshalPlainFrame (Hello cid caps) @ inbuf c2" by simp
  have outb: "outbuf c2 = outbuf c @ marshalPlainFrame (Challenge sn)"
    using out arg_cong [OF c1, of outbuf] by simp
  show ?thesis
  proof (cases rule: server_auth_cases [of est peer cid "server_secret sv env cid" sn c2 s])
    case refused
    then show ?thesis using run that(1) by metis
  next
    case (let_in cn mtu a rest)
    show ?thesis by (rule that(2) [of sn cid cn a caps mtu rest "c2\<lparr>inbuf := rest\<rparr>"]) (use h inb outb run let_in in auto)
  qed
qed

section \<open>Properties of a connection\<close>

text \<open>The calls a connection makes on the establisher, in order.\<close>

datatype es_call =
    CallEstablish session_params session_grant "8 word" "string option"
  | CallTeardown session_params session_grant

definition traced :: "'s establisher \<Rightarrow> ('s \<times> es_call list) establisher" where
  "traced est =
     \<lparr>es_establish = \<lambda>p (s, l). (case es_establish est p s of
        ((g, r, e), s') \<Rightarrow> ((g, r, e), s', l @ [CallEstablish p g r e])),
      es_teardown = \<lambda>p g (s, l). (es_teardown est p g s, l @ [CallTeardown p g])\<rparr>"

lemma traced_simps [simp]:
  "es_establish (traced est) p (s, l) =
     (case es_establish est p s of ((g, r, e), s') \<Rightarrow> ((g, r, e), s', l @ [CallEstablish p g r e]))"
  "es_teardown (traced est) p g (s, l) = (es_teardown est p g s, l @ [CallTeardown p g])"
  by (simp_all add: traced_def)

definition session_life :: "es_call list \<Rightarrow> bool" where
  "session_life l \<longleftrightarrow> l = [] \<or>
     (\<exists>p g r e. l = [CallEstablish p g r e] \<and> (e \<noteq> None \<or> r \<noteq> ResultOK)) \<or>
     (\<exists>p g. l = [CallEstablish p g ResultOK None, CallTeardown p g])"

lemma server_establish_traced:
  assumes "server_establish (traced est) p sec c (s, []) = (res, c', s', l)"
  shows "case res of
       None \<Rightarrow> (\<exists>g r e. l = [CallEstablish p g r e] \<and> (e \<noteq> None \<or> r \<noteq> ResultOK)) \<or>
               (\<exists>g. l = [CallEstablish p g ResultOK None, CallTeardown p g])
     | Some (p', g, sec') \<Rightarrow> p' = p \<and> l = [CallEstablish p g ResultOK None]"
  using assms by (auto simp: server_establish_def split: prod.splits option.splits if_splits)

text \<open>
  C11. Every connection treats its session correctly, whatever the peer sends and whatever
  fails: it asks for at most one session, a session that was granted is torn down exactly
  once, with the parameters and the grant it was established with, and a refused one never.
\<close>

theorem connection_balanced: "session_life (snd (snd (server_handle sv env (traced est) peer c (s, []))))"
proof (cases rule: server_handshake_cases [of sv env "traced est" peer c "(s, [])"])
  case (refused c')
  then show ?thesis by (simp add: server_handle_def session_life_def)
next
  case (let_in sn cid caps cn mtu a rest c2)
  obtain res c' s' l where r: "server_handshake sv env (traced est) peer c (s, []) = (res, c', s', l)"
    by (metis prod_cases4)
  from server_establish_traced [OF let_in(6) [symmetric, unfolded r]] r show ?thesis
    by (cases res) (auto simp: server_handle_def session_life_def)
qed

text \<open>A run that ends before \<^verbatim>\<open>Establish\<close> leaves a connection that does not depend on any secret.\<close>

lemma unestablished_conn:
  assumes "server_handshake sv env (traced est) peer c (s, []) = (res, c', s', [])"
  shows "res = None \<and> s' = s \<and>
    c' = (if \<exists>cid caps c1 sn c2. challenged c env cid caps c1 sn c2
          then refused_conn (snd (WriteMessage (Challenge (take NonceLen (the (he_nonce env)))) (snd (expect KHello c))))
          else unchallenged_conn sv env c)"
proof (cases "\<exists>cid caps c1 sn c2. challenged c env cid caps c1 sn c2")
  case False
  then show ?thesis using assms server_handshake_challenge(1) [OF False, of sv "traced est" peer "(s, [])"] by simp
next
  case True
  then obtain cid caps c1 sn c2 where ch: "challenged c env cid caps c1 sn c2" by blast
  then have c2: "c2 = snd (WriteMessage (Challenge (take NonceLen (the (he_nonce env)))) (snd (expect KHello c)))"
    by (auto simp: challenged_def NewNonce_def split: option.splits)
  note run = server_handshake_challenge(2) [OF ch, of sv "traced est" peer "(s, [])"]
  show ?thesis
  proof (cases rule: server_auth_cases [of "traced est" peer cid "server_secret sv env cid" sn c2 "(s, [])"])
    case refused
    then show ?thesis using assms run True c2 by simp
  next
    case (let_in cn mtu a rest)
    from server_establish_traced [OF let_in(4) [unfolded run [symmetric] assms, symmetric]]
    show ?thesis by (cases res) auto
  qed
qed

text \<open>
  C12. A peer that does not hold the right secret cannot tell why it is refused: two servers
  that differ in their secrets, their lists of clients and their random secrets, but draw the
  same nonce and serve the same decoy, send it the same bytes and leave the connection in the
  same state. In particular an unknown identity is indistinguishable from a wrong secret.
\<close>

theorem refusal_uniform:
  assumes "server_handshake sv env (traced est) peer c (s, []) = (res, c1, s1, [])"
    and "server_handshake sv' env' (traced est') peer c (s, []) = (res', c2, s2, [])"
    and "he_nonce env' = he_nonce env" "he_http env' = he_http env" "he_date env' = he_date env"
    and "sv_redirect sv' = sv_redirect sv" "sv_must_hide sv' = sv_must_hide sv"
  shows "res = None \<and> res' = None \<and> c1 = c2 \<and> s1 = s2"
proof -
  have "challenged c env' = challenged c env"
    using assms(3) by (simp add: challenged_def fun_eq_iff)
  moreover have "unchallenged_conn sv' env' c = unchallenged_conn sv env c"
    unfolding unchallenged_conn_def writeDecoy_def decoy_response_def decoy_page_def assms(3-7) by (rule refl)
  ultimately show ?thesis
    using unestablished_conn [OF assms(1)] unestablished_conn [OF assms(2)] unfolding assms(3) by metis
qed

text \<open>
  Camouflage: a peer whose first bytes are not the header of a control message gets one
  HTTP response and nothing else, no session is asked for, and when the gremlin must hide the
  response does not depend on what the peer sent: it is the redirect or the stock page.
\<close>

theorem stranger_gets_decoy:
  assumes "\<not> looksLikeControl c" and "wplan c = []"
  shows "\<exists>path. server_handle sv env est peer c s
      = (c\<lparr>outbuf := outbuf c @ bytes_of_string (decoy_response sv path (he_date env))\<rparr>, s) \<and>
    (sv_must_hide sv \<longrightarrow> decoy_response sv path (he_date env) = decoy_response sv '''' (he_date env)) \<and>
    (path \<noteq> decoyEggPath \<longrightarrow> sv_redirect sv = '''' \<longrightarrow> fst (decoy_page sv path) = ''404 Not Found'')"
  using assms
  by (auto simp: server_handle_def server_handshake_def writeDecoy_def conn_write_def sent_upto_def
      decoy_response_def decoy_page_def Let_def)

section \<open>Keepalive\<close>

text \<open>The acknowledgements the loop owes for a sequence of messages, up to a teardown.\<close>

fun acks :: "message list \<Rightarrow> message list" where
  "acks [] = []"
| "acks (m # ms) = (case m of Echo n \<Rightarrow> EchoAck n # acks ms | Teardown _ \<Rightarrow> [] | _ \<Rightarrow> acks ms)"

fun sealed_all :: "aead \<Rightarrow> 64 word \<Rightarrow> message list \<Rightarrow> bytes" where
  "sealed_all k n [] = []"
| "sealed_all k n (m # ms) = sealed k n m @ sealed_all k (n + 1) ms"

lemma keepalive_acks:
  assumes "channel_pair k w sec" "channel_pair k' sec w'"
    and "list_all (\<lambda>m. chan_ok m \<and> chan_fits m) ms"
    and "inbuf c = sealed_all k (readSeq sec) ms" "wplan c = []"
  shows "outbuf (snd (server_keepalive sec c)) = outbuf c @ sealed_all k' (writeSeq sec) (acks ms)"
  using assms
proof (induction ms arbitrary: w sec w' c)
  case Nil
  then have "ReadMessage c = (Inl (ReadIO (rend c)), c\<lparr>inbuf := []\<rparr>)"
    by (simp add: ReadMessage_def ReadMessageLimited_def read_full_def frameHeaderLen_def)
  then show ?case by (simp add: server_keepalive.simps [of sec c] chan_ReadMessage_def)
next
  case (Cons m ms)
  let ?sec = "sec\<lparr>readSeq := readSeq sec + 1\<rparr>" and ?c = "c\<lparr>inbuf := sealed_all k (readSeq sec + 1) ms\<rparr>"
  have rd: "chan_ReadMessage (sec, c) = (Inr m, ?sec, ?c)"
    using Cons.prems channel_pair.read_iff [OF Cons.prems(1), of c m ?sec ?c] by simp
  have up: "channel_pair k (w\<lparr>writeSeq := writeSeq w + 1\<rparr>) ?sec" by (rule channel_pair_next [OF Cons.prems(1)])
  have down: "channel_pair k' ?sec w'"
    using Cons.prems(2) by (simp add: channel_pair_def channel_pair_axioms_def)
  show ?case
  proof (cases "\<exists>n. m = Echo n")
    case True
    then obtain n where m: "m = Echo n" by blast
    let ?sec2 = "?sec\<lparr>writeSeq := writeSeq sec + 1\<rparr>" and ?c2 = "?c\<lparr>outbuf := outbuf c @ sealed k' (writeSeq sec) (EchoAck n)\<rparr>"
    have "chan_fits (EchoAck n)" by (simp add: chan_fits_def MaxPayload_def enc_u32_def)
    then have "chan_WriteMessage (EchoAck n) (?sec, ?c) = (None, ?sec2, ?c2)"
      using chan_WriteMessage_complete [OF down, of ?c] Cons.prems(5) by simp
    moreover have "channel_pair k (w\<lparr>writeSeq := writeSeq w + 1\<rparr>) ?sec2"
      using up by (simp add: channel_pair_def channel_pair_axioms_def)
    moreover have "channel_pair k' ?sec2 (w'\<lparr>readSeq := readSeq w' + 1\<rparr>)"
      using channel_pair_next [OF down] by simp
    ultimately show ?thesis
      using Cons.IH [of _ ?sec2 _ ?c2] Cons.prems rd m by (simp add: server_keepalive.simps [of sec c])
  next
    case False
    then show ?thesis
      using Cons.IH [OF up down] Cons.prems rd
      by (cases m) (simp_all add: server_keepalive.simps [of sec c])
  qed
qed

text \<open>
  The keepalive loop answers every probe: when the client's channel sends any sequence of
  messages, the server acknowledges exactly the probes before the first teardown, in order,
  each with its own sequence number, and ignores everything else.
\<close>

theorem keepalive_answers:
  assumes "list_all (\<lambda>m. chan_ok m \<and> chan_fits m) ms"
    and "inbuf c = sealed_all (writeKey (client_chan secret cid sn cn)) 0 ms" and "wplan c = []"
  shows "outbuf (snd (server_keepalive (server_chan secret cid sn cn) c))
    = outbuf c @ sealed_all (writeKey (server_chan secret cid sn cn)) 0 (acks ms)"
  using keepalive_acks [OF up.channel_pair_axioms down.channel_pair_axioms assms(1) _ assms(3)] assms(2)
  by simp

section \<open>Witnesses\<close>

definition demo_server :: server where
  "demo_server = \<lparr>sv_psk = ''hunter2'', sv_clients = fmempty, sv_redirect = '''', sv_must_hide = True\<rparr>"

definition demo_hs :: hs_env where
  "demo_hs = \<lparr>he_secret = Some (replicate 32 3), he_nonce = Some (replicate 32 5), he_http = \<lambda>_. None,
     he_date = ''Thu, 01 Jan 1970 00:00:00 GMT''\<rparr>"

definition srv_grant :: session_grant where
  "srv_grant = \<lparr>g_client_inner = V4 0x0a000002, g_server_inner = V4 0x0a000001, g_server_outer = V4 0xc0000201,
     g_grekey = 7, g_flags = TunnelFlagGREKey, g_mtu = 1400, g_key = 7\<rparr>"

definition demo_est :: "nat establisher" where
  "demo_est = \<lparr>es_establish = \<lambda>p n. ((srv_grant, ResultOK, None), n + 1), es_teardown = \<lambda>p g n. n - 1\<rparr>"

definition probe :: conn where
  "probe = idle\<lparr>inbuf := bytes_of_string ''GET / HTTP/1.1''\<rparr>"

lemma probe_unestablished:
  "server_handshake sv demo_hs (traced est) peer probe (s, []) = (None, writeDecoy sv demo_hs probe, s, [])"
proof -
  have "\<not> looksLikeControl probe" by code_simp
  then show ?thesis by (simp add: server_handshake_def)
qed

theorem refusal_uniform_witness:
  "writeDecoy demo_server demo_hs probe = writeDecoy (demo_server\<lparr>sv_psk := ''other''\<rparr>) demo_hs probe"
  using refusal_uniform [OF probe_unestablished [of demo_server demo_est "OtherAddr ''x''" 0]
      probe_unestablished [of "demo_server\<lparr>sv_psk := ''other''\<rparr>" demo_est "OtherAddr ''x''" 0] refl refl refl]
  by simp

theorem stranger_gets_decoy_witness:
  "\<exists>path. server_handle demo_server demo_hs demo_est (OtherAddr ''x'') probe 0
      = (probe\<lparr>outbuf := bytes_of_string (decoy_response demo_server path (he_date demo_hs))\<rparr>, 0) \<and>
    decoy_response demo_server path (he_date demo_hs) = decoy_response demo_server '''' (he_date demo_hs)"
proof -
  have "\<not> looksLikeControl probe" by code_simp
  moreover have "wplan probe = []" "outbuf probe = []" "sv_must_hide demo_server"
    by (simp_all add: probe_def idle_def demo_server_def)
  ultimately show ?thesis
    using stranger_gets_decoy [of probe demo_server demo_hs demo_est "OtherAddr ''x''" 0] by simp blast
qed

theorem keepalive_answers_witness:
  "outbuf (snd (server_keepalive (server_chan ''s'' ''c'' [1] [2])
      (idle\<lparr>inbuf := sealed_all (writeKey (client_chan ''s'' ''c'' [1] [2])) 0 [Echo 1, EchoAck 4, Echo 2]\<rparr>)))
    = sealed_all (writeKey (server_chan ''s'' ''c'' [1] [2])) 0 [EchoAck 1, EchoAck 2]"
proof -
  have "list_all (\<lambda>m. chan_ok m \<and> chan_fits m) [Echo 1, EchoAck 4, Echo 2]"
    by (simp add: chan_ok_def chan_fits_def MaxPayload_def enc_u32_def)
  from keepalive_answers [OF this, of "idle\<lparr>inbuf := sealed_all (writeKey (client_chan ''s'' ''c'' [1] [2])) 0 [Echo 1, EchoAck 4, Echo 2]\<rparr>" "''s''" "''c''" "[1]" "[2]"]
  show ?thesis by (simp add: idle_def)
qed

end
