(* ===== verification/Client.thy ===== *)
theory Client
  imports Server
begin

text \<open>
  The control client of \<^verbatim>\<open>internal/control/client.go\<close>: its half of the handshake, the reader of
  the keepalive phase, and the goroutines that write on the channel in that phase.
\<close>

section \<open>The handshake\<close>

record client =
  cl_id :: string
  cl_secret :: string
  cl_mtu :: "16 word"
  cl_requested :: addr

record client_session =
  cs_client_inner :: addr
  cs_server_inner :: addr
  cs_server_outer :: addr
  cs_grekey :: "32 word"
  cs_flags :: "32 word"
  cs_mtu :: "16 word"

text \<open>\<^verbatim>\<open>Result.String\<close>\<close>

definition result_string :: "8 word \<Rightarrow> string" where
  "result_string r =
     (if r = ResultOK then ''ok'' else if r = ResultAuthFailed then ''auth-failed''
      else if r = ResultNoAddresses then ''no-addresses'' else if r = ResultUnsupported then ''unsupported''
      else ''internal-error'')"

text \<open>The errors of \<^verbatim>\<open>Handshake\<close>; those under \<open>Rejected\<close> wrap \<^verbatim>\<open>ErrRejected\<close>.\<close>

datatype rejection =
    ByTeardown string
  | ServerAuthentication
  | ByResult string string
  | UnknownFlags "32 word"
  | KeyMissing

datatype client_error =
    InvalidClientID
  | SendHello write_error
  | ReadChallenge read_error
  | ExpectedChallenge "8 word"
  | ClientNonce rand_error
  | SendAuth write_error
  | ChannelSetup key_error
  | SendRequest write_error
  | TryLater string string
  | ExpectedReply "8 word"
  | Rejected rejection

text \<open>What the client makes of the first message in the encrypted channel.\<close>

definition client_accept :: "session_reply \<Rightarrow> (client_error, client_session) result" where
  "client_accept m =
     (if Result m \<noteq> ResultOK
      then if Result m = ResultNoAddresses then Inl (TryLater (result_string (Result m)) (Message m))
           else Inl (Rejected (ByResult (result_string (Result m)) (Message m)))
      else
        let unknown = TunnelFlags m AND NOT (TunnelFlagGREKey OR TunnelFlagGRESeq);
            session = (\<lambda>key. Inr \<lparr>cs_client_inner = ClientInner m, cs_server_inner = ServerInner m,
              cs_server_outer = ServerOuter m, cs_grekey = key, cs_flags = TunnelFlags m, cs_mtu = MTU m\<rparr>)
        in if unknown \<noteq> 0 then Inl (Rejected (UnknownFlags unknown))
           else if TunnelFlags m AND TunnelFlagGREKey \<noteq> 0
           then if GREKey m = 0 then Inl (Rejected KeyMissing) else session (GREKey m)
           else session 0)"

definition client_reply :: "message \<Rightarrow> (client_error, client_session) result" where
  "client_reply m =
     (case m of
        SessionReply r \<Rightarrow> client_accept r
      | Teardown reason \<Rightarrow> Inl (Rejected (ByTeardown reason))
      | _ \<Rightarrow> Inl (ExpectedReply (msg_type m)))"

text \<open>From the nonce on; \<open>rnd\<close> is the client's read of the random source.\<close>

definition client_auth ::
  "client \<Rightarrow> bytes option \<Rightarrow> bytes \<Rightarrow> conn \<Rightarrow>
     (client_error, client_session \<times> secure_channel) result \<times> conn" where
  "client_auth cl rnd sn c =
     (case NewNonce rnd of
        Inl e \<Rightarrow> (Inl (ClientNonce e), c)
      | Inr cn \<Rightarrow>
          (case WriteMessage (Auth cn) c of
             (Some e, c1) \<Rightarrow> (Inl (SendAuth e), c1)
           | (None, c1) \<Rightarrow>
               (case newClientSecureChannel (cl_secret cl) (cl_id cl) sn cn of
                  Inl e \<Rightarrow> (Inl (ChannelSetup e), c1)
                | Inr sec \<Rightarrow>
                    (case chan_WriteMessage (SessionRequest (cl_mtu cl) (cl_requested cl)) (sec, c1) of
                       (Some e, _, c2) \<Rightarrow> (Inl (SendRequest e), c2)
                     | (None, sec1, c2) \<Rightarrow>
                         (case chan_ReadMessage (sec1, c2) of
                            (Inl _, _, c3) \<Rightarrow> (Inl (Rejected ServerAuthentication), c3)
                          | (Inr m, sec2, c3) \<Rightarrow>
                              (map_sum id (\<lambda>ses. (ses, sec2)) (client_reply m), c3))))))"

definition client_handshake ::
  "client \<Rightarrow> bytes option \<Rightarrow> conn \<Rightarrow> (client_error, client_session \<times> secure_channel) result \<times> conn" where
  "client_handshake cl rnd c =
     (if \<not> ValidClientID (cl_id cl) then (Inl InvalidClientID, c)
      else case WriteMessage (Hello (cl_id cl) 0) c of
        (Some e, c1) \<Rightarrow> (Inl (SendHello e), c1)
      | (None, c1) \<Rightarrow>
          (case ReadMessage c1 of
             (Inl e, c2) \<Rightarrow> (Inl (ReadChallenge e), c2)
           | (Inr (Challenge sn), c2) \<Rightarrow> client_auth cl rnd sn c2
           | (Inr (Teardown reason), c2) \<Rightarrow> (Inl (Rejected (ByTeardown reason)), c2)
           | (Inr m, c2) \<Rightarrow> (Inl (ExpectedChallenge (msg_type m)), c2)))"

section \<open>Keepalive\<close>

datatype keepalive_end =
    SendFailed write_error
  | Cancelled
  | ReadFailed chan_error
  | ServerTeardown string

text \<open>
  The reading loop of \<^verbatim>\<open>KeepaliveLoop\<close>. At its \<open>i\<close>-th turn \<open>sent i\<close> is the error the probing
  goroutine has left in the channel, if any; \<open>cancelled\<close> is whether the context is cancelled
  when a read fails.
\<close>

function client_keepalive ::
  "(nat \<Rightarrow> write_error option) \<Rightarrow> bool \<Rightarrow> nat \<Rightarrow> secure_channel \<Rightarrow> conn \<Rightarrow>
     keepalive_end \<times> secure_channel \<times> conn" where
  "client_keepalive sent cancelled i sec c =
     (case sent i of
        Some e \<Rightarrow> (SendFailed e, sec, c)
      | None \<Rightarrow>
          (case chan_ReadMessage (sec, c) of
             (Inl e, sec', c') \<Rightarrow> (if cancelled then Cancelled else ReadFailed e, sec', c')
           | (Inr (Teardown reason), sec', c') \<Rightarrow> (ServerTeardown reason, sec', c')
           | (Inr _, sec', c') \<Rightarrow> client_keepalive sent cancelled (Suc i) sec' c'))"
  by pat_completeness auto

termination
  by (relation "measure (\<lambda>(sent, cancelled, i, sec, c). length (inbuf c))")
    (auto dest!: sym [THEN chan_ReadMessage_shorter])

declare client_keepalive.simps [simp del]

text \<open>
  The writers of the keepalive phase: the goroutine that sends a probe at every tick and the
  one that announces the shutdown. Both call \<^verbatim>\<open>secureChannel.WriteMessage\<close>, which seals with
  the current sequence number and then increments it; nothing makes the two atomic. The state
  is the sequence number, for each goroutine the message it has sealed but not yet counted,
  the number of the last probe, whether the context is cancelled, and the sealed messages with
  the sequence number whose nonce they used.
\<close>

record writers =
  kw_seq :: "64 word"
  kw_probe :: "32 word"
  kw_pinging :: "message option"
  kw_byeing :: "message option"
  kw_cancelled :: bool
  kw_said_bye :: bool
  kw_sealed :: "(64 word \<times> message) list"

inductive kstep :: "writers \<Rightarrow> writers \<Rightarrow> bool" where
  tick: "kw_pinging w = None \<Longrightarrow>
     kstep w (w\<lparr>kw_probe := kw_probe w + 1, kw_pinging := Some (Echo (kw_probe w + 1)),
       kw_sealed := kw_sealed w @ [(kw_seq w, Echo (kw_probe w + 1))]\<rparr>)"
| ticked: "kw_pinging w = Some m \<Longrightarrow> kstep w (w\<lparr>kw_pinging := None, kw_seq := kw_seq w + 1\<rparr>)"
| cancel: "kstep w (w\<lparr>kw_cancelled := True\<rparr>)"
| bye: "kw_cancelled w \<Longrightarrow> \<not> kw_said_bye w \<Longrightarrow>
     kstep w (w\<lparr>kw_said_bye := True, kw_byeing := Some (Teardown ReasonClientBye),
       kw_sealed := kw_sealed w @ [(kw_seq w, Teardown ReasonClientBye)]\<rparr>)"
| byed: "kw_byeing w = Some m \<Longrightarrow> kstep w (w\<lparr>kw_byeing := None, kw_seq := kw_seq w + 1\<rparr>)"

definition kstart :: "64 word \<Rightarrow> writers" where
  "kstart n = \<lparr>kw_seq = n, kw_probe = 0, kw_pinging = None, kw_byeing = None, kw_cancelled = False,
     kw_said_bye = False, kw_sealed = []\<rparr>"

section \<open>Properties of the client\<close>

text \<open>
  The client builds a tunnel exactly from replies it understands: it accepts a reply if and
  only if the result is OK, no flag is set beyond key and sequence, and a key is present when
  keys are selected; it then takes the addresses and the MTU of the reply and uses a key only
  when keys are selected. Exhaustion is the only refusal it may retry.
\<close>

theorem client_accepts:
  "(client_accept r = Inr ses \<longleftrightarrow>
      Result r = ResultOK \<and> TunnelFlags r AND NOT (TunnelFlagGREKey OR TunnelFlagGRESeq) = 0 \<and>
      (TunnelFlags r AND TunnelFlagGREKey \<noteq> 0 \<longrightarrow> GREKey r \<noteq> 0) \<and>
      ses = \<lparr>cs_client_inner = ClientInner r, cs_server_inner = ServerInner r, cs_server_outer = ServerOuter r,
        cs_grekey = (if TunnelFlags r AND TunnelFlagGREKey \<noteq> 0 then GREKey r else 0),
        cs_flags = TunnelFlags r, cs_mtu = MTU r\<rparr>) \<and>
   (client_accept r = Inl e \<and> (\<forall>x. e \<noteq> Rejected x) \<longrightarrow> Result r = ResultNoAddresses)"
  by (auto simp: client_accept_def Let_def)

theorem client_accepts_witness:
  "client_accept (zero_reply\<lparr>Result := ResultNoAddresses\<rparr>) = Inl (TryLater ''no-addresses'' '''') \<and>
   Result (zero_reply\<lparr>Result := ResultNoAddresses\<rparr>) = ResultNoAddresses"
proof -
  have "client_accept (zero_reply\<lparr>Result := ResultNoAddresses\<rparr>) = Inl (TryLater ''no-addresses'' '''')"
    by code_simp
  then show ?thesis
    using client_accepts [of "zero_reply\<lparr>Result := ResultNoAddresses\<rparr>" undefined "TryLater ''no-addresses'' ''''"]
    by simp
qed


text \<open>A successful handshake of the client, by the bytes it reads and writes.\<close>

definition sealed_reply :: "string \<Rightarrow> string \<Rightarrow> bytes \<Rightarrow> bytes \<Rightarrow> session_reply \<Rightarrow> bytes" where
  "sealed_reply secret cid sn cn r = sealed (writeKey (server_chan secret cid sn cn)) 0 (SessionReply r)"

definition client_sends :: "client \<Rightarrow> bytes \<Rightarrow> bytes \<Rightarrow> bytes" where
  "client_sends cl sn cn = marshalPlainFrame (Hello (cl_id cl) 0) @ marshalPlainFrame (Auth cn) @
     sealed_request (cl_secret cl) (cl_id cl) sn cn (cl_mtu cl) (cl_requested cl)"

lemma client_read_reply:
  "chan_ReadMessage ((client_chan secret cid sn cn)\<lparr>writeSeq := n\<rparr>, c) = (Inr m, sec, c') \<longleftrightarrow>
     chan_ok m \<and> chan_fits m \<and> inbuf c = sealed (writeKey (server_chan secret cid sn cn)) 0 m @ inbuf c' \<and>
     sec = (client_chan secret cid sn cn)\<lparr>writeSeq := n, readSeq := 1\<rparr> \<and> c' = c\<lparr>inbuf := inbuf c'\<rparr>"
proof -
  have "channel_pair (writeKey (server_chan secret cid sn cn)) (server_chan secret cid sn cn)
      ((client_chan secret cid sn cn)\<lparr>writeSeq := n\<rparr>)"
    using down.channel_pair_axioms by (simp add: channel_pair_def channel_pair_axioms_def)
  from channel_pair.read_iff [OF this] show ?thesis by simp
qed

lemma client_auth_ok:
  assumes "client_auth cl rnd sn c = (Inr (ses, csec), c')"
  shows "\<exists>cn r. NewNonce rnd = Inr cn \<and> chan_ok (SessionReply r) \<and> chan_fits (SessionReply r) \<and>
    client_accept r = Inr ses \<and>
    inbuf c = sealed_reply (cl_secret cl) (cl_id cl) sn cn r @ inbuf c' \<and>
    outbuf c' = outbuf c @ marshalPlainFrame (Auth cn) @
      sealed_request (cl_secret cl) (cl_id cl) sn cn (cl_mtu cl) (cl_requested cl) \<and>
    csec = (client_chan (cl_secret cl) (cl_id cl) sn cn)\<lparr>writeSeq := 1, readSeq := 1\<rparr>"
proof -
  let ?cc = "\<lambda>cn. client_chan (cl_secret cl) (cl_id cl) sn cn"
  from assms obtain cn c1 sec1 c2 m sec2 where
    cn: "NewNonce rnd = Inr cn" and w1: "WriteMessage (Auth cn) c = (None, c1)"
    and w2: "chan_WriteMessage (SessionRequest (cl_mtu cl) (cl_requested cl)) (?cc cn, c1) = (None, sec1, c2)"
    and rd: "chan_ReadMessage (sec1, c2) = (Inr m, csec, c')" and rp: "client_reply m = Inr ses"
    by (auto simp: client_auth_def map_sum_def split: sum.splits prod.splits option.splits)
  from up.write_iff [OF w2] have s1: "sec1 = (?cc cn)\<lparr>writeSeq := 1\<rparr>"
    and o2: "outbuf c2 = outbuf c1 @ sealed_request (cl_secret cl) (cl_id cl) sn cn (cl_mtu cl) (cl_requested cl)"
    and i2: "inbuf c2 = inbuf c1" by (simp_all add: sealed_request_def)
  from rp obtain r where m: "m = SessionReply r" "client_accept r = Inr ses"
    by (auto simp: client_reply_def split: message.splits)
  from WriteMessage_cases [OF w1] have "inbuf c1 = inbuf c" "outbuf c1 = outbuf c @ marshalPlainFrame (Auth cn)"
    by auto
  moreover from rd [unfolded s1 client_read_reply m]
  have "chan_ok (SessionReply r)" "chan_fits (SessionReply r)" "csec = (?cc cn)\<lparr>writeSeq := 1, readSeq := 1\<rparr>"
    "inbuf c2 = sealed_reply (cl_secret cl) (cl_id cl) sn cn r @ inbuf c'" "outbuf c' = outbuf c2"
    by (auto simp: sealed_reply_def dest: arg_cong [where f = outbuf])
  ultimately show ?thesis using cn m(2) o2 i2 by auto
qed

lemma client_handshake_ok:
  assumes "client_handshake cl rnd c = (Inr (ses, csec), c')"
  shows "\<exists>sn cn r. length sn = NonceLen \<and> ValidClientID (cl_id cl) \<and> NewNonce rnd = Inr cn \<and>
    chan_ok (SessionReply r) \<and> chan_fits (SessionReply r) \<and> client_accept r = Inr ses \<and>
    inbuf c = marshalPlainFrame (Challenge sn) @ sealed_reply (cl_secret cl) (cl_id cl) sn cn r @ inbuf c' \<and>
    outbuf c' = outbuf c @ client_sends cl sn cn \<and>
    csec = (client_chan (cl_secret cl) (cl_id cl) sn cn)\<lparr>writeSeq := 1, readSeq := 1\<rparr>"
proof -
  from assms obtain c1 sn c2 where v: "ValidClientID (cl_id cl)"
    and w: "WriteMessage (Hello (cl_id cl) 0) c = (None, c1)"
    and rd: "ReadMessage c1 = (Inr (Challenge sn), c2)" and au: "client_auth cl rnd sn c2 = (Inr (ses, csec), c')"
    by (auto simp: client_handshake_def split: if_splits prod.splits option.splits sum.splits message.splits)
  from rd [unfolded ReadMessage_def ReadMessageLimited_iff [OF order_refl]]
  have "length sn = NonceLen" "inbuf c1 = marshalPlainFrame (Challenge sn) @ inbuf c2" "outbuf c2 = outbuf c1"
    by (auto dest: arg_cong [where f = outbuf])
  moreover from WriteMessage_cases [OF w]
  have "inbuf c1 = inbuf c" "outbuf c1 = outbuf c @ marshalPlainFrame (Hello (cl_id cl) 0)" by auto
  ultimately show ?thesis
    using client_auth_ok [OF au] v by (auto simp: client_sends_def)
qed

end
