(* ===== verification/Handshake.thy ===== *)
theory Handshake
  imports Client
begin

text \<open>
  Client and server together: what a successful handshake means for both ends, that the
  dialogue of an honest client with the server completes, and who can get a session.
\<close>

section \<open>Frames and sealed frames are prefix-free\<close>

lemma frame_append_inject:
  assumes "marshalPlainFrame m @ r = marshalPlainFrame m' @ r'" "msg_ok m" "msg_ok m'"
    "length (marshalPayload m) \<le> MaxPayload" "length (marshalPayload m') \<le> MaxPayload"
  shows "m = m' \<and> r = r'"
proof -
  let ?d = "idle\<lparr>inbuf := marshalPlainFrame m @ r\<rparr>"
  have "ReadMessage ?d = (Inr m, ?d\<lparr>inbuf := r\<rparr>)" "ReadMessage ?d = (Inr m', ?d\<lparr>inbuf := r'\<rparr>)"
    unfolding ReadMessage_def ReadMessageLimited_iff [OF order_refl] using assms by simp_all
  then show ?thesis by (simp add: idle_def)
qed

context channel_pair
begin

lemma sealed_append_inject:
  assumes "sealed k (readSeq r) m @ x = sealed k (readSeq r) m' @ x'"
    "chan_ok m" "chan_ok m'" "chan_fits m" "chan_fits m'"
  shows "m = m' \<and> x = x'"
proof -
  let ?d = "idle\<lparr>inbuf := sealed k (readSeq r) m @ x\<rparr>" and ?r = "r\<lparr>readSeq := readSeq r + 1\<rparr>"
  have "chan_ReadMessage (r, ?d) = (Inr m, ?r, ?d\<lparr>inbuf := x\<rparr>)"
    "chan_ReadMessage (r, ?d) = (Inr m', ?r, ?d\<lparr>inbuf := x'\<rparr>)"
    unfolding read_iff using assms by simp_all
  then show ?thesis by (simp add: idle_def)
qed

end

section \<open>A successful handshake, seen by the server\<close>

lemma server_establish_ok:
  assumes "server_establish est p (opened secret cid sn cn) c s = (Some (p', g, sec), c', s')"
  shows "p' = p \<and> es_establish est p s = ((g, ResultOK, None), s') \<and>
    outbuf c' = outbuf c @ sealed_reply secret cid sn cn (reply_granted g) \<and>
    sec = (server_chan secret cid sn cn)\<lparr>readSeq := 1, writeSeq := 1\<rparr> \<and>
    chan_fits (SessionReply (reply_granted g))"
proof -
  let ?w = "opened secret cid sn cn"
  have pair: "channel_pair (writeKey (server_chan secret cid sn cn)) ?w (client_chan secret cid sn cn)"
    using down.channel_pair_axioms by (simp add: channel_pair_def channel_pair_axioms_def opened_def)
  obtain g' r e s1 where es: "es_establish est p s = ((g', r, e), s1)" by (metis surj_pair)
  with assms have "e = None" "r = ResultOK" and w: "chan_WriteMessage (SessionReply (reply_granted g')) (?w, c) = (None, sec, c')"
    and eq: "p' = p" "g = g'" "s' = s1"
    by (auto simp: server_establish_def split: if_splits prod.splits option.splits)
  with channel_pair.write_iff [OF pair w] es show ?thesis
    by (simp add: sealed_reply_def opened_def)
qed

lemma server_handshake_ok:
  assumes "server_handshake sv env est peer d s = (Some (p, g, ssec), d', s')"
  obtains sn cid caps cn mtu a rest where
    "NewNonce (he_nonce env) = Inr sn" "ValidClientID cid" "length cn = NonceLen" "zone a = ''''"
    "inbuf d = marshalPlainFrame (Hello cid caps) @ marshalPlainFrame (Auth cn) @
       sealed_request (server_secret sv env cid) cid sn cn mtu a @ rest"
    "p = request_of cid peer mtu a" "es_establish est p s = ((g, ResultOK, None), s')"
    "outbuf d' = outbuf d @ marshalPlainFrame (Challenge sn) @
       sealed_reply (server_secret sv env cid) cid sn cn (reply_granted g)"
    "ssec = (server_chan (server_secret sv env cid) cid sn cn)\<lparr>readSeq := 1, writeSeq := 1\<rparr>"
    "chan_fits (SessionReply (reply_granted g))"
proof (cases rule: server_handshake_cases [of sv env est peer d s])
  case (refused c')
  with assms show ?thesis by simp
next
  case (let_in sn cid caps cn mtu a rest c2)
  from server_establish_ok [OF let_in(6) [symmetric, unfolded assms]] let_in show ?thesis
    by (intro that [of sn cid cn a caps mtu rest]) auto
qed

section \<open>Agreement\<close>

text \<open>What both ends hold at the end of a handshake.\<close>

definition session_of :: "session_grant \<Rightarrow> client_session" where
  "session_of g =
     \<lparr>cs_client_inner = g_client_inner g, cs_server_inner = g_server_inner g, cs_server_outer = g_server_outer g,
      cs_grekey = (if reply_flags g AND TunnelFlagGREKey \<noteq> 0 then g_grekey g else 0),
      cs_flags = reply_flags g, cs_mtu = g_mtu g\<rparr>"

definition grant_zoneless :: "session_grant \<Rightarrow> bool" where
  "grant_zoneless g \<longleftrightarrow> zone (g_client_inner g) = '''' \<and> zone (g_server_inner g) = '''' \<and> zone (g_server_outer g) = ''''"

definition grant_usable :: "session_grant \<Rightarrow> bool" where
  "grant_usable g \<longleftrightarrow> grant_zoneless g \<and> reply_flags g AND NOT (TunnelFlagGREKey OR TunnelFlagGRESeq) = 0 \<and>
     (reply_flags g AND TunnelFlagGREKey \<noteq> 0 \<longrightarrow> g_grekey g \<noteq> 0)"

lemma client_accept_granted: "client_accept (reply_granted g) = Inr ses \<Longrightarrow> ses = session_of g"
  by (auto simp: client_accept_def session_of_def reply_granted_def Let_def split: if_splits)

lemma client_accept_usable: "grant_usable g \<Longrightarrow> client_accept (reply_granted g) = Inr (session_of g)"
  by (auto simp: client_accept_def session_of_def reply_granted_def grant_usable_def Let_def)

lemma length_enc_addr: "zone a = '''' \<Longrightarrow> length (enc_addr a) \<le> 17"
  by (cases a) (auto simp: enc_addr_def enc_u8_def)

lemma granted_ok: "grant_zoneless g \<Longrightarrow> chan_ok (SessionReply (reply_granted g))"
  by (simp add: chan_ok_def reply_granted_def zero_reply_def grant_zoneless_def)

lemma granted_fits:
  assumes "grant_zoneless g"
  shows "chan_fits (SessionReply (reply_granted g))"
  using assms length_enc_addr [of "g_client_inner g"] length_enc_addr [of "g_server_inner g"]
    length_enc_addr [of "g_server_outer g"]
  by (simp add: chan_fits_def marshal_reply_def reply_granted_def zero_reply_def grant_zoneless_def
      MaxPayload_def enc_u8_def enc_u16_def enc_u32_def enc_str_def enc_bytes_def)

lemma client_id_short: "ValidClientID cid \<Longrightarrow> length cid \<le> 64"
  by (simp add: ValidClientID_def split: if_splits)

lemma hello_frame:
  assumes "ValidClientID cid"
  shows "msg_ok (Hello cid caps)" "length (marshalPayload (Hello cid caps)) \<le> maxHandshakePayload"
    "length (marshalPayload (Hello cid caps)) \<le> MaxPayload"
  using client_id_short [OF assms]
  by (simp_all add: enc_str_def enc_u16_def enc_u32_def maxHandshakePayload_def MaxPayload_def)

lemma nonce_frames:
  assumes "length n = NonceLen"
  shows "msg_ok (Challenge n)" "length (marshalPayload (Challenge n)) \<le> MaxPayload"
    "msg_ok (Auth n)" "length (marshalPayload (Auth n)) \<le> maxHandshakePayload"
    "length (marshalPayload (Auth n)) \<le> MaxPayload"
  using assms by (simp_all add: NonceLen_def enc_bytes_def enc_u16_def maxHandshakePayload_def MaxPayload_def)

lemma hello_auth_inject:
  assumes "marshalPlainFrame (Hello cid caps) @ marshalPlainFrame (Auth cn) @ x
      = marshalPlainFrame (Hello cid' caps') @ marshalPlainFrame (Auth cn') @ x'"
    "ValidClientID cid" "ValidClientID cid'" "length cn = NonceLen" "length cn' = NonceLen"
  shows "cid = cid' \<and> cn = cn' \<and> x = x'"
proof -
  have "marshalPlainFrame (Auth cn) @ x = marshalPlainFrame (Auth cn') @ x'" "cid = cid'"
    using frame_append_inject [OF assms(1)] hello_frame [OF assms(2)] hello_frame [OF assms(3)] by auto
  with frame_append_inject [OF this(1)] nonce_frames [OF assms(4)] nonce_frames [OF assms(5)]
  show ?thesis by auto
qed

lemma sealed_request_inject:
  assumes "sealed_request secret cid sn cn mtu a @ x = sealed_request secret cid sn cn mtu' a' @ x'"
    "zone a = ''''" "zone a' = ''''"
  shows "mtu = mtu' \<and> a = a'"
  using up.sealed_append_inject [of secret cid sn cn "SessionRequest mtu a" x "SessionRequest mtu' a'" x'] assms
  by (simp add: sealed_request_def chan_ok_def chan_fits_request)

lemma reply_inject:
  assumes "marshalPlainFrame (Challenge sn) @ sealed_reply secret cid sn cn r @ x
      = marshalPlainFrame (Challenge sn') @ sealed_reply secret cid sn' cn r' @ x'"
    "length sn = NonceLen" "length sn' = NonceLen"
    "chan_ok (SessionReply r)" "chan_ok (SessionReply r')" "chan_fits (SessionReply r)" "chan_fits (SessionReply r')"
  shows "sn = sn' \<and> r = r'"
proof -
  have "sn = sn'" "sealed_reply secret cid sn cn r @ x = sealed_reply secret cid sn' cn r' @ x'"
    using frame_append_inject [OF assms(1)] nonce_frames [OF assms(2)] nonce_frames [OF assms(3)] by auto
  then show ?thesis
    using down.sealed_append_inject [of secret cid sn cn "SessionReply r" x "SessionReply r'" x'] assms(4-7)
    by (simp add: sealed_reply_def)
qed

text \<open>The random source delivers as many bytes as it was asked for.\<close>

lemma NewNonce_length: "NewNonce rnd = Inr n \<Longrightarrow> length (the rnd) = NonceLen \<Longrightarrow> length n = NonceLen"
  by (auto simp: NewNonce_def split: option.splits)

lemma channels_advance:
  "channel_pair (writeKey (client_chan secret cid sn cn)) ((client_chan secret cid sn cn)\<lparr>writeSeq := n, readSeq := n'\<rparr>)
     ((server_chan secret cid sn cn)\<lparr>readSeq := n, writeSeq := n'\<rparr>)"
  "channel_pair (writeKey (server_chan secret cid sn cn)) ((server_chan secret cid sn cn)\<lparr>readSeq := n, writeSeq := n'\<rparr>)
     ((client_chan secret cid sn cn)\<lparr>writeSeq := n, readSeq := n'\<rparr>)"
  using up.channel_pair_axioms down.channel_pair_axioms
  by (simp_all add: channel_pair_def channel_pair_axioms_def)

text \<open>
  C4. Agreement: when a client and the server hold the same secret and each received what the
  other sent, a handshake that succeeds on both sides leaves them with the same session: the
  server registered the client's identity, MTU and wish, the client took exactly the granted
  addresses, key, flags and MTU, and the two channels are each other's ends, at the same
  sequence numbers in both directions.
\<close>

theorem handshake_agreement:
  assumes "client_handshake cl rnd c = (Inr (ses, csec), c')"
    and "server_handshake sv env est peer d s = (Some (p, g, ssec), d', s')"
    and "outbuf c' = outbuf c @ X" and "inbuf d = X @ pending"
    and "outbuf d' = outbuf d @ Y" and "inbuf c = Y @ pending'"
    and "cl_secret cl = server_secret sv env (cl_id cl)"
    and "grant_zoneless g" and "zone (cl_requested cl) = ''''"
    and "length (the rnd) = NonceLen" and "length (the (he_nonce env)) = NonceLen"
  shows "p = request_of (cl_id cl) peer (cl_mtu cl) (cl_requested cl) \<and> ses = session_of g \<and>
    channel_pair (writeKey csec) csec ssec \<and> channel_pair (writeKey ssec) ssec csec"
proof -
  from client_handshake_ok [OF assms(1)] obtain sn cn r where
    cl: "length sn = NonceLen" "ValidClientID (cl_id cl)" "NewNonce rnd = Inr cn"
    "chan_ok (SessionReply r)" "chan_fits (SessionReply r)" "client_accept r = Inr ses"
    "inbuf c = marshalPlainFrame (Challenge sn) @ sealed_reply (cl_secret cl) (cl_id cl) sn cn r @ inbuf c'"
    "outbuf c' = outbuf c @ client_sends cl sn cn"
    "csec = (client_chan (cl_secret cl) (cl_id cl) sn cn)\<lparr>writeSeq := 1, readSeq := 1\<rparr>" by blast
  obtain sn' cid caps cn' mtu a rest where
    sv: "NewNonce (he_nonce env) = Inr sn'" "ValidClientID cid" "length cn' = NonceLen" "zone a = ''''"
    "inbuf d = marshalPlainFrame (Hello cid caps) @ marshalPlainFrame (Auth cn') @
       sealed_request (server_secret sv env cid) cid sn' cn' mtu a @ rest"
    "p = request_of cid peer mtu a" "es_establish est p s = ((g, ResultOK, None), s')"
    "outbuf d' = outbuf d @ marshalPlainFrame (Challenge sn') @
       sealed_reply (server_secret sv env cid) cid sn' cn' (reply_granted g)"
    "ssec = (server_chan (server_secret sv env cid) cid sn' cn')\<lparr>readSeq := 1, writeSeq := 1\<rparr>"
    "chan_fits (SessionReply (reply_granted g))"
    by (rule server_handshake_ok [OF assms(2)])
  have d: "marshalPlainFrame (Hello (cl_id cl) 0) @ marshalPlainFrame (Auth cn) @
      sealed_request (cl_secret cl) (cl_id cl) sn cn (cl_mtu cl) (cl_requested cl) @ pending
    = marshalPlainFrame (Hello cid caps) @ marshalPlainFrame (Auth cn') @
      sealed_request (server_secret sv env cid) cid sn' cn' mtu a @ rest"
    using assms(3,4) sv(5) cl(8) by (simp add: client_sends_def)
  have req: "cid = cl_id cl" "cn' = cn"
    "sealed_request (cl_secret cl) (cl_id cl) sn cn (cl_mtu cl) (cl_requested cl) @ pending
      = sealed_request (server_secret sv env cid) cid sn' cn' mtu a @ rest"
    using hello_auth_inject [OF d cl(2) sv(2) NewNonce_length [OF cl(3) assms(10)] sv(3)] by blast+
  have rep: "sn = sn'" "r = reply_granted g"
    using reply_inject [of sn "cl_secret cl" "cl_id cl" cn r "inbuf c'" sn' "reply_granted g" pending']
      cl(1,4,5,7) sv(8,10) assms(5-7) req(1,2) granted_ok [OF assms(8)] NewNonce_length [OF sv(1) assms(11)]
    by auto
  have "mtu = cl_mtu cl" "a = cl_requested cl"
    using sealed_request_inject [OF req(3) [unfolded req(1,2) assms(7) [symmetric] rep(1) [symmetric]] assms(9) sv(4)]
    by blast+
  then show ?thesis
    using req(1,2) rep sv(6,9) cl(6,9) client_accept_granted [of g ses] assms(7)
      channels_advance [of "cl_secret cl" "cl_id cl" sn cn 1 1] by simp
qed

section \<open>Completion\<close>

text \<open>
  The dialogue over a reliable transport: each end runs on what the other has sent so far, and
  what it sends with more input extends what it sent with less. In round \<open>n + 1\<close> the client
  has seen the server's output of round \<open>n\<close> and the server the client's output of this round.
\<close>

definition client_run :: "client \<Rightarrow> bytes option \<Rightarrow> bytes \<Rightarrow> (client_error, client_session \<times> secure_channel) result \<times> conn" where
  "client_run cl rnd y = client_handshake cl rnd (idle\<lparr>inbuf := y\<rparr>)"

definition server_run ::
  "server \<Rightarrow> hs_env \<Rightarrow> 's establisher \<Rightarrow> net_addr \<Rightarrow> 's \<Rightarrow> bytes \<Rightarrow> established option \<times> conn \<times> 's" where
  "server_run sv env est peer s x = server_handshake sv env est peer (idle\<lparr>inbuf := x\<rparr>) s"

fun dialogue :: "(bytes \<Rightarrow> bytes) \<Rightarrow> (bytes \<Rightarrow> bytes) \<Rightarrow> nat \<Rightarrow> bytes \<times> bytes" where
  "dialogue fc fs 0 = ([], [])"
| "dialogue fc fs (Suc n) = (let (_, y) = dialogue fc fs n; x = fc y in (x, fs x))"

lemma read_nothing: "inbuf c = [] \<Longrightarrow> ReadMessageLimited lim c = (Inl (ReadIO (rend c)), c)"
  by (cases c) (simp add: ReadMessageLimited_def read_full_def frameHeaderLen_def)

lemma expect_frame:
  "inbuf c = marshalPlainFrame m @ rest \<Longrightarrow> kind_of m = k \<Longrightarrow> msg_ok m \<Longrightarrow>
     length (marshalPayload m) \<le> maxHandshakePayload \<Longrightarrow> expect k c = (Some m, c\<lparr>inbuf := rest\<rparr>)"
  by (simp add: expect_Some)

lemma frame_looksLikeControl: "inbuf c = marshalPlainFrame m @ rest \<Longrightarrow> looksLikeControl c"
  by (simp add: looksLikeControl_def frameHeaderLen_def marshalPlainFrame_def Let_def nth_append msg_type_def)

lemma server_hello:
  assumes "inbuf d = marshalPlainFrame (Hello cid caps) @ x" "wplan d = []" "ValidClientID cid"
    "NewNonce (he_nonce env) = Inr sn" "length sn = NonceLen"
  shows "server_handshake sv env est peer d s = server_auth est peer cid (server_secret sv env cid) sn
    (d\<lparr>inbuf := x, outbuf := outbuf d @ marshalPlainFrame (Challenge sn)\<rparr>) s"
proof -
  have "expect KHello d = (Some (Hello cid caps), d\<lparr>inbuf := x\<rparr>)"
    using expect_frame [OF assms(1)] hello_frame [OF assms(3), of caps] by simp
  moreover have "WriteMessage (Challenge sn) (d\<lparr>inbuf := x\<rparr>)
      = (None, d\<lparr>inbuf := x, outbuf := outbuf d @ marshalPlainFrame (Challenge sn)\<rparr>)"
    using WriteMessage_complete [of "d\<lparr>inbuf := x\<rparr>" "Challenge sn"] nonce_frames [OF assms(5)] assms(2) by simp
  ultimately show ?thesis
    using assms(3,4) frame_looksLikeControl [OF assms(1)] by (simp add: server_handshake_def)
qed

lemma server_auth_request:
  assumes "inbuf c = marshalPlainFrame (Auth cn) @ sealed_request secret cid sn cn mtu a @ rest"
    "length cn = NonceLen" "zone a = ''''"
  shows "server_auth est peer cid secret sn c s
    = server_establish est (request_of cid peer mtu a) (opened secret cid sn cn) (c\<lparr>inbuf := rest\<rparr>) s"
proof -
  have "expect KAuth c = (Some (Auth cn), c\<lparr>inbuf := sealed_request secret cid sn cn mtu a @ rest\<rparr>)"
    using expect_frame [OF assms(1)] nonce_frames [OF assms(2)] by simp
  moreover have "chan_ReadMessage (server_chan secret cid sn cn, c\<lparr>inbuf := sealed_request secret cid sn cn mtu a @ rest\<rparr>)
      = (Inr (SessionRequest mtu a), opened secret cid sn cn, c\<lparr>inbuf := rest\<rparr>)"
    unfolding read_request using assms(3) by simp
  ultimately show ?thesis using assms(2) by (simp add: server_auth_def request_of_def)
qed

lemma server_auth_nothing: "inbuf c = [] \<Longrightarrow> server_auth est peer cid secret sn c s = (None, c, s)"
  by (simp add: server_auth_def expect_def read_nothing)

lemma server_establish_granted:
  assumes "es_establish est p s = ((g, ResultOK, None), s')" "grant_zoneless g" "wplan c = []"
  shows "server_establish est p (opened secret cid sn cn) c s =
    (Some (p, g, (server_chan secret cid sn cn)\<lparr>readSeq := 1, writeSeq := 1\<rparr>),
     c\<lparr>outbuf := outbuf c @ sealed_reply secret cid sn cn (reply_granted g)\<rparr>, s')"
proof -
  have "channel_pair (writeKey (server_chan secret cid sn cn)) (opened secret cid sn cn) (client_chan secret cid sn cn)"
    using down.channel_pair_axioms by (simp add: channel_pair_def channel_pair_axioms_def opened_def)
  from chan_WriteMessage_complete [OF this assms(3) granted_fits [OF assms(2)]] assms(1)
  show ?thesis by (simp add: server_establish_def sealed_reply_def opened_def)
qed

lemma client_hello:
  assumes "ValidClientID (cl_id cl)" "wplan c = []"
  shows "client_handshake cl rnd c =
    (let c1 = c\<lparr>outbuf := outbuf c @ marshalPlainFrame (Hello (cl_id cl) 0)\<rparr>
     in case ReadMessage c1 of
          (Inl e, c2) \<Rightarrow> (Inl (ReadChallenge e), c2)
        | (Inr (Challenge sn), c2) \<Rightarrow> client_auth cl rnd sn c2
        | (Inr (Teardown reason), c2) \<Rightarrow> (Inl (Rejected (ByTeardown reason)), c2)
        | (Inr m, c2) \<Rightarrow> (Inl (ExpectedChallenge (msg_type m)), c2))"
  using assms WriteMessage_complete [of c "Hello (cl_id cl) 0"] hello_frame [OF assms(1), of 0]
  by (simp add: client_handshake_def)

lemma client_challenge:
  assumes "ValidClientID (cl_id cl)" "wplan c = []" "inbuf c = marshalPlainFrame (Challenge sn) @ y" "length sn = NonceLen"
  shows "client_handshake cl rnd c = client_auth cl rnd sn
    (c\<lparr>outbuf := outbuf c @ marshalPlainFrame (Hello (cl_id cl) 0), inbuf := y\<rparr>)"
proof -
  let ?c1 = "c\<lparr>outbuf := outbuf c @ marshalPlainFrame (Hello (cl_id cl) 0)\<rparr>"
  have "ReadMessage ?c1 = (Inr (Challenge sn), ?c1\<lparr>inbuf := y\<rparr>)"
    unfolding ReadMessage_def ReadMessageLimited_iff [OF order_refl] using assms(3) nonce_frames [OF assms(4)] by simp
  then show ?thesis using client_hello [OF assms(1,2)] by simp
qed

lemma client_auth_request:
  assumes "NewNonce rnd = Inr cn" "length cn = NonceLen" "wplan c = []" "zone (cl_requested cl) = ''''"
  shows "client_auth cl rnd sn c =
    (let c2 = c\<lparr>outbuf := outbuf c @ marshalPlainFrame (Auth cn) @
           sealed_request (cl_secret cl) (cl_id cl) sn cn (cl_mtu cl) (cl_requested cl)\<rparr>
     in case chan_ReadMessage ((client_chan (cl_secret cl) (cl_id cl) sn cn)\<lparr>writeSeq := 1\<rparr>, c2) of
          (Inl _, _, c3) \<Rightarrow> (Inl (Rejected ServerAuthentication), c3)
        | (Inr m, sec2, c3) \<Rightarrow> (map_sum id (\<lambda>ses. (ses, sec2)) (client_reply m), c3))"
  using assms WriteMessage_complete [OF assms(3), of "Auth cn"] nonce_frames [OF assms(2)]
    chan_WriteMessage_complete [OF up.channel_pair_axioms _ chan_fits_request [OF assms(4)]]
  by (simp add: client_auth_def sealed_request_def)

text \<open>
  An honest client against a server that knows its secret; both draw a nonce, and the
  establisher grants the session.
\<close>

definition honest ::
  "client \<Rightarrow> bytes \<Rightarrow> server \<Rightarrow> hs_env \<Rightarrow> bytes \<Rightarrow> 's establisher \<Rightarrow> net_addr \<Rightarrow> 's \<Rightarrow> 's \<Rightarrow> session_grant \<Rightarrow> bool" where
  "honest cl cn sv env sn est peer s s' g \<longleftrightarrow>
     ValidClientID (cl_id cl) \<and> server_secret sv env (cl_id cl) = cl_secret cl \<and>
     length cn = NonceLen \<and> he_nonce env = Some sn \<and> length sn = NonceLen \<and> zone (cl_requested cl) = '''' \<and>
     es_establish est (request_of (cl_id cl) peer (cl_mtu cl) (cl_requested cl)) s = ((g, ResultOK, None), s') \<and>
     grant_usable g"

lemma honestD:
  assumes "honest cl cn sv env sn est peer s s' g"
  shows "ValidClientID (cl_id cl)" "server_secret sv env (cl_id cl) = cl_secret cl" "length cn = NonceLen"
    "length sn = NonceLen" "zone (cl_requested cl) = ''''" "grant_zoneless g" "grant_usable g"
    "NewNonce (Some cn) = Inr cn" "NewNonce (he_nonce env) = Inr sn"
    "es_establish est (request_of (cl_id cl) peer (cl_mtu cl) (cl_requested cl)) s = ((g, ResultOK, None), s')"
  using assms by (simp_all add: honest_def grant_usable_def NewNonce_def)

definition server_sends :: "client \<Rightarrow> bytes \<Rightarrow> bytes \<Rightarrow> session_grant \<Rightarrow> bytes" where
  "server_sends cl sn cn g =
     marshalPlainFrame (Challenge sn) @ sealed_reply (cl_secret cl) (cl_id cl) sn cn (reply_granted g)"

lemma round_client_1:
  "ValidClientID (cl_id cl) \<Longrightarrow> outbuf (snd (client_run cl rnd [])) = marshalPlainFrame (Hello (cl_id cl) 0)"
  using client_hello [of cl "idle\<lparr>inbuf := []\<rparr>" rnd]
  by (simp add: client_run_def ReadMessage_def read_nothing idle_def)

lemma round_server_1:
  assumes "honest cl cn sv env sn est peer s s' g"
  shows "outbuf (fst (snd (server_run sv env est peer s (marshalPlainFrame (Hello (cl_id cl) 0)))))
    = marshalPlainFrame (Challenge sn)"
  using server_hello [of "idle\<lparr>inbuf := marshalPlainFrame (Hello (cl_id cl) 0)\<rparr>" "cl_id cl" 0 "[]" env sn sv est peer s]
    honestD [OF assms]
  by (simp add: server_run_def server_auth_nothing idle_def)

lemma round_client_2:
  assumes "honest cl cn sv env sn est peer s s' g"
  shows "outbuf (snd (client_run cl (Some cn) (marshalPlainFrame (Challenge sn)))) = client_sends cl sn cn"
proof -
  have "chan_ReadMessage (sec, c) = (Inl (ChanRead (ReadIO (rend c))), sec, c)" if "inbuf c = []" for sec c
    using that by (simp add: chan_ReadMessage_def ReadMessage_def read_nothing)
  then show ?thesis
    using client_challenge [of cl "idle\<lparr>inbuf := marshalPlainFrame (Challenge sn)\<rparr>" sn "[]" "Some cn"] honestD [OF assms]
    by (simp add: client_run_def client_auth_request [of "Some cn" cn] client_sends_def idle_def)
qed

lemma round_server_2:
  assumes "honest cl cn sv env sn est peer s s' g"
  shows "server_run sv env est peer s (client_sends cl sn cn) =
    (Some (request_of (cl_id cl) peer (cl_mtu cl) (cl_requested cl), g,
       (server_chan (cl_secret cl) (cl_id cl) sn cn)\<lparr>readSeq := 1, writeSeq := 1\<rparr>),
     idle\<lparr>outbuf := server_sends cl sn cn g\<rparr>, s')"
  using server_hello [of "idle\<lparr>inbuf := client_sends cl sn cn\<rparr>" "cl_id cl" 0
      "marshalPlainFrame (Auth cn) @ sealed_request (cl_secret cl) (cl_id cl) sn cn (cl_mtu cl) (cl_requested cl)"
      env sn sv est peer s]
    server_auth_request [of _ cn "cl_secret cl" "cl_id cl" sn "cl_mtu cl" "cl_requested cl" "[]" est peer s]
    server_establish_granted [of est _ s g s'] honestD [OF assms]
  by (simp add: server_run_def client_sends_def server_sends_def idle_def)

lemma round_client_3:
  assumes "honest cl cn sv env sn est peer s s' g"
  shows "client_run cl (Some cn) (server_sends cl sn cn g) =
    (Inr (session_of g, (client_chan (cl_secret cl) (cl_id cl) sn cn)\<lparr>writeSeq := 1, readSeq := 1\<rparr>),
     idle\<lparr>outbuf := client_sends cl sn cn\<rparr>)"
proof -
  let ?cc = "client_chan (cl_secret cl) (cl_id cl) sn cn" and ?r = "sealed_reply (cl_secret cl) (cl_id cl) sn cn (reply_granted g)"
  note h = honestD [OF assms]
  have rd: "chan_ReadMessage (?cc\<lparr>writeSeq := 1\<rparr>, c)
      = (Inr (SessionReply (reply_granted g)), ?cc\<lparr>writeSeq := 1, readSeq := 1\<rparr>, c\<lparr>inbuf := []\<rparr>)"
    if "inbuf c = ?r" for c
    unfolding client_read_reply using that granted_ok [OF h(6)] granted_fits [OF h(6)] by (simp add: sealed_reply_def)
  show ?thesis
    using client_challenge [of cl "idle\<lparr>inbuf := server_sends cl sn cn g\<rparr>" sn ?r "Some cn"] h(1,4,5)
    by (simp add: client_run_def server_sends_def client_auth_request [OF h(8,3)] client_sends_def idle_def rd
        client_reply_def client_accept_usable [OF h(7)])
qed

lemma dialogue_completes:
  assumes "honest cl cn sv env sn est peer s s' g"
  defines "fc \<equiv> \<lambda>y. outbuf (snd (client_run cl (Some cn) y))"
    and "fs \<equiv> \<lambda>x. outbuf (fst (snd (server_run sv env est peer s x)))"
  shows "\<exists>x y csec ssec. (\<forall>n. dialogue fc fs (n + 2) = (x, y)) \<and>
    fst (client_run cl (Some cn) y) = Inr (session_of g, csec) \<and>
    fst (server_run sv env est peer s x) = Some (request_of (cl_id cl) peer (cl_mtu cl) (cl_requested cl), g, ssec) \<and>
    snd (snd (server_run sv env est peer s x)) = s' \<and>
    channel_pair (writeKey csec) csec ssec \<and> channel_pair (writeKey ssec) ssec csec"
proof -
  let ?x = "client_sends cl sn cn" and ?y = "server_sends cl sn cn g"
  note r = round_server_2 [OF assms(1)] round_client_3 [OF assms(1)]
  have "dialogue fc fs (n + 2) = (?x, ?y)" for n
  proof (induction n)
    case 0
    then show ?case
      using round_client_1 [OF honestD(1) [OF assms(1)]] round_server_1 [OF assms(1)] round_client_2 [OF assms(1)] r
      by (simp add: numeral_2_eq_2 fc_def fs_def)
  next
    case (Suc n)
    then show ?case using r by (simp add: fc_def fs_def)
  qed
  then show ?thesis using r channels_advance [of "cl_secret cl" "cl_id cl" sn cn 1 1] by auto
qed

text \<open>
  C5. The handshake completes: over a reliable transport, whatever the secret, nonces, MTU,
  wish and grant, the dialogue of an honest client with the server reaches in two rounds a
  point where neither has anything more to say, and there both have succeeded: the server with
  the client's request and the grant, the client with exactly that grant, and the channels fit.
\<close>

theorem handshake_completes:
  assumes "honest cl cn sv env sn est peer s s' g"
  defines "fc \<equiv> \<lambda>y. outbuf (snd (client_run cl (Some cn) y))"
    and "fs \<equiv> \<lambda>x. outbuf (fst (snd (server_run sv env est peer s x)))"
  shows "\<exists>x y csec ssec. (\<forall>n. dialogue fc fs (n + 2) = (x, y)) \<and>
    fst (client_run cl (Some cn) y) = Inr (session_of g, csec) \<and>
    fst (server_run sv env est peer s x) = Some (request_of (cl_id cl) peer (cl_mtu cl) (cl_requested cl), g, ssec) \<and>
    snd (snd (server_run sv env est peer s x)) = s' \<and>
    channel_pair (writeKey csec) csec ssec \<and> channel_pair (writeKey ssec) ssec csec"
  unfolding fc_def fs_def by (rule dialogue_completes [OF assms(1)])

text \<open>
  C6. The server asks for a session only for a peer that proved the secret: the bytes it
  received are a hello with a valid identity, a nonce, and exactly the frame that seals the
  request under the keys derived from the secret of that identity, both nonces and the
  identity, the server's nonce being the one it drew for this connection.
\<close>

theorem server_authenticates:
  assumes "server_handle sv env (traced est) peer c (s, []) = (c', s', CallEstablish p g r e # l)"
  shows "\<exists>sn cid caps cn mtu a rest. NewNonce (he_nonce env) = Inr sn \<and> ValidClientID cid \<and>
    length cn = NonceLen \<and> p = request_of cid peer mtu a \<and>
    inbuf c = marshalPlainFrame (Hello cid caps) @ marshalPlainFrame (Auth cn) @
      sealed_request (server_secret sv env cid) cid sn cn mtu a @ rest"
proof (cases rule: server_handshake_cases [of sv env "traced est" peer c "(s, [])"])
  case (refused c')
  then show ?thesis using assms by (simp add: server_handle_def)
next
  case (let_in sn cid caps cn mtu a rest c2)
  obtain res c' s' l' where r: "server_handshake sv env (traced est) peer c (s, []) = (res, c', s', l')"
    by (metis prod_cases4)
  from server_establish_traced [OF let_in(6) [symmetric, unfolded r]] r assms
  have "p = request_of cid peer mtu a" by (cases res) (auto simp: server_handle_def)
  with let_in show ?thesis by blast
qed



section \<open>Witnesses\<close>

definition demo_client :: client where
  "demo_client = \<lparr>cl_id = ''alice'', cl_secret = ''hunter2'', cl_mtu = 1500, cl_requested = AddrZero\<rparr>"

abbreviation "demo_nonce \<equiv> replicate 32 (9 :: byte)"
abbreviation "demo_peer \<equiv> TCPAddr [203, 0, 113, 5]"

lemma demo_usable: "grant_usable srv_grant" by code_simp

lemma demo_honest:
  "honest demo_client demo_nonce demo_server demo_hs (replicate 32 5) demo_est demo_peer 0 1 srv_grant"
proof -
  have "ValidClientID ''alice''" by code_simp
  then show ?thesis
    using demo_usable
    by (simp add: honest_def demo_client_def demo_server_def demo_hs_def demo_est_def server_secret_def
        SecretFor_def NonceLen_def)
qed

theorem handshake_completes_witness:
  "\<exists>y csec. fst (client_run demo_client (Some demo_nonce) y) = Inr (session_of srv_grant, csec)"
  using handshake_completes [OF demo_honest] by blast

theorem handshake_agreement_witness:
  "let cs = (client_chan ''hunter2'' ''alice'' (replicate 32 5) demo_nonce)\<lparr>writeSeq := 1, readSeq := 1\<rparr>;
       ss = (server_chan ''hunter2'' ''alice'' (replicate 32 5) demo_nonce)\<lparr>readSeq := 1, writeSeq := 1\<rparr>
   in channel_pair (writeKey cs) cs ss \<and> channel_pair (writeKey ss) ss cs"
proof -
  note sv = round_server_2 [OF demo_honest, unfolded server_run_def]
  note cl = round_client_3 [OF demo_honest, unfolded client_run_def]
  have "grant_zoneless srv_grant" using demo_usable by (simp add: grant_usable_def)
  from handshake_agreement [OF cl sv, of "client_sends demo_client (replicate 32 5) demo_nonce" "[]"
      "server_sends demo_client (replicate 32 5) demo_nonce srv_grant" "[]"] this honestD(2,5) [OF demo_honest]
  show ?thesis by (simp add: Let_def idle_def demo_client_def demo_hs_def NonceLen_def)
qed

theorem server_authenticates_witness:
  "\<exists>sn cid caps cn mtu a rest. NewNonce (he_nonce demo_hs) = Inr sn \<and> ValidClientID cid \<and> length cn = NonceLen \<and>
    client_sends demo_client (replicate 32 5) demo_nonce = marshalPlainFrame (Hello cid caps) @
      marshalPlainFrame (Auth cn) @ sealed_request (server_secret demo_server demo_hs cid) cid sn cn mtu a @ rest"
proof -
  let ?p = "request_of (cl_id demo_client) demo_peer (cl_mtu demo_client) (cl_requested demo_client)"
  let ?l = "[CallEstablish ?p srv_grant ResultOK None]"
  have "honest demo_client demo_nonce demo_server demo_hs (replicate 32 5) (traced demo_est) demo_peer (0, []) (1, ?l) srv_grant"
    using demo_honest by (simp add: honest_def split: prod.splits)
  note run = round_server_2 [OF this, unfolded server_run_def]
  obtain c' where "server_handle demo_server demo_hs (traced demo_est) demo_peer
      (idle\<lparr>inbuf := client_sends demo_client (replicate 32 5) demo_nonce\<rparr>) (0, [])
    = (c', es_teardown demo_est ?p srv_grant 1, ?l @ [CallTeardown ?p srv_grant])"
    using run by (simp add: server_handle_def)
  from server_authenticates [OF this [simplified]] show ?thesis by simp blast
qed


end
