(* ===== verification/Admission.thy ===== *)
theory Admission
  imports Prelude "HOL-Library.Multiset"
begin

text \<open>
  Admission control of the control server (\<^verbatim>\<open>Serve\<close>, \<^verbatim>\<open>reserve\<close> and \<^verbatim>\<open>release\<close> of
  \<^verbatim>\<open>internal/control/server.go\<close>): a semaphore bounds the handshakes in progress, a table under a
  mutex bounds those of one source. The accept loop alone reserves; every connection's goroutine
  releases. The semaphore and the table are not updated atomically, so both operations are
  given by their two sections, and the steps interleave these.
\<close>

section \<open>State and operations\<close>

record limits =
  max_pending :: int
  max_per_ip :: int

record admission =
  sem :: nat
  perIP :: "(string, int) fmap"

definition defaultMaxPendingHandshakes :: int where "defaultMaxPendingHandshakes = 256"
definition defaultMaxPendingPerIP :: int where "defaultMaxPendingPerIP = 16"

definition serve_limits :: "limits \<Rightarrow> limits" where
  "serve_limits l =
     \<lparr>max_pending = (if max_pending l \<le> 0 then defaultMaxPendingHandshakes else max_pending l),
      max_per_ip = (if max_per_ip l \<le> 0 then defaultMaxPendingPerIP else max_per_ip l)\<rparr>"

definition admission_new :: admission where
  "admission_new = \<lparr>sem = 0, perIP = fmempty\<rparr>"

text \<open>Reading a missing key of a Go map yields zero.\<close>

definition count_of :: "(string, int) fmap \<Rightarrow> string \<Rightarrow> int" where
  "count_of m ip = (case fmlookup m ip of Some n \<Rightarrow> n | None \<Rightarrow> 0)"

text \<open>Sending to the semaphore without blocking, and the section under the mutex.\<close>

definition take_slot :: "limits \<Rightarrow> admission \<Rightarrow> admission option" where
  "take_slot l a = (if int (sem a) < max_pending l then Some (a\<lparr>sem := sem a + 1\<rparr>) else None)"

definition take_ip :: "limits \<Rightarrow> string \<Rightarrow> admission \<Rightarrow> admission option" where
  "take_ip l ip a =
     (if max_per_ip l \<le> count_of (perIP a) ip then None
      else Some (a\<lparr>perIP := fmupd ip (count_of (perIP a) ip + 1) (perIP a)\<rparr>))"

text \<open>Receiving from the semaphore; None means that it is empty and the receiver blocks.\<close>

definition give_slot :: "admission \<Rightarrow> admission option" where
  "give_slot a = (if sem a = 0 then None else Some (a\<lparr>sem := sem a - 1\<rparr>))"

definition give_ip :: "string \<Rightarrow> admission \<Rightarrow> admission" where
  "give_ip ip a =
     (if 0 < count_of (perIP a) ip
      then if count_of (perIP a) ip - 1 = 0 then a\<lparr>perIP := fmdrop ip (perIP a)\<rparr>
           else a\<lparr>perIP := fmupd ip (count_of (perIP a) ip - 1) (perIP a)\<rparr>
      else a)"

text \<open>\<^verbatim>\<open>reserve\<close> and \<^verbatim>\<open>release\<close> run without interference; None means blocked for ever.\<close>

definition reserve :: "limits \<Rightarrow> string \<Rightarrow> admission \<Rightarrow> (bool \<times> admission) option" where
  "reserve l ip a =
     (case take_slot l a of
        None \<Rightarrow> Some (False, a)
      | Some a1 \<Rightarrow>
          (case take_ip l ip a1 of
             Some a2 \<Rightarrow> Some (True, a2)
           | None \<Rightarrow> map_option (Pair False) (give_slot a1)))"

definition release :: "string \<Rightarrow> admission \<Rightarrow> admission option" where
  "release ip a = give_slot (give_ip ip a)"

section \<open>All interleavings\<close>

text \<open>
  The accept loop is between the two sections of \<^verbatim>\<open>reserve\<close> (\<open>accepting\<close>) or elsewhere; the
  handshakes in progress are a multiset of their sources; \<open>releasing\<close> goroutines have left the
  mutex of \<^verbatim>\<open>release\<close> and not yet received from the semaphore.
\<close>

record gate =
  adm :: admission
  accepting :: "string option"
  pending :: "string multiset"
  releasing :: nat

inductive astep :: "limits \<Rightarrow> gate \<Rightarrow> gate \<Rightarrow> bool" for l where
  take: "accepting w = None \<Longrightarrow> take_slot l (adm w) = Some a \<Longrightarrow>
     astep l w (w\<lparr>adm := a, accepting := Some ip\<rparr>)"
| admit: "accepting w = Some ip \<Longrightarrow> take_ip l ip (adm w) = Some a \<Longrightarrow>
     astep l w (w\<lparr>adm := a, accepting := None, pending := add_mset ip (pending w)\<rparr>)"
| shed: "accepting w = Some ip \<Longrightarrow> take_ip l ip (adm w) = None \<Longrightarrow> give_slot (adm w) = Some a \<Longrightarrow>
     astep l w (w\<lparr>adm := a, accepting := None\<rparr>)"
| leave: "ip \<in># pending w \<Longrightarrow>
     astep l w (w\<lparr>adm := give_ip ip (adm w), pending := pending w - {#ip#}, releasing := releasing w + 1\<rparr>)"
| left: "0 < releasing w \<Longrightarrow> give_slot (adm w) = Some a \<Longrightarrow>
     astep l w (w\<lparr>adm := a, releasing := releasing w - 1\<rparr>)"

definition gate_new :: "gate \<Rightarrow> bool" where
  "gate_new w \<longleftrightarrow> w = \<lparr>adm = admission_new, accepting = None, pending = {#}, releasing = 0\<rparr>"

definition gate_inv :: "limits \<Rightarrow> gate \<Rightarrow> bool" where
  "gate_inv l w \<longleftrightarrow>
     sem (adm w) = size (pending w) + releasing w + (if accepting w = None then 0 else 1) \<and>
     int (sem (adm w)) \<le> max_pending l \<and>
     (\<forall>ip. count_of (perIP (adm w)) ip = int (count (pending w) ip) \<and> int (count (pending w) ip) \<le> max_per_ip l) \<and>
     fset (fmdom (perIP (adm w))) = set_mset (pending w)"

lemma count_of_fmupd [simp]: "count_of (fmupd k v m) ip = (if ip = k then v else count_of m ip)"
  by (simp add: count_of_def)

lemma count_of_fmdrop [simp]: "count_of (fmdrop k m) ip = (if ip = k then 0 else count_of m ip)"
  by (simp add: count_of_def)

lemma gate_inv_leave:
  assumes "gate_inv l w" "ip \<in># pending w"
  shows "gate_inv l (w\<lparr>adm := give_ip ip (adm w), pending := pending w - {#ip#}, releasing := releasing w + 1\<rparr>)"
proof -
  obtain P where P: "pending w = add_mset ip P" using assms(2) by (meson mset_add)
  have le: "int (count (pending w) x) \<le> max_per_ip l"
    and cnt: "count_of (perIP (adm w)) x = int (count (pending w) x)"
    and dom: "fset (fmdom (perIP (adm w))) = set_mset (pending w)" for x
    using assms(1) by (auto simp: gate_inv_def)
  have "int (count P x) \<le> max_per_ip l" for x using le [of x] P by (auto split: if_splits)
  moreover have "fset (fmdom (perIP (adm w))) - {ip} = set_mset P" if "count P ip = 0"
    using that dom P by (auto simp: count_eq_zero_iff)
  moreover have "ip \<in># P" if "count P ip \<noteq> 0" using that by (simp add: count_eq_zero_iff)
  ultimately show ?thesis
    using assms(1) cnt dom P by (auto simp: gate_inv_def give_ip_def insert_absorb)
qed

lemma gate_inv_step:
  assumes "gate_inv l w" "astep l w w'"
  shows "gate_inv l w'"
  using assms(2,1)
proof cases
  case (take a ip)
  then show ?thesis using assms(1) by (auto simp: gate_inv_def take_slot_def split: if_splits)
next
  case (admit ip a)
  then show ?thesis using assms(1) by (auto simp: gate_inv_def take_ip_def split: if_splits)
next
  case (shed ip a)
  then show ?thesis using assms(1) by (auto simp: gate_inv_def give_slot_def split: if_splits)
next
  case (leave ip)
  then show ?thesis using gate_inv_leave [OF assms(1)] by simp
next
  case (left a)
  then show ?thesis using assms(1) by (auto simp: gate_inv_def give_slot_def split: if_splits)
qed

lemma gate_inv_new: "0 \<le> max_pending l \<Longrightarrow> 0 \<le> max_per_ip l \<Longrightarrow> gate_new w \<Longrightarrow> gate_inv l w"
  by (simp add: gate_inv_def gate_new_def admission_new_def count_of_def)

lemma serve_limits_pos: "0 < max_pending (serve_limits l)" "0 < max_per_ip (serve_limits l)"
  by (simp_all add: serve_limits_def defaultMaxPendingHandshakes_def defaultMaxPendingPerIP_def)

interpretation gate: transition_system gate_new "astep (serve_limits l)" "gate_inv (serve_limits l)" for l
  by unfold_locales (use serve_limits_pos [of l] gate_inv_new gate_inv_step in \<open>force+\<close>)

text \<open>
  C19. However connections arrive, end and interleave, the handshakes in progress stay within
  the global limit and those of one source within its limit; the semaphore counts exactly the
  slots taken, and the table holds exactly the sources with a handshake in progress, with
  their number, so it never grows beyond the limit either.
\<close>

theorem admission_bounded:
  assumes "gate_new w0" and "(astep (serve_limits l))\<^sup>*\<^sup>* w0 w"
  shows "int (size (pending w)) \<le> max_pending (serve_limits l) \<and>
    int (count (pending w) ip) \<le> max_per_ip (serve_limits l) \<and>
    sem (adm w) = size (pending w) + releasing w + (if accepting w = None then 0 else 1) \<and>
    count_of (perIP (adm w)) ip = int (count (pending w) ip) \<and>
    fset (fmdom (perIP (adm w))) = set_mset (pending w)"
  using gate.reachable_inv [OF assms] by (auto simp: gate_inv_def split: if_splits)

text \<open>
  C20. Nobody waits at the gate: in every reachable state a goroutine that gives its slot back
  can do so at once, so can the accept loop after its source turned out to be at its limit,
  and a new connection is admitted whenever a global slot is free and its source is below its
  limit, however many slots other sources hold.
\<close>

theorem admission_progress:
  assumes "gate_new w0" and "(astep (serve_limits l))\<^sup>*\<^sup>* w0 w"
  shows "(0 < releasing w \<longrightarrow> (\<exists>w'. astep (serve_limits l) w w' \<and> releasing w' = releasing w - 1)) \<and>
    (\<forall>ip. accepting w = Some ip \<longrightarrow> (\<exists>w'. astep (serve_limits l) w w' \<and> accepting w' = None)) \<and>
    (\<forall>ip. accepting w = None \<longrightarrow> int (size (pending w) + releasing w) < max_pending (serve_limits l) \<longrightarrow>
       int (count (pending w) ip) < max_per_ip (serve_limits l) \<longrightarrow>
       (\<exists>a. reserve (serve_limits l) ip (adm w) = Some (True, a)))"
proof -
  let ?l = "serve_limits l"
  have inv: "gate_inv ?l w" by (rule gate.reachable_inv [OF assms])
  have slot: "\<exists>a. give_slot (adm w) = Some a" if "0 < sem (adm w)" using that by (simp add: give_slot_def)
  have "\<exists>w'. astep ?l w w' \<and> releasing w' = releasing w - 1" if "0 < releasing w"
  proof -
    from that inv slot obtain a where "give_slot (adm w) = Some a" by (auto simp: gate_inv_def)
    from astep.left [OF that this] show ?thesis by fastforce
  qed
  moreover have "\<exists>w'. astep ?l w w' \<and> accepting w' = None" if ac: "accepting w = Some ip" for ip
  proof (cases "take_ip ?l ip (adm w)")
    case None
    from ac inv slot obtain a where "give_slot (adm w) = Some a" by (auto simp: gate_inv_def)
    from astep.shed [OF ac None this] show ?thesis by fastforce
  next
    case (Some a)
    from astep.admit [OF ac Some] show ?thesis by fastforce
  qed
  moreover have "\<exists>a. reserve ?l ip (adm w) = Some (True, a)"
    if "accepting w = None" "int (size (pending w) + releasing w) < max_pending ?l"
      "int (count (pending w) ip) < max_per_ip ?l" for ip
    using that inv by (auto simp: gate_inv_def reserve_def take_slot_def take_ip_def)
  ultimately show ?thesis by blast
qed

text \<open>
  Reserving and releasing are inverse: a successful \<^verbatim>\<open>reserve\<close> followed by its \<^verbatim>\<open>release\<close> gives
  back the state before, a refused \<^verbatim>\<open>reserve\<close> changes nothing, and neither blocks.
\<close>

theorem reserve_release:
  assumes "gate_inv l w" and "accepting w = None"
  shows "case reserve l ip (adm w) of
      None \<Rightarrow> False
    | Some (True, a) \<Rightarrow> release ip a = Some (adm w)
    | Some (False, a) \<Rightarrow> a = adm w"
proof -
  have eq: "count_of (perIP (adm w)) ip = int (count (pending w) ip)"
    and dom: "fset (fmdom (perIP (adm w))) = set_mset (pending w)" using assms(1) by (auto simp: gate_inv_def)
  have undo: "fmdrop ip (fmupd ip v (perIP (adm w))) = perIP (adm w)" if "count (pending w) ip = 0" for v
  proof -
    have "ip |\<notin>| fmdom (perIP (adm w))" using dom that by (simp add: count_eq_zero_iff)
    then show ?thesis by (intro fmap_ext) (auto simp: fmdom_notD)
  qed
  have up: "fmupd ip (int (count (pending w) ip)) (fmupd ip v (perIP (adm w))) = perIP (adm w)"
    if "count (pending w) ip \<noteq> 0" for v
  proof -
    have "ip |\<in>| fmdom (perIP (adm w))" using dom that by (simp add: count_eq_zero_iff)
    then have "fmlookup (perIP (adm w)) ip = Some (int (count (pending w) ip))"
      using eq by (auto simp: count_of_def dest: fmdomI split: option.splits)
    then show ?thesis by (intro fmap_ext) auto
  qed
  show ?thesis
    using undo up eq
    by (auto simp: reserve_def release_def take_slot_def take_ip_def give_slot_def give_ip_def)
qed

section \<open>Witnesses\<close>

definition demo_limits :: limits where
  "demo_limits = \<lparr>max_pending = 2, max_per_ip = 1\<rparr>"

definition gate0 :: gate where
  "gate0 = \<lparr>adm = admission_new, accepting = None, pending = {#}, releasing = 0\<rparr>"

definition gate1 :: gate where
  "gate1 = \<lparr>adm = \<lparr>sem = 1, perIP = fmap_of_list [(''203.0.113.5'', 1)]\<rparr>, accepting = None,
     pending = {#''203.0.113.5''#}, releasing = 0\<rparr>"

lemma gate1_reached: "gate_new gate0" "(astep (serve_limits demo_limits))\<^sup>*\<^sup>* gate0 gate1"
proof -
  let ?w = "gate0\<lparr>adm := admission_new\<lparr>sem := 1\<rparr>, accepting := Some ''203.0.113.5''\<rparr>"
  show "gate_new gate0" by (simp add: gate_new_def gate0_def)
  have "astep (serve_limits demo_limits) gate0 ?w"
    by (rule astep.take) (simp_all add: gate0_def take_slot_def admission_new_def serve_limits_def demo_limits_def)
  moreover have "astep (serve_limits demo_limits) ?w gate1"
    using astep.admit [of ?w "''203.0.113.5''" "serve_limits demo_limits" "\<lparr>sem = 1, perIP = fmupd ''203.0.113.5'' 1 fmempty\<rparr>"]
    by (simp add: gate0_def gate1_def take_ip_def admission_new_def serve_limits_def demo_limits_def count_of_def)
  ultimately show "(astep (serve_limits demo_limits))\<^sup>*\<^sup>* gate0 gate1"
    by (blast intro: converse_rtranclp_into_rtranclp)
qed

theorem admission_bounded_witness: "int (size (pending gate1)) \<le> max_pending (serve_limits demo_limits)"
  using admission_bounded [OF gate1_reached] by simp

theorem admission_progress_witness:
  "\<exists>a. reserve (serve_limits demo_limits) ''203.0.113.6'' (adm gate1) = Some (True, a)"
  using admission_progress [OF gate1_reached]
  by (auto simp: gate1_def serve_limits_def demo_limits_def)

theorem reserve_release_witness:
  "reserve (serve_limits demo_limits) ''203.0.113.5'' (adm gate1) = Some (False, adm gate1)"
proof -
  have "gate_inv (serve_limits demo_limits) gate1" by (rule gate.reachable_inv [OF gate1_reached])
  moreover have "accepting gate1 = None" by (simp add: gate1_def)
  ultimately have "case reserve (serve_limits demo_limits) ''203.0.113.5'' (adm gate1) of
      None \<Rightarrow> False | Some (True, a) \<Rightarrow> release ''203.0.113.5'' a = Some (adm gate1) | Some (False, a) \<Rightarrow> a = adm gate1"
    by (rule reserve_release)
  moreover have "map_option fst (reserve (serve_limits demo_limits) ''203.0.113.5'' (adm gate1)) = Some False"
    by code_simp
  ultimately show ?thesis by (auto split: option.splits bool.splits)
qed

end
