(* ===== verification/Config.thy ===== *)
theory Config
  imports Netip_Text Session
begin

text \<open>
  Package \<^verbatim>\<open>internal/config\<close>: the configuration as decoded from YAML, its defaults and its
  validation. Durations are nanoseconds. A check returns the first field it objects to; where
  the code ranges over a map, the order of the iteration is an argument.
\<close>

section \<open>The configuration\<close>

record health_check =
  hc_enabled :: bool
  hc_interval :: int
  hc_timeout :: int
  hc_failures :: int
  hc_actions :: "string list"
  hc_script :: string
  hc_target :: string
  hc_packet_size :: int
  hc_packet_sizes :: "int list"
  hc_delay :: int
  hc_large_delay :: int
  hc_large_threshold :: int
  hc_command :: string
  hc_bind_interface :: bool

record source_rule =
  sr_ifaces :: "string list"
  sr_family :: string
  sr_match :: "string list"
  sr_include :: "string list"
  sr_exclude :: "string list"

record client_cfg =
  cc_id :: string
  cc_secret :: string
  cc_iface :: string
  cc_rules :: "source_rule list"
  cc_fallback :: string

record config =
  c_listen :: string
  c_gre_local :: string
  c_inner_pool :: string
  c_server_inner :: string
  c_mtu :: int
  c_gre_key :: "bool option"
  c_gre_seq :: "bool option"
  c_admin_socket :: string
  c_admin_mode :: string
  c_admin_group :: string
  c_netlink_socket :: string
  c_fou_port :: "16 word"
  c_max_pending :: int
  c_max_per_ip :: int
  c_redirect :: string
  c_must_hide :: bool
  c_keepalive_interval :: int
  c_keepalive_timeout :: int
  c_lease_ttl :: int
  c_psk :: string
  c_clients :: "(string, string) fmap"
  c_hook_up :: string
  c_hook_down :: string
  c_mss :: mss_clamp
  c_health :: health_check
  c_interfaces :: "(string, string) fmap"
  c_leases :: "(string, string) fmap"
  c_client :: client_cfg

definition second :: int where "second = 1000000000"

definition DefaultListen :: string where "DefaultListen = ''[::]:4747''"
definition DefaultIface :: string where "DefaultIface = ''grem0''"
definition MinSecretLen :: nat where "MinSecretLen = 32"

section \<open>Defaults\<close>

definition or_default :: "'a \<Rightarrow> 'a \<Rightarrow> 'a \<Rightarrow> 'a" where
  "or_default unset d v = (if v = unset then d else v)"

definition health_WithDefaults :: "health_check \<Rightarrow> health_check" where
  "health_WithDefaults h =
     h\<lparr>hc_interval := or_default 0 (30 * second) (hc_interval h),
       hc_timeout := or_default 0 (3 * second) (hc_timeout h),
       hc_failures := or_default 0 3 (hc_failures h),
       hc_actions := or_default [] [''log''] (hc_actions h),
       hc_command := or_default '''' ''ping'' (hc_command h)\<rparr>"

definition mss_WithDefaults :: "mss_clamp \<Rightarrow> mss_clamp" where
  "mss_WithDefaults m =
     m\<lparr>mc_backend := or_default '''' ''nftables'' (mc_backend m),
       mc_direction := or_default '''' ''out'' (mc_direction m),
       mc_mode := or_default '''' ''pmtu'' (mc_mode m),
       mc_nft_family := or_default '''' ''inet'' (mc_nft_family m),
       mc_nft_table := or_default '''' ''gremlind'' (mc_nft_table m),
       mc_nft_chain := or_default '''' ''forward'' (mc_nft_chain m),
       mc_ipt_chain := or_default '''' ''FORWARD'' (mc_ipt_chain m)\<rparr>"

definition manage_default :: "mss_clamp \<Rightarrow> mss_clamp" where
  "manage_default m =
     (if mc_enabled m \<and> (mc_backend m = '''' \<or> mc_backend m = ''nftables'') \<and>
         mc_nft_table m = '''' \<and> mc_nft_chain m = ''''
      then m\<lparr>mc_nft_manage := True\<rparr> else m)"

definition ApplyDefaults :: "config \<Rightarrow> config" where
  "ApplyDefaults c =
     c\<lparr>c_listen := or_default '''' DefaultListen (c_listen c),
       c_keepalive_interval := or_default 0 (15 * second) (c_keepalive_interval c),
       c_keepalive_timeout := or_default 0 (45 * second) (c_keepalive_timeout c),
       c_lease_ttl := or_default 0 (24 * 3600 * second) (c_lease_ttl c),
       c_admin_mode := or_default '''' ''0600'' (c_admin_mode c),
       c_mss := mss_WithDefaults (manage_default (c_mss c)),
       c_health := health_WithDefaults (c_health c),
       c_client := (c_client c)\<lparr>cc_iface := or_default '''' DefaultIface (cc_iface (c_client c)),
         cc_fallback := or_default '''' ''fail'' (cc_fallback (c_client c))\<rparr>\<rparr>"

definition GREKeyEnabled :: "config \<Rightarrow> bool" where
  "GREKeyEnabled c \<longleftrightarrow> (case c_gre_key c of None \<Rightarrow> True | Some b \<Rightarrow> b)"

definition GRESeqEnabled :: "config \<Rightarrow> bool" where
  "GRESeqEnabled c \<longleftrightarrow> (case c_gre_seq c of None \<Rightarrow> False | Some b \<Rightarrow> b)"

section \<open>Validation\<close>

datatype config_error =
    BadField string
  | BadEntry string string
  | ReadConfig string
  | ParseConfig string

text \<open>The first violated condition of a list.\<close>

fun first_error :: "(bool \<times> config_error) list \<Rightarrow> config_error option" where
  "first_error [] = None"
| "first_error ((violated, e) # xs) = (if violated then Some e else first_error xs)"

lemma first_error_None: "first_error xs = None \<longleftrightarrow> (\<forall>(v, e) \<in> set xs. \<not> v)"
  by (induction xs rule: first_error.induct) auto

lemma first_error_append: "first_error (xs @ ys) = None \<longleftrightarrow> first_error xs = None \<and> first_error ys = None"
  by (induction xs rule: first_error.induct) auto

lemma first_error_concat: "first_error (concat xss) = None \<longleftrightarrow> (\<forall>xs \<in> set xss. first_error xs = None)"
  by (induction xss) (auto simp: first_error_append)

lemma first_error_option: "first_error (case r of None \<Rightarrow> [] | Some e \<Rightarrow> [(True, e)]) = None \<longleftrightarrow> r = None"
  by (cases r) auto

lemma first_error_result: "first_error (case r of Inl e \<Rightarrow> [(True, e)] | Inr _ \<Rightarrow> []) = None \<longleftrightarrow> (\<exists>n. r = Inr n)"
  by (cases r) auto

lemma first_error_Cons: "first_error ((v, e) # xs) = None \<longleftrightarrow> \<not> v \<and> first_error xs = None"
  by simp

lemmas first_error_simps = first_error_append first_error_concat first_error_option first_error_result
  first_error_Cons first_error.simps(1)

definition out_of_range :: "int \<Rightarrow> int \<Rightarrow> bool" where
  "out_of_range hi v \<longleftrightarrow> v < 0 \<or> hi < v"

definition validateHealthCheck :: "health_check \<Rightarrow> config_error option" where
  "validateHealthCheck h = first_error (
     [(hc_interval h \<le> 0, BadField ''healthcheck.interval''),
      (hc_timeout h \<le> 0, BadField ''healthcheck.timeout''),
      (hc_failures h \<le> 0, BadField ''healthcheck.failures'')] @
     map (\<lambda>a. (a \<notin> {''log'', ''run_script'', ''reconnect''}, BadEntry ''healthcheck.actions'' a)) (hc_actions h) @
     [(''run_script'' \<in> set (hc_actions h) \<and> hc_script h = '''', BadField ''healthcheck.script''),
      (hc_target h \<noteq> '''' \<and> ParseAddr (hc_target h) = None, BadField ''healthcheck.target''),
      (out_of_range 65507 (hc_packet_size h), BadField ''healthcheck.packet_size'')] @
     map (\<lambda>n. (out_of_range 65507 n, BadField ''healthcheck.packet_sizes'')) (hc_packet_sizes h) @
     [(hc_delay h < 0, BadField ''healthcheck.inter_packet_delay''),
      (hc_large_delay h < 0, BadField ''healthcheck.large_packet_delay''),
      (out_of_range 65507 (hc_large_threshold h), BadField ''healthcheck.large_packet_threshold''),
      (hc_command h = '''', BadField ''healthcheck.command'')])"

text \<open>The three MSS values are checked in the order of a map iteration.\<close>

definition validateMSSClamp :: "(string \<times> int) list \<Rightarrow> mss_clamp \<Rightarrow> config_error option" where
  "validateMSSClamp order m = first_error (
     [(mc_backend m \<notin> {''nftables'', ''iptables''}, BadField ''mss_clamp.backend''),
      (mc_direction m \<notin> {''out'', ''in'', ''both''}, BadField ''mss_clamp.direction''),
      (mc_mode m \<notin> {''pmtu'', ''tunnel_mtu''}, BadField ''mss_clamp.mss_mode'')] @
     map (\<lambda>(field, v). (out_of_range 65535 v, BadEntry ''mss_clamp'' field)) order @
     [(mc_backend m = ''nftables'' \<and> (mc_nft_family m = '''' \<or> mc_nft_table m = '''' \<or> mc_nft_chain m = ''''),
       BadField ''mss_clamp nft''),
      (mc_backend m = ''iptables'' \<and> mc_ipt_chain m = '''', BadField ''mss_clamp.iptables_chain'')])"

definition mss_values :: "mss_clamp \<Rightarrow> (string \<times> int) set" where
  "mss_values m = {(''mss'', mc_mss m), (''mss4'', mc_mss4 m), (''mss6'', mc_mss6 m)}"

definition AdminMode :: "config \<Rightarrow> (config_error, int) result" where
  "AdminMode c =
     (case parse_octal32 (c_admin_mode c) of
        Some n \<Rightarrow> if n \<le> 511 then Inr n else Inl (BadField ''admin_socket_mode'')
      | None \<Rightarrow> Inl (BadField ''admin_socket_mode''))"

definition source_rule_checks :: "source_rule \<Rightarrow> (bool \<times> config_error) list" where
  "source_rule_checks r =
     (sr_family r \<notin> {'''', ''any'', ''ipv4'', ''ipv6''}, BadField ''client.source_rules.family'') #
     map (\<lambda>p. (ParsePrefix p = None, BadEntry ''client.source_rules'' p)) (sr_match r @ sr_include r @ sr_exclude r)"

definition validate :: "(string \<times> int) list \<Rightarrow> config \<Rightarrow> config_error option" where
  "validate order c = first_error (
     [(SplitHostPort (c_listen c) = None, BadField ''listen''),
      (c_fou_port c \<noteq> 0 \<and> c_netlink_socket c \<noteq> '''', BadField ''fou_port''),
      (c_mtu c < 0, BadField ''mtu''),
      (c_max_pending c < 0, BadField ''max_pending_handshakes''),
      (c_max_per_ip c < 0, BadField ''max_pending_per_ip''),
      (c_keepalive_interval c \<le> 0, BadField ''keepalive_interval''),
      (c_keepalive_timeout c \<le> 0, BadField ''keepalive_timeout''),
      (c_keepalive_timeout c \<le> c_keepalive_interval c, BadField ''keepalive_timeout''),
      (c_lease_ttl c < 0, BadField ''lease_ttl'')] @
     (case if mc_enabled (c_mss c) then validateMSSClamp order (c_mss c) else None of
        None \<Rightarrow> [] | Some e \<Rightarrow> [(True, e)]) @
     (case if hc_enabled (c_health c) then validateHealthCheck (c_health c) else None of
        None \<Rightarrow> [] | Some e \<Rightarrow> [(True, e)]) @
     (case AdminMode c of Inl e \<Rightarrow> [(True, e)] | Inr _ \<Rightarrow> []) @
     [(c_inner_pool c \<noteq> '''' \<and> ParsePrefix (c_inner_pool c) = None, BadField ''inner_pool''),
      (c_gre_local c \<noteq> '''' \<and> ParseAddr (c_gre_local c) = None, BadField ''gre_local''),
      (cc_fallback (c_client c) \<notin> {'''', ''fail'', ''kernel''}, BadField ''client.source_fallback'')] @
     concat (map source_rule_checks (cc_rules (c_client c))))"

text \<open>\<^verbatim>\<open>Load\<close>, from what reading and decoding the file yield.\<close>

definition Load :: "(string \<times> int) list \<Rightarrow> string + (string + config) \<Rightarrow> (config_error, config) result" where
  "Load order file =
     (case file of
        Inl e \<Rightarrow> Inl (ReadConfig e)
      | Inr (Inl e) \<Rightarrow> Inl (ParseConfig e)
      | Inr (Inr c) \<Rightarrow>
          (case validate order (ApplyDefaults c) of
             Some e \<Rightarrow> Inl e
           | None \<Rightarrow> Inr (ApplyDefaults c)))"

section \<open>The server's part\<close>

text \<open>
  The loops over the maps of clients, interfaces and leases, on their entries in the order of
  the iteration; \<open>seen\<close> is the map the loop fills.
\<close>

fun check_clients :: "(string \<times> string) list \<Rightarrow> config_error option" where
  "check_clients [] = None"
| "check_clients ((cid, secret) # xs) =
     (if \<not> ValidClientID cid then Some (BadEntry ''auth'' cid)
      else if length secret < MinSecretLen then Some (BadEntry ''auth'' cid)
      else check_clients xs)"

fun check_interfaces :: "(string, string) fmap \<Rightarrow> (string \<times> string) list \<Rightarrow> config_error option" where
  "check_interfaces seen [] = None"
| "check_interfaces seen ((cid, name) # xs) =
     (if \<not> ValidClientID cid then Some (BadEntry ''interfaces'' cid)
      else if \<not> ValidName name then Some (BadEntry ''interfaces'' cid)
      else if IsGeneratedName name then Some (BadEntry ''interfaces'' cid)
      else case fmlookup seen name of
        Some other \<Rightarrow> Some (BadEntry ''interfaces'' cid)
      | None \<Rightarrow> check_interfaces (fmupd name cid seen) xs)"

fun check_leases :: "prefix \<Rightarrow> addr \<Rightarrow> (addr, string) fmap \<Rightarrow> (string \<times> string) list \<Rightarrow> config_error option" where
  "check_leases pl inner seen [] = None"
| "check_leases pl inner seen ((cid, text) # xs) =
     (if \<not> ValidClientID cid then Some (BadEntry ''leases'' cid)
      else case ParseAddr text of
        None \<Rightarrow> Some (BadEntry ''leases'' cid)
      | Some leased \<Rightarrow>
          if is4 leased \<noteq> is4 (pip pl) then Some (BadEntry ''leases'' cid)
          else if \<not> contains pl leased then Some (BadEntry ''leases'' cid)
          else if leased = inner then Some (BadEntry ''leases'' cid)
          else (case fmlookup seen leased of
                  Some other \<Rightarrow> Some (BadEntry ''leases'' cid)
                | None \<Rightarrow> check_leases pl inner (fmupd leased cid seen) xs))"

definition or_else :: "'a option \<Rightarrow> 'a option \<Rightarrow> 'a option" where
  "or_else a b = (case a of Some x \<Rightarrow> Some x | None \<Rightarrow> b)"

definition ValidateServer ::
  "(string \<times> string) list \<Rightarrow> (string \<times> string) list \<Rightarrow> (string \<times> string) list \<Rightarrow> config \<Rightarrow> config_error option" where
  "ValidateServer clients interfaces lease_list c =
     (if c_gre_local c = '''' then Some (BadField ''gre_local'')
      else if c_inner_pool c = '''' then Some (BadField ''inner_pool'')
      else case ParsePrefix (c_inner_pool c) of
        None \<Rightarrow> Some (BadField ''inner_pool'')
      | Some pl \<Rightarrow>
          if c_server_inner c = '''' then Some (BadField ''server_inner'')
          else (case ParseAddr (c_server_inner c) of
             None \<Rightarrow> Some (BadField ''server_inner'')
           | Some inner \<Rightarrow>
               if \<not> contains pl inner then Some (BadField ''server_inner'')
               else if c_psk c = '''' \<and> c_clients c = fmempty then Some (BadField ''auth'')
               else if c_psk c \<noteq> '''' \<and> length (c_psk c) < MinSecretLen then Some (BadField ''auth.psk'')
               else or_else (check_clients clients)
                      (or_else (check_interfaces fmempty interfaces) (check_leases pl inner fmempty lease_list))))"

definition LeaseAddrs :: "config \<Rightarrow> (string, addr) fmap" where
  "LeaseAddrs c = fmmap (\<lambda>t. the (ParseAddr t)) (c_leases c)"

lemma or_else_None: "or_else a b = None \<longleftrightarrow> a = None \<and> b = None"
  by (cases a) (auto simp: or_else_def)

section \<open>What a valid server configuration is\<close>

definition enumerates :: "('a \<times> 'b) list \<Rightarrow> ('a, 'b) fmap \<Rightarrow> bool" where
  "enumerates xs m \<longleftrightarrow> distinct (map fst xs) \<and> fmap_of_list xs = m"

definition interfaces_ok :: "(string, string) fmap \<Rightarrow> bool" where
  "interfaces_ok m \<longleftrightarrow>
     (\<forall>cid n. fmlookup m cid = Some n \<longrightarrow> ValidClientID cid \<and> ValidName n \<and> \<not> IsGeneratedName n) \<and>
     (\<forall>c c' n. fmlookup m c = Some n \<longrightarrow> fmlookup m c' = Some n \<longrightarrow> c = c')"

definition leases_ok :: "prefix \<Rightarrow> addr \<Rightarrow> (string, string) fmap \<Rightarrow> bool" where
  "leases_ok pl inner m \<longleftrightarrow>
     (\<forall>cid t. fmlookup m cid = Some t \<longrightarrow> ValidClientID cid \<and>
        (\<exists>a. ParseAddr t = Some a \<and> is4 a = is4 (pip pl) \<and> contains pl a \<and> a \<noteq> inner)) \<and>
     (\<forall>c c' t t'. fmlookup m c = Some t \<longrightarrow> fmlookup m c' = Some t' \<longrightarrow> ParseAddr t = ParseAddr t' \<longrightarrow> c = c')"

definition server_ok :: "config \<Rightarrow> bool" where
  "server_ok c \<longleftrightarrow> c_gre_local c \<noteq> '''' \<and>
     (\<exists>pl inner. ParsePrefix (c_inner_pool c) = Some pl \<and> ParseAddr (c_server_inner c) = Some inner \<and>
        contains pl inner \<and> leases_ok pl inner (c_leases c)) \<and>
     (c_psk c = '''' \<longrightarrow> c_clients c \<noteq> fmempty) \<and> (c_psk c \<noteq> '''' \<longrightarrow> 32 \<le> length (c_psk c)) \<and>
     (\<forall>cid s. fmlookup (c_clients c) cid = Some s \<longrightarrow> ValidClientID cid \<and> 32 \<le> length s) \<and>
     interfaces_ok (c_interfaces c)"

lemma enumerates_lookup: "enumerates xs m \<Longrightarrow> fmlookup m k = Some v \<longleftrightarrow> (k, v) \<in> set xs"
  by (auto simp: enumerates_def fmlookup_of_list dest: map_of_SomeD)

lemma check_clients_None:
  "check_clients xs = None \<longleftrightarrow> (\<forall>(cid, s) \<in> set xs. ValidClientID cid \<and> 32 \<le> length s)"
  by (induction xs rule: check_clients.induct) (auto simp: MinSecretLen_def not_less)

lemma fresh_after:
  "(\<forall>(c, t) \<in> set xs. P c t \<and> (\<exists>a. g t = Some a \<and> Q a \<and> fmlookup (fmupd k v seen) a = None)) \<longleftrightarrow>
     (\<forall>(c, t) \<in> set xs. P c t \<and> (\<exists>a. g t = Some a \<and> Q a \<and> fmlookup seen a = None)) \<and> Some k \<notin> (g \<circ> snd) ` set xs"
proof -
  have "(\<exists>a. g t = Some a \<and> Q a \<and> fmlookup (fmupd k v seen) a = None) \<longleftrightarrow>
      (\<exists>a. g t = Some a \<and> Q a \<and> fmlookup seen a = None) \<and> g t \<noteq> Some k" for t
    by (cases "g t") auto
  then have "(\<forall>(c, t) \<in> set xs. P c t \<and> (\<exists>a. g t = Some a \<and> Q a \<and> fmlookup (fmupd k v seen) a = None)) \<longleftrightarrow>
      (\<forall>x \<in> set xs. P (fst x) (snd x) \<and> (\<exists>a. g (snd x) = Some a \<and> Q a \<and> fmlookup seen a = None) \<and> g (snd x) \<noteq> Some k)"
    by (simp only: case_prod_unfold)
  also have "\<dots> \<longleftrightarrow> (\<forall>x \<in> set xs. P (fst x) (snd x) \<and> (\<exists>a. g (snd x) = Some a \<and> Q a \<and> fmlookup seen a = None)) \<and>
      Some k \<notin> (g \<circ> snd) ` set xs"
    by (simp only: image_iff comp_apply) metis
  finally show ?thesis by (simp only: case_prod_unfold)
qed

lemma check_leases_None:
  "check_leases pl inner seen xs = None \<longleftrightarrow>
     (\<forall>(cid, t) \<in> set xs. ValidClientID cid \<and>
        (\<exists>a. ParseAddr t = Some a \<and> (is4 a = is4 (pip pl) \<and> contains pl a \<and> a \<noteq> inner) \<and> fmlookup seen a = None)) \<and>
     distinct (map (ParseAddr \<circ> snd) xs)"
proof (induction pl inner seen xs rule: check_leases.induct)
  case (2 pl inner seen cid t xs)
  show ?case
  proof (cases "ValidClientID cid \<and> (\<exists>a. ParseAddr t = Some a \<and> (is4 a = is4 (pip pl) \<and> contains pl a \<and> a \<noteq> inner) \<and>
      fmlookup seen a = None)")
    case True
    then obtain a where a: "ParseAddr t = Some a" "is4 a = is4 (pip pl)" "contains pl a" "a \<noteq> inner" "fmlookup seen a = None"
      by blast
    note IH = "2" [OF _ a(1) _ _ _ a(5), unfolded fresh_after]
    have step: "check_leases pl inner seen ((cid, t) # xs) = check_leases pl inner (fmupd a cid seen) xs"
      using True a by simp
    show ?thesis unfolding step using IH True a by auto
  next
    case False
    then show ?thesis by (auto split: option.splits)
  qed
qed simp

lemma check_interfaces_None:
  "check_interfaces seen xs = None \<longleftrightarrow>
     (\<forall>(cid, n) \<in> set xs. ValidClientID cid \<and>
        (\<exists>a. Some n = Some a \<and> (ValidName a \<and> \<not> IsGeneratedName a) \<and> fmlookup seen a = None)) \<and>
     distinct (map (Some \<circ> snd) xs)"
proof (induction seen xs rule: check_interfaces.induct)
  case (2 seen cid n xs)
  show ?case
  proof (cases "ValidClientID cid \<and> (ValidName n \<and> \<not> IsGeneratedName n) \<and> fmlookup seen n = None")
    case True
    then have step: "check_interfaces seen ((cid, n) # xs) = check_interfaces (fmupd n cid seen) xs" by simp
    note IH = "2" [unfolded fresh_after]
    show ?thesis unfolding step using IH True by auto
  next
    case False
    then show ?thesis by (auto split: option.splits)
  qed
qed simp

lemma distinct_by_value:
  assumes "distinct (map fst xs)"
  shows "distinct (map (f \<circ> snd) xs) \<longleftrightarrow> (\<forall>(c, t) \<in> set xs. \<forall>(c', t') \<in> set xs. f t = f t' \<longrightarrow> c = c')"
proof -
  have d: "distinct xs" and key: "(c, t) \<in> set xs \<Longrightarrow> (c, t') \<in> set xs \<Longrightarrow> t = t'" for c t t'
    using assms by (auto simp: distinct_map eq_key_imp_eq_value)
  have "distinct (map (f \<circ> snd) xs) \<longleftrightarrow> inj_on (f \<circ> snd) (set xs)" using d by (simp add: distinct_map)
  also have "\<dots> \<longleftrightarrow> (\<forall>x \<in> set xs. \<forall>y \<in> set xs. f (snd x) = f (snd y) \<longrightarrow> fst x = fst y)"
    unfolding inj_on_def comp_apply using key by (metis prod.collapse)
  finally show ?thesis by (simp only: case_prod_unfold)
qed

lemma ValidateServer_spec:
  assumes "enumerates clients (c_clients c)" and "enumerates interfaces (c_interfaces c)"
    and "enumerates lease_list (c_leases c)"
  shows "ValidateServer clients interfaces lease_list c = None \<longleftrightarrow> server_ok c"
proof -
  note l = enumerates_lookup [OF assms(1)] enumerates_lookup [OF assms(2)] enumerates_lookup [OF assms(3)]
  have d: "distinct (map fst interfaces)" "distinct (map fst lease_list)" using assms by (simp_all add: enumerates_def)
  have cl: "check_clients clients = None \<longleftrightarrow>
      (\<forall>cid s. fmlookup (c_clients c) cid = Some s \<longrightarrow> ValidClientID cid \<and> 32 \<le> length s)"
    unfolding check_clients_None l by auto
  have ifs: "check_interfaces fmempty interfaces = None \<longleftrightarrow> interfaces_ok (c_interfaces c)"
    unfolding check_interfaces_None distinct_by_value [OF d(1)] interfaces_ok_def l by auto
  have ls: "check_leases pl inner fmempty lease_list = None \<longleftrightarrow> leases_ok pl inner (c_leases c)" for pl inner
    unfolding check_leases_None distinct_by_value [OF d(2)] leases_ok_def l by auto
  have "ParsePrefix '''' = None" "ParseAddr '''' = None" by code_simp+
  then show ?thesis
    unfolding ValidateServer_def server_ok_def
    by (auto simp: or_else_None cl ifs ls MinSecretLen_def not_less split: option.splits)
qed

text \<open>
  C33. The checks of a server configuration accept exactly the valid ones, in whatever order the
  maps of clients, interfaces and leases are iterated: a local address, a pool with the
  server's address in it, secrets of at least 32 bytes, valid identities, pairwise different
  interface names outside the generated ones, and pairwise different leases inside the pool
  that are not the server's address.
\<close>

theorem ValidateServer_iff:
  assumes "enumerates clients (c_clients c)" and "enumerates interfaces (c_interfaces c)"
    and "enumerates lease_list (c_leases c)"
  shows "ValidateServer clients interfaces lease_list c = None \<longleftrightarrow> server_ok c"
  by (rule ValidateServer_spec [OF assms])

text \<open>
  Applying the defaults twice is applying them once, as the dialer does after loading, and
  a configuration that already passed is not changed by them.
\<close>

theorem ApplyDefaults_idempotent: "ApplyDefaults (ApplyDefaults c) = ApplyDefaults c"
proof -
  have "mss_WithDefaults (manage_default (mss_WithDefaults m)) = mss_WithDefaults m" for m
    by (simp add: mss_WithDefaults_def manage_default_def or_default_def)
  moreover have "health_WithDefaults (health_WithDefaults h) = health_WithDefaults h" for h
    by (simp add: health_WithDefaults_def or_default_def second_def)
  ultimately show ?thesis
    by (simp add: ApplyDefaults_def or_default_def DefaultListen_def DefaultIface_def second_def)
qed

lemma validate_None_guards:
  assumes "validate order c = None"
  shows "SplitHostPort (c_listen c) \<noteq> None" "c_fou_port c \<noteq> 0 \<longrightarrow> c_netlink_socket c = ''''"
    "0 \<le> c_mtu c" "0 \<le> c_max_pending c" "0 \<le> c_max_per_ip c"
    "0 < c_keepalive_interval c" "c_keepalive_interval c < c_keepalive_timeout c" "0 \<le> c_lease_ttl c"
    "mc_enabled (c_mss c) \<longrightarrow> validateMSSClamp order (c_mss c) = None"
    "hc_enabled (c_health c) \<longrightarrow> validateHealthCheck (c_health c) = None"
    "\<exists>n. AdminMode c = Inr n"
    "c_inner_pool c \<noteq> '''' \<longrightarrow> ParsePrefix (c_inner_pool c) \<noteq> None"
    "c_gre_local c \<noteq> '''' \<longrightarrow> ParseAddr (c_gre_local c) \<noteq> None"
    "cc_fallback (c_client c) \<in> {'''', ''fail'', ''kernel''}"
    "\<forall>r \<in> set (cc_rules (c_client c)). first_error (source_rule_checks r) = None"
  using assms [unfolded validate_def first_error_simps] by (auto simp: not_less not_le)

lemma AdminMode_bound: "AdminMode c = Inr n \<Longrightarrow> n \<le> 511"
  by (auto simp: AdminMode_def split: option.splits if_splits)

lemma mss_validated:
  assumes "validateMSSClamp order m = None" "set order = mss_values m"
  shows "mc_backend m \<in> {''nftables'', ''iptables''} \<and> mc_direction m \<in> {''out'', ''in'', ''both''} \<and>
    mc_mode m \<in> {''pmtu'', ''tunnel_mtu''} \<and> mc_mss m \<in> {0..65535} \<and> mc_mss4 m \<in> {0..65535} \<and> mc_mss6 m \<in> {0..65535}"
  using assms unfolding validateMSSClamp_def first_error_None
  by (auto simp: mss_values_def out_of_range_def)

lemma health_validated:
  assumes "validateHealthCheck h = None"
  shows "0 < hc_interval h \<and> 0 < hc_timeout h \<and> 0 < hc_failures h \<and> 0 \<le> hc_delay h \<and> 0 \<le> hc_large_delay h \<and>
    set (hc_actions h) \<subseteq> {''log'', ''run_script'', ''reconnect''} \<and>
    (''run_script'' \<in> set (hc_actions h) \<longrightarrow> hc_script h \<noteq> '''')"
  using assms unfolding validateHealthCheck_def first_error_None by (auto simp: not_less)


section \<open>Witnesses\<close>

definition zero_config :: config where
  "zero_config = \<lparr>c_listen = '''', c_gre_local = '''', c_inner_pool = '''', c_server_inner = '''', c_mtu = 0,
     c_gre_key = None, c_gre_seq = None, c_admin_socket = '''', c_admin_mode = '''', c_admin_group = '''',
     c_netlink_socket = '''', c_fou_port = 0, c_max_pending = 0, c_max_per_ip = 0, c_redirect = '''',
     c_must_hide = False, c_keepalive_interval = 0, c_keepalive_timeout = 0, c_lease_ttl = 0, c_psk = '''',
     c_clients = fmempty, c_hook_up = '''', c_hook_down = '''',
     c_mss = \<lparr>mc_enabled = False, mc_backend = '''', mc_direction = '''', mc_mode = '''', mc_mss = 0, mc_mss4 = 0,
       mc_mss6 = 0, mc_nft_family = '''', mc_nft_table = '''', mc_nft_chain = '''', mc_nft_manage = False,
       mc_ipt_chain = '''', mc_monitor = False\<rparr>,
     c_health = \<lparr>hc_enabled = False, hc_interval = 0, hc_timeout = 0, hc_failures = 0, hc_actions = [],
       hc_script = '''', hc_target = '''', hc_packet_size = 0, hc_packet_sizes = [], hc_delay = 0, hc_large_delay = 0,
       hc_large_threshold = 0, hc_command = '''', hc_bind_interface = False\<rparr>,
     c_interfaces = fmempty, c_leases = fmempty,
     c_client = \<lparr>cc_id = '''', cc_secret = '''', cc_iface = '''', cc_rules = [], cc_fallback = ''''\<rparr>\<rparr>"

definition demo_config :: config where
  "demo_config = zero_config\<lparr>c_gre_local := ''192.0.2.1'', c_inner_pool := ''10.0.0.0/24'',
     c_server_inner := ''10.0.0.1'', c_psk := replicate 32 CHR ''s'',
     c_interfaces := fmap_of_list [(''alice'', ''tun-alice'')], c_leases := fmap_of_list [(''bob'', ''10.0.0.9'')]\<rparr>"

theorem ValidateServer_iff_witness: "server_ok demo_config"
proof -
  have "ValidateServer [] [(''alice'', ''tun-alice'')] [(''bob'', ''10.0.0.9'')] demo_config = None" by code_simp
  moreover have "enumerates [] (c_clients demo_config)" "enumerates [(''alice'', ''tun-alice'')] (c_interfaces demo_config)"
    "enumerates [(''bob'', ''10.0.0.9'')] (c_leases demo_config)"
    by (simp_all add: enumerates_def demo_config_def zero_config_def)
  ultimately show ?thesis using ValidateServer_iff by blast
qed


end
