(* ===== verification/Startup.thy ===== *)
theory Startup
  imports Config Server Admission Session_Props
begin

text \<open>
  How \<^verbatim>\<open>gremlind server\<close> builds its parts from the configuration (\<^verbatim>\<open>runServer\<close> of
  \<^verbatim>\<open>cmd/gremlind/main.go\<close>): the pool with the static leases pinned, the session manager, the
  control server and its limits. Listening and the calls of the operating system are not
  modelled; what they return is an argument where the code uses it.
\<close>

section \<open>Building the server\<close>

datatype start_error =
    StartLoad config_error
  | StartInvalid config_error
  | StartPanic
  | StartPool pool_error
  | StartLease string pool_error
  | StartFOU string

fun pin_all :: "(string \<times> addr) list \<Rightarrow> pool \<Rightarrow> (start_error, pool) result" where
  "pin_all [] p = Inr p"
| "pin_all ((cid, a) # xs) p =
     (case pool_pin p a of Inl e \<Rightarrow> Inl (StartLease cid e) | Inr p' \<Rightarrow> pin_all xs p')"

text \<open>\<^verbatim>\<open>sessCfg\<close>, with the outer MTU still to be found (zero).\<close>

definition session_config :: "config \<Rightarrow> addr \<Rightarrow> addr \<Rightarrow> mgr_cfg" where
  "session_config c local inner =
     \<lparr>serverInner = inner, greLocal = local, outerMTU = 0, mtuCap = c_mtu c,
      useGREKey = (GREKeyEnabled c \<and> c_fou_port c = 0), useGRESeq = (GRESeqEnabled c \<and> c_fou_port c = 0),
      upHook = c_hook_up c, downHook = c_hook_down c, leaseTTL = c_lease_ttl c,
      ifNames = c_interfaces c, staticLease = LeaseAddrs c, fouPort = c_fou_port c, mssClamp = c_mss c\<rparr>"

definition control_server :: "config \<Rightarrow> server" where
  "control_server c =
     \<lparr>sv_psk = c_psk c, sv_clients = c_clients c, sv_redirect = c_redirect c, sv_must_hide = c_must_hide c\<rparr>"

definition control_limits :: "config \<Rightarrow> limits" where
  "control_limits c = \<lparr>max_pending = c_max_pending c, max_per_ip = c_max_per_ip c\<rparr>"

text \<open>
  The environment of the start: the iteration orders, the result of registering the FOU port,
  what the broker and the local detection report as outer MTU.
\<close>

record start_env =
  se_clients :: "(string \<times> string) list"
  se_interfaces :: "(string \<times> string) list"
  se_leases :: "(string \<times> string) list"
  se_pins :: "(string \<times> addr) list"
  se_fou :: "string option"
  se_broker_mtu :: "int option"
  se_detected :: "int option"

definition new_manager :: "start_env \<Rightarrow> config \<Rightarrow> mgr_cfg \<Rightarrow> pool \<Rightarrow> mgr_cfg \<times> manager" where
  "new_manager e c sc p =
     (if c_netlink_socket c \<noteq> ''''
      then newWith (sc\<lparr>outerMTU := (case se_broker_mtu e of Some m \<Rightarrow> m | None \<Rightarrow> 1500)\<rparr>) (se_detected e) p
      else newWith sc (se_detected e) p)"

definition start_server ::
  "start_env \<Rightarrow> (config_error, config) result \<Rightarrow> (start_error, mgr_cfg \<times> manager \<times> server \<times> limits) result" where
  "start_server e loaded =
     (case loaded of
        Inl err \<Rightarrow> Inl (StartLoad err)
      | Inr c \<Rightarrow>
          (case ValidateServer (se_clients e) (se_interfaces e) (se_leases e) c of
             Some err \<Rightarrow> Inl (StartInvalid err)
           | None \<Rightarrow>
               (case (ParseAddr (c_gre_local c), ParseAddr (c_server_inner c), ParsePrefix (c_inner_pool c)) of
                  (Some local, Some inner, Some pl) \<Rightarrow>
                    (case pool_new pl [inner] of
                       Inl err \<Rightarrow> Inl (StartPool err)
                     | Inr p0 \<Rightarrow>
                         if \<not> list_all (\<lambda>(cid, t). ParseAddr t \<noteq> None) (se_leases e) then Inl StartPanic
                         else rbind (pin_all (se_pins e) p0) (\<lambda>p.
                           case if c_fou_port c \<noteq> 0 then se_fou e else None of
                             Some err \<Rightarrow> Inl (StartFOU err)
                           | None \<Rightarrow>
                               (case new_manager e c (session_config c local inner) p of
                                  (cfg, m) \<Rightarrow> Inr (cfg, m, control_server c, control_limits c))))
                | _ \<Rightarrow> Inl StartPanic)))"

section \<open>A valid configuration starts\<close>

lemma contains_masked: "prefix_valid p \<Longrightarrow> contains (masked p) a = contains p a"
proof -
  assume v: "prefix_valid p"
  have w: "drop_bit h (push_bit h (drop_bit h x)) = drop_bit h x" for h and x :: "'a::len word"
    by (rule bit_word_eqI) (auto simp: bit_simps dest: bit_imp_le_length)
  have "host_bits (masked p) = host_bits p" using v by (cases "pip p") (auto simp: masked_def host_bits_def)
  moreover have "prefix_valid (masked p)" using prefix_wf_masked [OF v] by (simp add: prefix_wf_def)
  moreover have "same_net h (mask_addr h (pip p)) a = same_net h (pip p) a" for h
    by (cases "pip p"; cases a) (simp_all add: w)
  ultimately show ?thesis using v by (simp add: contains_def masked_def)
qed

lemma pool_new_ok:
  assumes "prefix_valid q"
  obtains p where "pool_new q rs = Inr p" "pool_wf p" "pprefix p = masked q"
    "reserved p = fset_of_list (filter is_valid rs)" "used p = {||}"
proof -
  have "prefix_valid (masked q)" using prefix_wf_masked [OF assms] by (simp add: prefix_wf_def)
  then obtain p where p: "pool_new q rs = Inr p" by (auto simp: pool_new_def Let_def)
  then show ?thesis using that [OF p pool_new_wf [OF p]] by (auto simp: pool_new_def Let_def split: if_splits)
qed

lemma pin_all_ok:
  assumes "\<forall>(cid, a) \<in> set xs. a \<in> claimable p" "pool_wf p"
  shows "\<exists>p'. pin_all xs p = Inr p' \<and> pool_wf p' \<and> claimable p' = claimable p \<and> used p' = used p \<and>
    fset (pinned p') = fset (pinned p) \<union> snd ` set xs"
  using assms
proof (induction xs p rule: pin_all.induct)
  case (2 cid a xs p)
  let ?p = "p\<lparr>pinned := finsert a (pinned p)\<rparr>"
  have pin: "pool_pin p a = Inr ?p" using "2.prems"(1) by (auto simp: pool_pin_def claimable_def)
  have "claimable ?p = claimable p" by (simp add: claimable_def)
  with "2.IH" [OF pin] "2.prems" pool_pin_wf [OF pin "2.prems"(2)] pin show ?case by auto
qed simp

definition start_orders :: "start_env \<Rightarrow> config \<Rightarrow> bool" where
  "start_orders e c \<longleftrightarrow> enumerates (se_clients e) (c_clients c) \<and> enumerates (se_interfaces e) (c_interfaces c) \<and>
     enumerates (se_leases e) (c_leases c) \<and> enumerates (se_pins e) (LeaseAddrs c)"

lemma LeaseAddrs_Some:
  "fmlookup (LeaseAddrs c) cid = Some a \<longleftrightarrow> (\<exists>t. fmlookup (c_leases c) cid = Some t \<and> a = the (ParseAddr t))"
  by (auto simp: LeaseAddrs_def)

lemma new_manager_ok:
  assumes "pool_wf p" "used p = {||}" "new_manager e c sc p = (cfg, m)"
  shows "mpool m = p" "ifNames cfg = ifNames sc" "staticLease cfg = staticLease sc"
    "fouPort cfg \<noteq> 0 \<longrightarrow> \<not> useGREKey cfg \<and> \<not> useGRESeq cfg" "fouPort cfg = fouPort sc"
    "serverInner cfg = serverInner sc" "greLocal cfg = greLocal sc"
  using assms by (auto simp: new_manager_def newWith_def Let_def split: if_splits)

lemma new_manager_inv:
  assumes "pool_wf p" "used p = {||}" "new_manager e c sc p = (cfg, m)"
  shows "mgr_inv cfg m"
  using assms(3) newWith_inv [OF assms(1,2)] unfolding new_manager_def by (auto split: if_splits)

text \<open>The start, with the values the parsers return.\<close>

lemma start_server_ok:
  assumes "ValidateServer (se_clients e) (se_interfaces e) (se_leases e) c = None" "start_orders e c"
    and "ParseAddr (c_gre_local c) = Some local" and "c_fou_port c = 0 \<or> se_fou e = None"
  shows "\<exists>inner pl p cfg m. start_server e (Inr c) = Inr (cfg, m, control_server c, control_limits c) \<and>
    ParseAddr (c_server_inner c) = Some inner \<and> ParsePrefix (c_inner_pool c) = Some pl \<and>
    new_manager e c (session_config c local inner) p = (cfg, m) \<and> pool_wf p \<and> used p = {||} \<and>
    claimable p = {a. contains pl a \<and> a \<noteq> inner} \<and> fset (pinned p) = fset (fmran (LeaseAddrs c))"
proof -
  have ok: "server_ok c" using assms(1,2) ValidateServer_spec by (simp add: start_orders_def)
  then obtain pl inner where pl: "ParsePrefix (c_inner_pool c) = Some pl" and inner: "ParseAddr (c_server_inner c) = Some inner"
    and ls: "leases_ok pl inner (c_leases c)" by (auto simp: server_ok_def)
  obtain p0 where p0: "pool_new pl [inner] = Inr p0" "pool_wf p0" "pprefix p0 = masked pl"
    "reserved p0 = fset_of_list (filter is_valid [inner])" "used p0 = {||}"
    by (rule pool_new_ok [OF ParsePrefix_valid [OF pl]])
  have cl: "claimable p0 = {a. contains pl a \<and> a \<noteq> inner}"
    using p0(3,4) ParseAddr_valid [OF inner] by (auto simp: claimable_def contains_masked [OF ParsePrefix_valid [OF pl]])
  have pins: "enumerates (se_pins e) (LeaseAddrs c)" "enumerates (se_leases e) (c_leases c)"
    using assms(2) by (simp_all add: start_orders_def)
  have "\<forall>(cid, a) \<in> set (se_pins e). a \<in> claimable p0"
    using ls cl enumerates_lookup [OF pins(1)] by (fastforce simp: leases_ok_def LeaseAddrs_Some)
  from pin_all_ok [OF this p0(2)] obtain p where p: "pin_all (se_pins e) p0 = Inr p" "pool_wf p"
    "claimable p = claimable p0" "used p = used p0" "fset (pinned p) = fset (pinned p0) \<union> snd ` set (se_pins e)" by blast
  have "fset (pinned p0) = {}" using p0(1) by (auto simp: pool_new_def Let_def split: if_splits)
  moreover have "snd ` set (se_pins e) = fset (fmran (LeaseAddrs c))"
    using enumerates_lookup [OF pins(1)] by (force simp: fmlookup_ran_iff image_iff)
  moreover have "list_all (\<lambda>(cid, t). ParseAddr t \<noteq> None) (se_leases e)"
    using ls enumerates_lookup [OF pins(2)] by (fastforce simp: list_all_iff leases_ok_def)
  moreover obtain cfg m where "new_manager e c (session_config c local inner) p = (cfg, m)" by (metis surj_pair)
  moreover from this have "start_server e (Inr c) = Inr (cfg, m, control_server c, control_limits c)"
    using assms pl inner p0(1) p(1) calculation(3) by (auto simp: start_server_def)
  ultimately show ?thesis using pl inner p p0(5) cl by auto
qed

text \<open>
  A configuration that loads and passes the server's checks starts: no parser panics, no
  pin is refused, and the manager that comes up satisfies its invariant, keeps the interface
  names apart, and has every static lease in the pool, withheld from dynamic allocation and
  given to one client only, which is what the guarantees about leases rest on.
\<close>

lemma startup_ok:
  assumes "Load order file = Inr c" and "start_orders e c"
    and "ValidateServer (se_clients e) (se_interfaces e) (se_leases e) c = None"
    and "c_fou_port c = 0 \<or> se_fou e = None"
  shows "\<exists>cfg m. start_server e (Inr c) = Inr (cfg, m, control_server c, control_limits c) \<and>
    mgr_inv cfg m \<and> names_ok cfg \<and> sessions m = fmempty \<and>
    (\<forall>cid a. fmlookup (staticLease cfg) cid = Some a \<longrightarrow>
       a \<in> claimable (mpool m) \<and> a \<notin> dynamic (mpool m) \<and>
       (\<forall>c'. fmlookup (staticLease cfg) c' = Some a \<longrightarrow> c' = cid)) \<and>
    (fouPort cfg \<noteq> 0 \<longrightarrow> \<not> useGREKey cfg \<and> \<not> useGRESeq cfg)"
proof -
  have ok: "server_ok c" using assms(2,3) ValidateServer_spec by (simp add: start_orders_def)
  have "validate order c = None" using assms(1) by (auto simp: Load_def split: sum.splits option.splits)
  from validate_None_guards(13) [OF this] ok obtain local where l: "ParseAddr (c_gre_local c) = Some local"
    by (auto simp: server_ok_def)
  from start_server_ok [OF assms(3,2) l assms(4)] obtain inner pl p cfg m where
    st: "start_server e (Inr c) = Inr (cfg, m, control_server c, control_limits c)"
    and in': "ParseAddr (c_server_inner c) = Some inner" "ParsePrefix (c_inner_pool c) = Some pl"
    and nm: "new_manager e c (session_config c local inner) p = (cfg, m)" and p: "pool_wf p" "used p = {||}"
    and cl: "claimable p = {a. contains pl a \<and> a \<noteq> inner}" and pn: "fset (pinned p) = fset (fmran (LeaseAddrs c))"
    by blast
  note m = new_manager_inv [OF p nm] new_manager_ok [OF p nm]
  have ls: "leases_ok pl inner (c_leases c)" and ifs: "interfaces_ok (c_interfaces c)"
    using ok in' by (auto simp: server_ok_def)
  have "names_ok cfg" using ifs m(3) by (auto simp: names_ok_def interfaces_ok_def session_config_def)
  moreover have "sessions m = fmempty" using nm by (auto simp: new_manager_def newWith_def Let_def split: if_splits)
  moreover have "a \<in> claimable (mpool m) \<and> a \<notin> dynamic (mpool m) \<and>
      (\<forall>c'. fmlookup (staticLease cfg) c' = Some a \<longrightarrow> c' = cid)"
    if "fmlookup (staticLease cfg) cid = Some a" for cid a
  proof -
    from that have la: "fmlookup (LeaseAddrs c) cid = Some a" using m(4) by (simp add: session_config_def)
    then obtain t where t: "fmlookup (c_leases c) cid = Some t" "ParseAddr t = Some a" "contains pl a" "a \<noteq> inner"
      using ls by (fastforce simp: leases_ok_def LeaseAddrs_Some)
    have "c' = cid" if "fmlookup (LeaseAddrs c) c' = Some a" for c'
      using ls that t by (fastforce simp: leases_ok_def LeaseAddrs_Some)
    moreover have "a |\<in>| pinned p" using pn fmranI [OF la] by auto
    ultimately show ?thesis using cl t m(2,4) by (simp add: dynamic_def session_config_def)
  qed
  ultimately show ?thesis using st m(1,5) by blast
qed

section \<open>Witness\<close>

definition demo_start :: start_env where
  "demo_start = \<lparr>se_clients = [], se_interfaces = [(''alice'', ''tun-alice'')], se_leases = [(''bob'', ''10.0.0.9'')],
     se_pins = [(''bob'', V4 0x0a000009)], se_fou = None, se_broker_mtu = None, se_detected = Some 1500\<rparr>"

definition demo_loaded :: config where
  "demo_loaded = ApplyDefaults demo_config"

lemma demo_load: "Load [(''mss'', 0), (''mss4'', 0), (''mss6'', 0)] (Inr (Inr demo_config)) = Inr demo_loaded"
proof -
  have "validate [(''mss'', 0), (''mss4'', 0), (''mss6'', 0)] demo_loaded = None" by code_simp
  then show ?thesis by (simp add: Load_def demo_loaded_def)
qed

lemma demo_start_orders: "start_orders demo_start demo_loaded"
proof -
  have "ParseAddr ''10.0.0.9'' = Some (V4 0x0a000009)" by code_simp
  then have "LeaseAddrs demo_loaded = fmap_of_list [(''bob'', V4 0x0a000009)]"
    by (intro fmap_ext) (auto simp: LeaseAddrs_def demo_loaded_def ApplyDefaults_def demo_config_def)
  then show ?thesis
    by (simp add: start_orders_def enumerates_def demo_start_def demo_loaded_def ApplyDefaults_def demo_config_def zero_config_def)
qed

end
