(* ===== verification/Netlink.thy ===== *)
theory Netlink
  imports Link
begin

text \<open>
  Package \<^verbatim>\<open>internal/gre\<close>, \<^verbatim>\<open>netlink_linux.go\<close>: rtnetlink messages as bytes, the parser of
  attributes and replies, and the requests the daemon makes. The byte order of the host is the
  argument \<open>big\<close>. The kernel is an argument: for a request it yields the datagrams read until
  the receive fails, and its next state. A slice out of range is the value \<open>NlPanic\<close>.
\<close>

section \<open>Host byte order and messages\<close>

definition native_put :: "bool \<Rightarrow> nat \<Rightarrow> 'a::len word \<Rightarrow> bytes" where
  "native_put big n w = (if big then be_bytes n w else rev (be_bytes n w))"

definition native_get :: "bool \<Rightarrow> bytes \<Rightarrow> 'a::len word" where
  "native_get big b = be_word (if big then b else rev b)"

lemma length_native_put [simp]: "length (native_put big n w) = n"
  by (simp add: native_put_def)

lemma native_get_put:
  "LENGTH('a) \<le> 8 * n \<Longrightarrow> native_get big (native_put big n w) = (w :: 'a::len word)"
  by (simp add: native_get_def native_put_def be_word_be_bytes)

definition align4 :: "nat \<Rightarrow> nat" where
  "align4 n = (n + 3) div 4 * 4"

lemma align4_props: "n \<le> align4 n" "align4 n < n + 4" "align4 n mod 4 = 0" "n mod 4 = 0 \<Longrightarrow> align4 n = n"
  by (auto simp: align4_def)

definition beU16 :: "16 word \<Rightarrow> bytes" where "beU16 v = be_bytes 2 v"
definition beU32 :: "32 word \<Rightarrow> bytes" where "beU32 v = be_bytes 4 v"
definition nativeU16 :: "bool \<Rightarrow> 16 word \<Rightarrow> bytes" where "nativeU16 big v = native_put big 2 v"
definition nativeU32 :: "bool \<Rightarrow> 32 word \<Rightarrow> bytes" where "nativeU32 big v = native_put big 4 v"

text \<open>\<^verbatim>\<open>native.PutUintN(b[pos:], v)\<close>\<close>

definition put_at :: "nat \<Rightarrow> bytes \<Rightarrow> bytes \<Rightarrow> bytes" where
  "put_at pos v b = take pos b @ v @ drop (pos + length v) b"

definition newNlmsg :: "bool \<Rightarrow> 32 word \<Rightarrow> 16 word \<Rightarrow> 16 word \<Rightarrow> bytes" where
  "newNlmsg big seq typ flags =
     put_at 8 (native_put big 4 seq)
       (put_at 6 (native_put big 2 flags) (put_at 4 (native_put big 2 typ) (replicate 16 0)))"

text \<open>The length and the type of an attribute are written low byte first whatever the host.\<close>

definition attr :: "16 word \<Rightarrow> bytes \<Rightarrow> bytes \<Rightarrow> bytes" where
  "attr typ data m =
     (let l = 4 + length data in
      m @ [of_nat l, of_nat (l div 256), ucast typ, ucast (drop_bit 8 typ)] @ data @ replicate (align4 l - l) 0)"

definition beginNested :: "16 word \<Rightarrow> bytes \<Rightarrow> nat \<times> bytes" where
  "beginNested typ m = (length m, m @ [0, 0, ucast typ, ucast (drop_bit 8 typ)])"

definition endNested :: "bool \<Rightarrow> nat \<Rightarrow> bytes \<Rightarrow> bytes" where
  "endNested big pos m = put_at pos (native_put big 2 (of_nat (length m - pos) :: 16 word)) m"

definition finalize :: "bool \<Rightarrow> bytes \<Rightarrow> bytes" where
  "finalize big m = put_at 0 (native_put big 4 (of_nat (length m) :: 32 word)) m"

section \<open>Parsing\<close>

text \<open>\<^verbatim>\<open>parseAttrs\<close>; None when the step over the last attribute's padding leaves the slice.\<close>

function parseAttrs :: "bool \<Rightarrow> bytes \<Rightarrow> (16 word \<times> bytes) list option" where
  "parseAttrs big b =
     (if length b < 4 then Some []
      else
        let l = unat (native_get big (take 2 b) :: 16 word); typ = native_get big (take 2 (drop 2 b)) in
        if l < 4 \<or> length b < l then Some []
        else if length b < align4 l then None
        else map_option (Cons (typ, take (l - 4) (drop 4 b))) (parseAttrs big (drop (align4 l) b)))"
  by pat_completeness auto

termination
  by (relation "measure (\<lambda>(big, b). length b)") (auto simp: align4_def)

declare parseAttrs.simps [simp del]

datatype nl_error =
    NlTransport string
  | NlMalformed
  | NlErrno int
  | NlPanic
  | NlNoDevice
  | NlNotFound
  | NlInvalid
  | NlNoFamily

text \<open>One datagram: finished with a result, or the payloads so far.\<close>

function nl_scan :: "bool \<Rightarrow> bytes \<Rightarrow> bytes list \<Rightarrow> (nl_error, bytes list) result + bytes list" where
  "nl_scan big b out =
     (if length b < 16 then Inr out
      else
        let l = unat (native_get big (take 4 b) :: 32 word); typ = (native_get big (take 2 (drop 4 b)) :: 16 word);
            payload = take (l - 16) (drop 16 b) in
        if l < 16 \<or> length b < l then Inl (Inl NlMalformed)
        else if typ = 2
        then if length payload < 4 then Inl (Inl NlPanic)
             else let errno = sint (native_get big (take 4 payload) :: 32 word) in
                  if errno \<noteq> 0 then Inl (Inl (NlErrno (- errno))) else Inl (Inr out)
        else if typ = 3 then Inl (Inr out)
        else if length b < align4 l then Inl (Inl NlPanic)
        else nl_scan big (drop (align4 l) b) (out @ [payload]))"
  by pat_completeness auto

termination
  by (relation "measure (\<lambda>(big, b, out). length b)") (auto simp: align4_def)

declare nl_scan.simps [simp del]

text \<open>The receive loop over the datagrams, which end with an error of \<^verbatim>\<open>Recvfrom\<close>.\<close>

fun nl_receive :: "bool \<Rightarrow> bool \<Rightarrow> bytes list \<Rightarrow> string \<Rightarrow> bytes list \<Rightarrow> (nl_error, bytes list) result" where
  "nl_receive big dump [] err out = Inl (NlTransport err)"
| "nl_receive big dump (d # ds) err out =
     (case nl_scan big d out of
        Inl r \<Rightarrow> r
      | Inr out' \<Rightarrow> if \<not> dump then Inr out' else nl_receive big dump ds err out')"

text \<open>
  The kernel: for a protocol and a request either a socket error, or the datagrams and the error
  that ends them, and the next state.
\<close>

type_synonym 'k kernel = "nat \<Rightarrow> bytes \<Rightarrow> 'k \<Rightarrow> (string + bytes list \<times> string) \<times> 'k"

definition nlExecProto :: "'k kernel \<Rightarrow> bool \<Rightarrow> nat \<Rightarrow> bytes \<Rightarrow> bool \<Rightarrow> 'k \<Rightarrow> (nl_error, bytes list) result \<times> 'k" where
  "nlExecProto kern big proto req dump k =
     (case kern proto req k of
        (Inl e, k') \<Rightarrow> (Inl (NlTransport e), k')
      | (Inr (ds, err), k') \<Rightarrow> (nl_receive big dump ds err [], k'))"

definition nlExec :: "'k kernel \<Rightarrow> bool \<Rightarrow> bytes \<Rightarrow> bool \<Rightarrow> 'k \<Rightarrow> (nl_error, bytes list) result \<times> 'k" where
  "nlExec kern big req dump k = nlExecProto kern big 0 req dump k"

section \<open>The attributes of a built message\<close>

lemma of_nat_byte: "[of_nat l, of_nat (l div 256)] = rev (be_bytes 2 (of_nat l :: 16 word))" if "l < 65536"
proof -
  have "unat (ucast (drop_bit 8 (of_nat l :: 16 word)) :: byte) = unat (of_nat (l div 256) :: byte)"
    using that by (simp add: unsigned_ucast_eq unat_drop_bit_div unsigned_of_nat take_bit_nat_eq_self)
  moreover have "unat (ucast (of_nat l :: 16 word) :: byte) = unat (of_nat l :: byte)"
    by (simp add: unsigned_ucast_eq unsigned_of_nat take_bit_take_bit)
  ultimately show ?thesis by (simp add: be_bytes_2 unat_inject)
qed

text \<open>One attribute, as the bytes \<open>attr\<close> appends.\<close>

definition attr_bytes :: "16 word \<Rightarrow> bytes \<Rightarrow> bytes" where
  "attr_bytes typ data = attr typ data []"

lemma attr_append: "attr typ data m = m @ attr_bytes typ data"
  by (simp add: attr_def attr_bytes_def Let_def)

lemma length_attr_bytes: "length (attr_bytes typ data) = align4 (4 + length data)"
  using align4_props(1) [of "4 + length data"] by (simp add: attr_bytes_def attr_def Let_def)

lemma attr_bytes_little:
  assumes "4 + length data < 65536"
  shows "attr_bytes typ data = native_put False 2 (of_nat (4 + length data) :: 16 word) @ native_put False 2 typ @
    data @ replicate (align4 (4 + length data) - (4 + length data)) 0"
  using of_nat_byte [OF assms]
  by (simp add: attr_bytes_def attr_def native_put_def Let_def be_bytes_2)

lemma unat_of_nat_16: "n < 65536 \<Longrightarrow> unat (of_nat n :: 16 word) = n"
  by (simp add: unsigned_of_nat take_bit_nat_eq_self)

lemma parseAttrs_attr:
  assumes "4 + length data < 65536"
  shows "parseAttrs False (attr_bytes typ data @ rest) = map_option (Cons (typ, data)) (parseAttrs False rest)"
proof -
  let ?l = "4 + length data" and ?b = "attr_bytes typ data @ rest"
  have len: "align4 ?l \<le> length ?b" "?l \<le> length ?b"
    using align4_props(1) [of ?l] by (simp_all add: length_attr_bytes)
  have l: "unat (native_get False (take 2 ?b) :: 16 word) = ?l"
    using assms unat_of_nat_16 [OF assms]
    by (simp add: attr_bytes_little native_get_put del: of_nat_add of_nat_numeral)
  have "native_get False (take 2 (drop 2 ?b)) = typ" "take (?l - 4) (drop 4 ?b) = data"
    using assms by (simp_all add: attr_bytes_little native_get_put)
  moreover have "drop (align4 ?l) ?b = rest" by (simp add: length_attr_bytes)
  ultimately show ?thesis
    using len l by (simp add: parseAttrs.simps [of False ?b] Let_def)
qed

lemma parseAttrs_Nil [simp]: "parseAttrs big [] = Some []"
  by (simp add: parseAttrs.simps)

text \<open>A nested attribute whose content is padded is an attribute with that content.\<close>

lemma nested_attr:
  assumes "length content mod 4 = 0" "4 + length content < 65536"
  shows "endNested False (length m) (snd (beginNested typ m) @ content) = m @ attr_bytes typ content"
proof -
  have "align4 (4 + length content) = 4 + length content" using assms(1) by (intro align4_props(4)) presburger
  then show ?thesis
    using assms(2)
    by (simp add: endNested_def beginNested_def put_at_def attr_bytes_little native_put_def be_bytes_2)
qed

section \<open>Requests\<close>

text \<open>Message types and flags of the kernel's interface (\<^verbatim>\<open>linux/rtnetlink.h\<close>, \<^verbatim>\<open>linux/netlink.h\<close>).\<close>

abbreviation "RTM_NEWLINK \<equiv> 16 :: 16 word"
abbreviation "RTM_DELLINK \<equiv> 17 :: 16 word"
abbreviation "RTM_GETLINK \<equiv> 18 :: 16 word"
abbreviation "RTM_SETLINK \<equiv> 19 :: 16 word"
abbreviation "RTM_NEWADDR \<equiv> 20 :: 16 word"
abbreviation "RTM_GETADDR \<equiv> 22 :: 16 word"
abbreviation "RTM_NEWROUTE \<equiv> 24 :: 16 word"
abbreviation "RTM_GETROUTE \<equiv> 26 :: 16 word"
abbreviation "NLM_F_REQUEST \<equiv> 1 :: 16 word"
abbreviation "NLM_F_ACK \<equiv> 4 :: 16 word"
abbreviation "NLM_F_REPLACE \<equiv> 0x100 :: 16 word"
abbreviation "NLM_F_EXCL \<equiv> 0x200 :: 16 word"
abbreviation "NLM_F_DUMP \<equiv> 0x300 :: 16 word"
abbreviation "NLM_F_CREATE \<equiv> 0x400 :: 16 word"
abbreviation "IFLA_IFNAME \<equiv> 3 :: 16 word"
abbreviation "IFLA_MTU \<equiv> 4 :: 16 word"
abbreviation "IFLA_LINKINFO \<equiv> 18 :: 16 word"
abbreviation "IFLA_AF_SPEC \<equiv> 26 :: 16 word"
abbreviation "IFLA_INFO_KIND \<equiv> 1 :: 16 word"
abbreviation "IFLA_INFO_DATA \<equiv> 2 :: 16 word"

definition nameAttr :: "string \<Rightarrow> bytes" where
  "nameAttr s = bytes_of_string s @ [0]"

definition addrFamily :: "addr \<Rightarrow> byte" where
  "addrFamily a = (if is4 a then 2 else 10)"

definition trimNul :: "bytes \<Rightarrow> string" where
  "trimNul b = string_of_bytes (takeWhile (\<lambda>c. c \<noteq> 0) b)"

text \<open>An \<^verbatim>\<open>IfInfomsg\<close> with an index, flags and a change mask.\<close>

definition ifinfo :: "bool \<Rightarrow> 32 word \<Rightarrow> 32 word \<Rightarrow> bytes" where
  "ifinfo big idx flags =
     put_at 12 (native_put big 4 flags) (put_at 8 (native_put big 4 flags) (put_at 4 (native_put big 4 idx) (replicate 16 0)))"

definition dump_links_request :: "bool \<Rightarrow> 32 word \<Rightarrow> bytes" where
  "dump_links_request big seq = finalize big (newNlmsg big seq RTM_GETLINK (NLM_F_REQUEST OR NLM_F_DUMP) @ replicate 16 0)"

definition link_del_request :: "bool \<Rightarrow> 32 word \<Rightarrow> 32 word \<Rightarrow> bytes" where
  "link_del_request big seq idx =
     finalize big (newNlmsg big seq RTM_DELLINK (NLM_F_REQUEST OR NLM_F_ACK) @ ifinfo big idx 0)"

definition link_up_request :: "bool \<Rightarrow> 32 word \<Rightarrow> 32 word \<Rightarrow> bytes" where
  "link_up_request big seq idx =
     finalize big (newNlmsg big seq RTM_NEWLINK (NLM_F_REQUEST OR NLM_F_ACK) @ ifinfo big idx 1)"

definition addr_add_request :: "bool \<Rightarrow> 32 word \<Rightarrow> 32 word \<Rightarrow> addr \<Rightarrow> nat \<Rightarrow> byte \<Rightarrow> bytes" where
  "addr_add_request big seq idx a plen scope =
     finalize big (attr 1 (as_slice a) (attr 2 (as_slice a)
       (newNlmsg big seq RTM_NEWADDR (NLM_F_REQUEST OR NLM_F_ACK OR NLM_F_CREATE OR NLM_F_REPLACE) @
        [addrFamily a, of_nat plen, 2, scope] @ native_put big 4 idx)))"

definition route_add_request :: "bool \<Rightarrow> 32 word \<Rightarrow> 32 word \<Rightarrow> addr \<Rightarrow> nat \<Rightarrow> bytes" where
  "route_add_request big seq idx dst plen =
     finalize big (attr 4 (native_put big 4 idx) (attr 1 (as_slice dst)
       (newNlmsg big seq RTM_NEWROUTE (NLM_F_REQUEST OR NLM_F_ACK OR NLM_F_CREATE) @
        [addrFamily dst, of_nat plen, 0, 0, 254, 3, 253, 1, 0, 0, 0, 0])))"

definition gre_flags :: "gre_params \<Rightarrow> 16 word" where
  "gre_flags p = (if gp_key p \<noteq> 0 then 0x2000 else 0) OR (if gp_seq p then 0x1000 else 0)"

definition gre_hop_limit :: "gre_params \<Rightarrow> byte" where
  "gre_hop_limit p = (if gp_hoplimit p = 0 then 64 else gp_hoplimit p)"

text \<open>The attributes inside \<^verbatim>\<open>IFLA_INFO_DATA\<close>, appended one by one.\<close>

definition gre_data :: "bool \<Rightarrow> gre_params \<Rightarrow> bytes \<Rightarrow> bytes" where
  "gre_data big p m =
     (let m1 = (if gp_key p \<noteq> 0 then attr 5 (beU32 (gp_key p)) (attr 4 (beU32 (gp_key p)) m) else m);
          m2 = (if gre_flags p \<noteq> 0 then attr 3 (beU16 (gre_flags p)) (attr 2 (beU16 (gre_flags p)) m1) else m1);
          m3 = attr 7 (as_slice (gp_remote p)) (attr 6 (as_slice (gp_local p)) m2);
          m4 = attr 8 [gre_hop_limit p] m3;
          m5 = (if is6 (gp_local p) then attr 13 (nativeU32 big 1) m4 else m4)
      in if gp_fou_dport p \<noteq> 0
         then attr 17 (beU16 (gp_fou_dport p)) (attr 16 (beU16 (gp_fou_sport p))
                (attr 15 (nativeU16 big (if is6 (gp_local p) then 2 else 1)) (attr 14 (nativeU16 big 1) m5)))
         else m5)"

definition gre_kind :: "gre_params \<Rightarrow> string" where
  "gre_kind p = (if is6 (gp_local p) then ''ip6gre'' else ''gre'')"

definition create_request :: "bool \<Rightarrow> 32 word \<Rightarrow> gre_params \<Rightarrow> bytes" where
  "create_request big seq p =
     (let m0 = newNlmsg big seq RTM_NEWLINK (NLM_F_REQUEST OR NLM_F_ACK OR NLM_F_CREATE OR NLM_F_EXCL) @ replicate 16 0;
          m1 = attr IFLA_MTU (native_put big 4 (of_int (gp_mtu p) :: 32 word)) (attr IFLA_IFNAME (nameAttr (gp_name p)) m0);
          (li, m2) = beginNested IFLA_LINKINFO m1;
          m3 = attr IFLA_INFO_KIND (nameAttr (gre_kind p)) m2;
          (data, m4) = beginNested IFLA_INFO_DATA m3;
          m5 = gre_data big p m4
      in finalize big (endNested big li (endNested big data m5)))"

definition gen_mode_request :: "bool \<Rightarrow> 32 word \<Rightarrow> 32 word \<Rightarrow> bytes" where
  "gen_mode_request big seq idx =
     (let m0 = newNlmsg big seq RTM_SETLINK (NLM_F_REQUEST OR NLM_F_ACK) @ ifinfo big idx 0;
          (af, m1) = beginNested IFLA_AF_SPEC m0;
          (in6, m2) = beginNested 10 m1;
          m3 = attr 8 [1] m2
      in finalize big (endNested big af (endNested big in6 m3)))"

definition addr_dump_request :: "bool \<Rightarrow> 32 word \<Rightarrow> addr \<Rightarrow> bytes" where
  "addr_dump_request big seq a =
     finalize big (newNlmsg big seq RTM_GETADDR (NLM_F_REQUEST OR NLM_F_DUMP) @ addrFamily a # replicate 7 0)"

definition route_get_request :: "bool \<Rightarrow> 32 word \<Rightarrow> addr \<Rightarrow> addr \<Rightarrow> bytes" where
  "route_get_request big seq l r =
     finalize big (attr 2 (as_slice l) (attr 1 (as_slice r)
       (newNlmsg big seq RTM_GETROUTE NLM_F_REQUEST @
        [addrFamily r, of_nat (bitlen r), of_nat (bitlen l)] @ replicate 9 0)))"

section \<open>Typed operations\<close>

text \<open>The state of an operation: the sequence number of the last message, and the kernel.\<close>

type_synonym 'k nls = "32 word \<times> 'k"

definition nl_call ::
  "'k kernel \<Rightarrow> bool \<Rightarrow> (32 word \<Rightarrow> bytes) \<Rightarrow> bool \<Rightarrow> 'k nls \<Rightarrow> (nl_error, bytes list) result \<times> 'k nls" where
  "nl_call kern big req dump s =
     (case nlExec kern big (req (fst s + 1)) dump (snd s) of (r, k') \<Rightarrow> (r, (fst s + 1, k')))"

definition nl_ack :: "'k kernel \<Rightarrow> bool \<Rightarrow> (32 word \<Rightarrow> bytes) \<Rightarrow> 'k nls \<Rightarrow> nl_error option \<times> 'k nls" where
  "nl_ack kern big req s =
     (case nl_call kern big req False s of (r, s') \<Rightarrow> (case r of Inl e \<Rightarrow> Some e | Inr _ \<Rightarrow> None, s'))"

record link_info =
  li_index :: "32 word"
  li_name :: string
  li_kind :: string

text \<open>The kind is the last \<^verbatim>\<open>IFLA_INFO_KIND\<close> of the nested attributes; None is a panic.\<close>

definition link_kind :: "bool \<Rightarrow> bytes \<Rightarrow> string \<Rightarrow> string option" where
  "link_kind big data kind =
     map_option (foldl (\<lambda>k (t, d). if t = IFLA_INFO_KIND then trimNul d else k) kind) (parseAttrs big data)"

definition link_attr :: "bool \<Rightarrow> link_info option \<Rightarrow> 16 word \<times> bytes \<Rightarrow> link_info option" where
  "link_attr big li a =
     (case li of
        None \<Rightarrow> None
      | Some l \<Rightarrow>
          if fst a = IFLA_IFNAME then Some (l\<lparr>li_name := trimNul (snd a)\<rparr>)
          else if fst a = IFLA_LINKINFO then map_option (\<lambda>k. l\<lparr>li_kind := k\<rparr>) (link_kind big (snd a) (li_kind l))
          else Some l)"

definition link_of :: "bool \<Rightarrow> bytes \<Rightarrow> link_info option" where
  "link_of big p =
     (case parseAttrs big (drop 16 p) of
        None \<Rightarrow> None
      | Some as \<Rightarrow> foldl (link_attr big)
          (Some \<lparr>li_index = native_get big (take 4 (drop 4 p)), li_name = '''', li_kind = ''''\<rparr>) as)"

fun links_of :: "bool \<Rightarrow> bytes list \<Rightarrow> link_info list option" where
  "links_of big [] = Some []"
| "links_of big (p # ps) =
     (if length p < 16 then links_of big ps
      else case link_of big p of
        None \<Rightarrow> None
      | Some li \<Rightarrow> map_option (\<lambda>ls. if li_name li \<noteq> '''' then li # ls else ls) (links_of big ps))"

definition dumpLinks :: "'k kernel \<Rightarrow> bool \<Rightarrow> 'k nls \<Rightarrow> (nl_error, link_info list) result \<times> 'k nls" where
  "dumpLinks kern big s =
     (case nl_call kern big (dump_links_request big) True s of
        (Inl e, s') \<Rightarrow> (Inl e, s')
      | (Inr msgs, s') \<Rightarrow> (case links_of big msgs of None \<Rightarrow> Inl NlPanic | Some ls \<Rightarrow> Inr ls, s'))"

definition linkIndex :: "'k kernel \<Rightarrow> bool \<Rightarrow> string \<Rightarrow> 'k nls \<Rightarrow> (nl_error, 32 word) result \<times> 'k nls" where
  "linkIndex kern big name s =
     (case dumpLinks kern big s of
        (Inl e, s') \<Rightarrow> (Inl e, s')
      | (Inr ls, s') \<Rightarrow>
          (case find (\<lambda>li. li_name li = name) ls of
             Some li \<Rightarrow> Inr (li_index li) | None \<Rightarrow> Inl NlNoDevice, s'))"

definition linkDel :: "'k kernel \<Rightarrow> bool \<Rightarrow> 32 word \<Rightarrow> 'k nls \<Rightarrow> nl_error option \<times> 'k nls" where
  "linkDel kern big idx = nl_ack kern big (\<lambda>seq. link_del_request big seq idx)"

definition linkSetUp :: "'k kernel \<Rightarrow> bool \<Rightarrow> 32 word \<Rightarrow> 'k nls \<Rightarrow> nl_error option \<times> 'k nls" where
  "linkSetUp kern big idx = nl_ack kern big (\<lambda>seq. link_up_request big seq idx)"

definition addrAdd :: "'k kernel \<Rightarrow> bool \<Rightarrow> 32 word \<Rightarrow> addr \<Rightarrow> nat \<Rightarrow> byte \<Rightarrow> 'k nls \<Rightarrow> nl_error option \<times> 'k nls" where
  "addrAdd kern big idx a plen scope = nl_ack kern big (\<lambda>seq. addr_add_request big seq idx a plen scope)"

definition routeAdd :: "'k kernel \<Rightarrow> bool \<Rightarrow> 32 word \<Rightarrow> addr \<Rightarrow> nat \<Rightarrow> 'k nls \<Rightarrow> nl_error option \<times> 'k nls" where
  "routeAdd kern big idx dst plen = nl_ack kern big (\<lambda>seq. route_add_request big seq idx dst plen)"

definition createGRE :: "'k kernel \<Rightarrow> bool \<Rightarrow> gre_params \<Rightarrow> 'k nls \<Rightarrow> nl_error option \<times> 'k nls" where
  "createGRE kern big p = nl_ack kern big (\<lambda>seq. create_request big seq p)"

definition setAddrGenModeNone :: "'k kernel \<Rightarrow> bool \<Rightarrow> 32 word \<Rightarrow> 'k nls \<Rightarrow> nl_error option \<times> 'k nls" where
  "setAddrGenModeNone kern big idx = nl_ack kern big (\<lambda>seq. gen_mode_request big seq idx)"

section \<open>MTU lookups\<close>

text \<open>The first attribute of a type with at least four bytes, as a number.\<close>

definition u32_attr :: "bool \<Rightarrow> 16 word \<Rightarrow> (16 word \<times> bytes) list \<Rightarrow> 32 word option" where
  "u32_attr big t as = map_option (\<lambda>a. native_get big (take 4 (snd a))) (find (\<lambda>a. fst a = t \<and> 4 \<le> length (snd a)) as)"

fun link_mtu_of :: "bool \<Rightarrow> 32 word \<Rightarrow> bytes list \<Rightarrow> (nl_error, int) result" where
  "link_mtu_of big idx [] = Inl NlNotFound"
| "link_mtu_of big idx (p # ps) =
     (if length p < 16 \<or> native_get big (take 4 (drop 4 p)) \<noteq> idx then link_mtu_of big idx ps
      else case parseAttrs big (drop 16 p) of
        None \<Rightarrow> Inl NlPanic
      | Some as \<Rightarrow> (case u32_attr big IFLA_MTU as of Some m \<Rightarrow> Inr (uint m) | None \<Rightarrow> link_mtu_of big idx ps))"

definition linkMTUByIndex :: "'k kernel \<Rightarrow> bool \<Rightarrow> 32 word \<Rightarrow> 'k nls \<Rightarrow> (nl_error, int) result \<times> 'k nls" where
  "linkMTUByIndex kern big idx s =
     (case nl_call kern big (dump_links_request big) True s of
        (Inl e, s') \<Rightarrow> (Inl e, s')
      | (Inr msgs, s') \<Rightarrow> (link_mtu_of big idx msgs, s'))"

definition owns_attr :: "addr \<Rightarrow> 16 word \<times> bytes \<Rightarrow> bool" where
  "owns_attr outer a \<longleftrightarrow> (fst a = 1 \<or> fst a = 2) \<and> map_option unmap (addr_from_slice (snd a)) = Some outer"

fun owner_of :: "bool \<Rightarrow> addr \<Rightarrow> bytes list \<Rightarrow> (nl_error, 32 word) result" where
  "owner_of big outer [] = Inl NlNotFound"
| "owner_of big outer (p # ps) =
     (if length p < 8 then owner_of big outer ps
      else case parseAttrs big (drop 8 p) of
        None \<Rightarrow> Inl NlPanic
      | Some as \<Rightarrow> if list_ex (owns_attr outer) as then Inr (native_get big (take 4 (drop 4 p))) else owner_of big outer ps)"

definition addrOwner :: "'k kernel \<Rightarrow> bool \<Rightarrow> addr \<Rightarrow> 'k nls \<Rightarrow> (nl_error, 32 word) result \<times> 'k nls" where
  "addrOwner kern big outer s =
     (case nl_call kern big (\<lambda>seq. addr_dump_request big seq outer) True s of
        (Inl e, s') \<Rightarrow> (Inl e, s')
      | (Inr msgs, s') \<Rightarrow> (owner_of big outer msgs, s'))"

definition linkMTUByAddr :: "'k kernel \<Rightarrow> bool \<Rightarrow> addr \<Rightarrow> 'k nls \<Rightarrow> (nl_error, int) result \<times> 'k nls" where
  "linkMTUByAddr kern big outer s =
     (case addrOwner kern big outer s of
        (Inl e, s') \<Rightarrow> (Inl e, s')
      | (Inr idx, s') \<Rightarrow> linkMTUByIndex kern big idx s')"

text \<open>The last output interface and the last route MTU among the attributes of a route.\<close>

definition route_attr :: "bool \<Rightarrow> (32 word \<times> int) option \<Rightarrow> 16 word \<times> bytes \<Rightarrow> (32 word \<times> int) option" where
  "route_attr big acc a =
     (case acc of
        None \<Rightarrow> None
      | Some (oif, mtu) \<Rightarrow>
          if fst a = 4 then Some (if 4 \<le> length (snd a) then native_get big (take 4 (snd a)) else oif, mtu)
          else if fst a = 8
          then map_option (\<lambda>ms. (oif, foldl (\<lambda>m (t, d). if t = 2 \<and> 4 \<le> length d
                 then uint (native_get big (take 4 d) :: 32 word) else m) mtu ms)) (parseAttrs big (snd a))
          else Some (oif, mtu))"

datatype route_mtu = RouteMTU int | RouteLink "32 word"

fun route_of :: "bool \<Rightarrow> bytes list \<Rightarrow> (nl_error, route_mtu) result" where
  "route_of big [] = Inl NlNotFound"
| "route_of big (p # ps) =
     (if length p < 12 then route_of big ps
      else case (case parseAttrs big (drop 12 p) of None \<Rightarrow> None | Some as \<Rightarrow> foldl (route_attr big) (Some (0, 0)) as) of
        None \<Rightarrow> Inl NlPanic
      | Some (oif, mtu) \<Rightarrow>
          if 0 < mtu then Inr (RouteMTU mtu) else if oif \<noteq> 0 then Inr (RouteLink oif) else route_of big ps)"

definition pathMTU :: "'k kernel \<Rightarrow> bool \<Rightarrow> addr \<Rightarrow> addr \<Rightarrow> 'k nls \<Rightarrow> (nl_error, int) result \<times> 'k nls" where
  "pathMTU kern big l r s =
     (if \<not> is_valid l \<or> \<not> is_valid r \<or> is6 l \<noteq> is6 r then (Inl NlInvalid, s)
      else case nl_call kern big (\<lambda>seq. route_get_request big seq l r) False s of
        (Inl e, s') \<Rightarrow> (Inl e, s')
      | (Inr msgs, s') \<Rightarrow>
          (case route_of big msgs of
             Inl e \<Rightarrow> (Inl e, s')
           | Inr (RouteMTU m) \<Rightarrow> (Inr m, s')
           | Inr (RouteLink idx) \<Rightarrow> linkMTUByIndex kern big idx s'))"

definition OuterMTU_of :: "'k kernel \<Rightarrow> bool \<Rightarrow> addr \<Rightarrow> 'k nls \<Rightarrow> (nl_error, int) result \<times> 'k nls" where
  "OuterMTU_of = linkMTUByAddr"

definition OuterMTUForPath :: "'k kernel \<Rightarrow> bool \<Rightarrow> addr \<Rightarrow> addr \<Rightarrow> 'k nls \<Rightarrow> (nl_error, int) result \<times> 'k nls" where
  "OuterMTUForPath = pathMTU"

section \<open>Foo-over-UDP\<close>

text \<open>\<^verbatim>\<open>fou_linux.go\<close>: the generic netlink family of the module and its receive port.\<close>

definition family_request :: "bool \<Rightarrow> 32 word \<Rightarrow> string \<Rightarrow> bytes" where
  "family_request big seq name = finalize big (attr 2 (nameAttr name) (newNlmsg big seq 16 NLM_F_REQUEST @ [3, 1, 0, 0]))"

fun family_of :: "bool \<Rightarrow> bytes list \<Rightarrow> (nl_error, 16 word) result" where
  "family_of big [] = Inl NlNoFamily"
| "family_of big (p # ps) =
     (if length p < 4 then family_of big ps
      else case parseAttrs big (drop 4 p) of
        None \<Rightarrow> Inl NlPanic
      | Some as \<Rightarrow> (case find (\<lambda>a. fst a = 1 \<and> 2 \<le> length (snd a)) as of
             Some a \<Rightarrow> Inr (native_get big (take 2 (snd a)))
           | None \<Rightarrow> family_of big ps))"

definition genlFamilyID :: "'k kernel \<Rightarrow> bool \<Rightarrow> string \<Rightarrow> 'k nls \<Rightarrow> (nl_error, 16 word) result \<times> 'k nls" where
  "genlFamilyID kern big name s =
     (case nlExecProto kern big 16 (family_request big (fst s + 1) name) False (snd s) of
        (Inl e, k') \<Rightarrow> (Inl e, (fst s + 1, k'))
      | (Inr msgs, k') \<Rightarrow> (family_of big msgs, (fst s + 1, k')))"

definition fou_add_request :: "bool \<Rightarrow> 32 word \<Rightarrow> 16 word \<Rightarrow> 16 word \<Rightarrow> bytes" where
  "fou_add_request big seq family port =
     finalize big (attr 4 [1] (attr 3 [47] (attr 2 [10] (attr 1 (beU16 port)
       (newNlmsg big seq family (NLM_F_REQUEST OR NLM_F_ACK) @ [1, 1, 0, 0])))))"

definition errIsExist :: "nl_error \<Rightarrow> bool" where
  "errIsExist e \<longleftrightarrow> e = NlErrno 17 \<or> e = NlErrno 16 \<or> e = NlErrno 98"

definition EnsureFOUReceive :: "'k kernel \<Rightarrow> bool \<Rightarrow> 16 word \<Rightarrow> 'k nls \<Rightarrow> nl_error option \<times> 'k nls" where
  "EnsureFOUReceive kern big port s =
     (case genlFamilyID kern big ''fou'' s of
        (Inl e, s') \<Rightarrow> (Some e, s')
      | (Inr family, s') \<Rightarrow>
          (case nlExecProto kern big 16 (fou_add_request big (fst s' + 1) family port) False (snd s') of
             (Inl e, k') \<Rightarrow> (if errIsExist e then None else Some e, (fst s' + 1, k'))
           | (Inr _, k') \<Rightarrow> (None, (fst s' + 1, k'))))"

section \<open>Properties\<close>

lemma parseAttrs_concat:
  assumes "list_all (\<lambda>(t, d). 4 + length d < 65536) as"
  shows "parseAttrs False (concat (map (\<lambda>(t, d). attr_bytes t d) as)) = Some as"
  using assms by (induction as) (auto simp: parseAttrs_attr)

text \<open>The attributes of the tunnel's data, in the order they are sent.\<close>

definition gre_attrs :: "gre_params \<Rightarrow> (16 word \<times> bytes) list" where
  "gre_attrs p =
     (if gp_key p \<noteq> 0 then [(4, beU32 (gp_key p)), (5, beU32 (gp_key p))] else []) @
     (if gre_flags p \<noteq> 0 then [(2, beU16 (gre_flags p)), (3, beU16 (gre_flags p))] else []) @
     [(6, as_slice (gp_local p)), (7, as_slice (gp_remote p)), (8, [gre_hop_limit p])] @
     (if is6 (gp_local p) then [(13, nativeU32 False 1)] else []) @
     (if gp_fou_dport p \<noteq> 0
      then [(14, nativeU16 False 1), (15, nativeU16 False (if is6 (gp_local p) then 2 else 1)),
            (16, beU16 (gp_fou_sport p)), (17, beU16 (gp_fou_dport p))] else [])"

definition attrs_bytes :: "(16 word \<times> bytes) list \<Rightarrow> bytes" where
  "attrs_bytes as = concat (map (\<lambda>(t, d). attr_bytes t d) as)"

lemma attrs_bytes_simps [simp]:
  "attrs_bytes [] = []" "attrs_bytes ((t, d) # as) = attr_bytes t d @ attrs_bytes as"
  "attrs_bytes (as @ bs) = attrs_bytes as @ attrs_bytes bs"
  by (simp_all add: attrs_bytes_def)

lemma length_attrs_mod: "length (attrs_bytes as) mod 4 = 0"
  by (induction as) (auto simp: length_attr_bytes align4_props(3) mod_add_eq [symmetric])

lemma gre_data_attrs: "gre_data False p m = m @ attrs_bytes (gre_attrs p)"
  by (simp add: gre_data_def gre_attrs_def attr_append Let_def)

lemma length_as_slice: "length (as_slice a) \<le> 16"
  by (cases a) simp_all

lemma gre_attrs_small: "list_all (\<lambda>(t, d). length d \<le> 16) (gre_attrs p)" "length (gre_attrs p) \<le> 12"
  using length_as_slice [of "gp_local p"] length_as_slice [of "gp_remote p"]
  by (auto simp: gre_attrs_def beU16_def beU32_def nativeU16_def nativeU32_def)

lemma attrs_small_length: "list_all (\<lambda>(t, d). length d \<le> n) as \<Longrightarrow> length (attrs_bytes as) \<le> length as * (n + 8)"
proof (induction as)
  case (Cons x as)
  obtain t d where x: "x = (t, d)" by (cases x)
  have "length (attr_bytes t d) \<le> n + 8"
    using Cons.prems x align4_props(2) [of "4 + length d"] by (simp add: length_attr_bytes)
  then show ?case using Cons x by simp
qed simp

lemma gre_data_small: "length (attrs_bytes (gre_attrs p)) \<le> 288"
  using attrs_small_length [OF gre_attrs_small(1) [of p]] gre_attrs_small(2) [of p] by simp

definition info_attrs :: "gre_params \<Rightarrow> (16 word \<times> bytes) list" where
  "info_attrs p = [(IFLA_INFO_KIND, nameAttr (gre_kind p)), (IFLA_INFO_DATA, attrs_bytes (gre_attrs p))]"

definition create_attrs :: "gre_params \<Rightarrow> (16 word \<times> bytes) list" where
  "create_attrs p = [(IFLA_IFNAME, nameAttr (gp_name p)), (IFLA_MTU, native_put False 4 (of_int (gp_mtu p) :: 32 word)),
     (IFLA_LINKINFO, attrs_bytes (info_attrs p))]"

lemma info_small: "length (attrs_bytes (info_attrs p)) \<le> 320"
proof -
  have "length (nameAttr (gre_kind p)) \<le> 7" by (simp add: nameAttr_def gre_kind_def)
  then have "length (attr_bytes IFLA_INFO_KIND (nameAttr (gre_kind p))) \<le> 15"
    using align4_props(2) [of "4 + length (nameAttr (gre_kind p))"] by (simp add: length_attr_bytes)
  moreover have "length (attr_bytes IFLA_INFO_DATA (attrs_bytes (gre_attrs p))) \<le> 296"
    using gre_data_small [of p] align4_props(2) [of "4 + length (attrs_bytes (gre_attrs p))"] by (simp add: length_attr_bytes)
  ultimately show ?thesis by (simp add: info_attrs_def)
qed

lemma length_newNlmsg [simp]: "length (newNlmsg big seq typ flags) = 16"
  by (simp add: newNlmsg_def put_at_def)

lemma create_request_bytes:
  "create_request False seq p = finalize False
     (newNlmsg False seq RTM_NEWLINK (NLM_F_REQUEST OR NLM_F_ACK OR NLM_F_CREATE OR NLM_F_EXCL) @ replicate 16 0 @
      attrs_bytes (create_attrs p))"
proof -
  let ?d = "attrs_bytes (gre_attrs p)" and ?i = "attrs_bytes (info_attrs p)"
  let ?k = "attr_bytes IFLA_INFO_KIND (nameAttr (gre_kind p))"
  have d: "endNested False (length m) (snd (beginNested IFLA_INFO_DATA m) @ ?d) = m @ attr_bytes IFLA_INFO_DATA ?d" for m
    using gre_data_small [of p] by (intro nested_attr length_attrs_mod) simp
  have i: "endNested False (length m) (snd (beginNested IFLA_LINKINFO m) @ ?i) = m @ attr_bytes IFLA_LINKINFO ?i" for m
    using info_small [of p] by (intro nested_attr length_attrs_mod) simp
  have fst: "fst (beginNested t m) = length m" for t m by (simp add: beginNested_def)
  have j: "(m @ ?k) @ attr_bytes IFLA_INFO_DATA ?d = m @ ?i" for m by (simp add: info_attrs_def)
  show ?thesis
    unfolding create_request_def Let_def gre_data_attrs case_prod_unfold fst d attr_append j i
    by (simp add: create_attrs_def)
qed


text \<open>
  On a big-endian host the attributes of the requests do not parse: their length and type
  are written low byte first while the reader takes them in host order, so the first attribute
  of every request with attributes has a wrong length there.
\<close>

theorem big_endian_attr:
  "parseAttrs True (attr_bytes IFLA_MTU (native_put True 4 (1400 :: 32 word))) \<noteq>
     Some [(IFLA_MTU, native_put True 4 (1400 :: 32 word))]"
  by code_simp

text \<open>
  C33. An acknowledged request succeeds exactly when the kernel's error code is zero: from a
  reply that is one well-formed error message the code is taken as a signed number, zero is
  success and any other value is reported negated, as an error number.
\<close>

definition ack_reply :: "32 word \<Rightarrow> 32 word \<Rightarrow> bytes \<Rightarrow> bytes" where
  "ack_reply errno seq rest = finalize False (newNlmsg False seq 2 0 @ native_put False 4 errno @ rest)"

theorem ack_semantics:
  assumes "kern 0 (req (fst s + 1)) (snd s) = (Inr (ack_reply errno seq rest # ds, err), k')"
    and "length rest < 1000"
  shows "nl_ack kern False req s = (if errno = 0 then None else Some (NlErrno (- sint errno)), (fst s + 1, k'))"
proof -
  let ?m = "newNlmsg False seq 2 0 @ native_put False 4 errno @ rest" and ?r = "ack_reply errno seq rest"
  have len: "length ?r = 20 + length rest" by (simp add: ack_reply_def finalize_def put_at_def)
  have "unat (of_nat (20 + length rest) :: 32 word) = 20 + length rest"
    using assms(2) by (simp only: unsigned_of_nat) (simp add: take_bit_nat_eq_self)
  then have l: "unat (native_get False (take 4 ?r) :: 32 word) = 20 + length rest"
    by (simp add: ack_reply_def finalize_def put_at_def native_get_put del: of_nat_add)
  have t: "native_get False (take 2 (drop 4 ?r)) = (2 :: 16 word)"
    by (simp add: ack_reply_def finalize_def put_at_def newNlmsg_def native_get_put)
  have e: "native_get False (take 4 (take (length ?r - 16) (drop 16 ?r))) = errno"
    by (simp add: ack_reply_def finalize_def put_at_def native_get_put)
  have "sint errno = 0 \<longleftrightarrow> errno = 0" by (metis signed_0 signed_word_eqI)
  then have "nl_scan False ?r [] = Inl (if errno = 0 then Inr [] else Inl (NlErrno (- sint errno)))"
    using len l t e by (simp add: nl_scan.simps [of False ?r] Let_def)
  then show ?thesis
    using assms(1) by (simp add: nl_ack_def nl_call_def nlExec_def nlExecProto_def)
qed

section \<open>Witnesses\<close>

definition demo_gre :: gre_params where
  "demo_gre = \<lparr>gp_name = ''grem7'', gp_local = V4 0xc0000201, gp_remote = V4 0xcb007105, gp_key = 7, gp_seq = False,
     gp_mtu = 1400, gp_hoplimit = 0, gp_inner_local = V4 0x0a000001, gp_inner_peer = V4 0x0a000002,
     gp_linklocal = ServerLinkLocal, gp_fou_sport = 0, gp_fou_dport = 0\<rparr>"


theorem ack_semantics_witness:
  "nl_ack (\<lambda>_ _ k. (Inr ([ack_reply (- 17) 1 []], ''eof''), k)) False (\<lambda>seq. link_del_request False seq 3) (0 :: 32 word, ())
     = (Some (NlErrno 17), (1, ()))"
proof -
  have "sint (- 17 :: 32 word) = - 17" by simp
  then show ?thesis
    using ack_semantics [of "\<lambda>_ _ k. (Inr ([ack_reply (- 17) 1 []], ''eof''), k)" "\<lambda>seq. link_del_request False seq 3" "(0, ())" "- 17" 1 "[]" "[]" "''eof''" "()"]
    by simp
qed

end
