(* ===== verification/Tunnel.thy ===== *)
theory Tunnel
  imports Netlink Names
begin

text \<open>
  Package \<^verbatim>\<open>internal/gre\<close>, \<^verbatim>\<open>link_linux.go\<close>: creating, configuring and removing tunnel
  interfaces. The operations on links are collected in a record so that \<open>netlink_ops\<close> gives
  the ones of theory \<^verbatim>\<open>Netlink\<close>, and what the kernel does with them can be stated over them.
\<close>

section \<open>The operations on links\<close>

record 's link_ops =
  op_dump :: "'s \<Rightarrow> (nl_error, link_info list) result \<times> 's"
  op_del :: "32 word \<Rightarrow> 's \<Rightarrow> nl_error option \<times> 's"
  op_create :: "gre_params \<Rightarrow> 's \<Rightarrow> nl_error option \<times> 's"
  op_genmode :: "32 word \<Rightarrow> 's \<Rightarrow> nl_error option \<times> 's"
  op_addr :: "32 word \<Rightarrow> addr \<Rightarrow> nat \<Rightarrow> byte \<Rightarrow> 's \<Rightarrow> nl_error option \<times> 's"
  op_up :: "32 word \<Rightarrow> 's \<Rightarrow> nl_error option \<times> 's"
  op_route :: "32 word \<Rightarrow> addr \<Rightarrow> nat \<Rightarrow> 's \<Rightarrow> nl_error option \<times> 's"

definition netlink_ops :: "'k kernel \<Rightarrow> bool \<Rightarrow> 'k nls link_ops" where
  "netlink_ops kern big =
     \<lparr>op_dump = dumpLinks kern big, op_del = linkDel kern big, op_create = createGRE kern big,
      op_genmode = setAddrGenModeNone kern big, op_addr = addrAdd kern big, op_up = linkSetUp kern big,
      op_route = routeAdd kern big\<rparr>"

definition op_index :: "'s link_ops \<Rightarrow> string \<Rightarrow> 's \<Rightarrow> (nl_error, 32 word) result \<times> 's" where
  "op_index ops name s =
     (case op_dump ops s of
        (Inl e, s') \<Rightarrow> (Inl e, s')
      | (Inr ls, s') \<Rightarrow>
          (case find (\<lambda>li. li_name li = name) ls of
             Some li \<Rightarrow> Inr (li_index li) | None \<Rightarrow> Inl NlNoDevice, s'))"

lemma op_index_netlink: "op_index (netlink_ops kern big) = linkIndex kern big"
  by (simp add: fun_eq_iff op_index_def linkIndex_def netlink_ops_def)

section \<open>Ensure and Remove\<close>

datatype ensure_error =
    FamiliesDiffer
  | CreateFailed nl_error
  | LocateFailed nl_error
  | StepFailed nl_error
  | Panicked

text \<open>A leftover interface is removed; a failure to do so is ignored (a panic is not).\<close>

definition clean_leftover :: "'s link_ops \<Rightarrow> string \<Rightarrow> 's \<Rightarrow> bool \<times> 's" where
  "clean_leftover ops name s =
     (case op_index ops name s of
        (Inl e, s') \<Rightarrow> (e = NlPanic, s')
      | (Inr idx, s') \<Rightarrow> (case op_del ops idx s' of (r, s'') \<Rightarrow> (r = Some NlPanic, s'')))"

text \<open>The steps that configure a new link, in order; the first failure removes the link.\<close>

definition config_steps :: "'s link_ops \<Rightarrow> gre_params \<Rightarrow> 32 word \<Rightarrow> ('s \<Rightarrow> nl_error option \<times> 's) list" where
  "config_steps ops p idx =
     (if is_valid (gp_linklocal p)
      then [op_genmode ops idx, op_addr ops idx (gp_linklocal p) 64 253] else []) @
     [op_addr ops idx (gp_inner_local p) (hostBits (gp_inner_local p)) 0, op_up ops idx] @
     (if is_valid (gp_inner_peer p)
      then [op_route ops idx (gp_inner_peer p) (hostBits (gp_inner_peer p))] else [])"

fun run_steps :: "'s link_ops \<Rightarrow> 32 word \<Rightarrow> ('s \<Rightarrow> nl_error option \<times> 's) list \<Rightarrow> 's \<Rightarrow> ensure_error option \<times> 's" where
  "run_steps ops idx [] s = (None, s)"
| "run_steps ops idx (st # sts) s =
     (case st s of
        (None, s') \<Rightarrow> run_steps ops idx sts s'
      | (Some e, s') \<Rightarrow> if e = NlPanic then (Some Panicked, s') else (Some (StepFailed e), snd (op_del ops idx s')))"

definition Ensure_link :: "'s link_ops \<Rightarrow> gre_params \<Rightarrow> 's \<Rightarrow> ensure_error option \<times> 's" where
  "Ensure_link ops p s =
     (if is6 (gp_local p) \<noteq> is6 (gp_remote p) then (Some FamiliesDiffer, s)
      else case clean_leftover ops (gp_name p) s of
        (True, s1) \<Rightarrow> (Some Panicked, s1)
      | (False, s1) \<Rightarrow>
          (case op_create ops p s1 of
             (Some e, s2) \<Rightarrow> (Some (CreateFailed e), s2)
           | (None, s2) \<Rightarrow>
               (case op_index ops (gp_name p) s2 of
                  (Inl e, s3) \<Rightarrow> (Some (LocateFailed e), s3)
                | (Inr idx, s3) \<Rightarrow> run_steps ops idx (config_steps ops p idx) s3)))"

definition Remove_link :: "'s link_ops \<Rightarrow> string \<Rightarrow> 's \<Rightarrow> nl_error option \<times> 's" where
  "Remove_link ops name s =
     (case op_index ops name s of
        (Inl e, s') \<Rightarrow> (if e = NlPanic then Some e else None, s')
      | (Inr idx, s') \<Rightarrow> op_del ops idx s')"

text \<open>The sweeps at the start of the broker: the names removed, and the error that ended them.\<close>

fun remove_links :: "'s link_ops \<Rightarrow> link_info list \<Rightarrow> 's \<Rightarrow> string list \<times> nl_error option \<times> 's" where
  "remove_links ops [] s = ([], None, s)"
| "remove_links ops (li # ls) s =
     (case op_del ops (li_index li) s of
        (Some e, s') \<Rightarrow> ([], Some e, s')
      | (None, s') \<Rightarrow> (case remove_links ops ls s' of (names, r, s'') \<Rightarrow> (li_name li # names, r, s'')))"

definition RemovePrefix :: "'s link_ops \<Rightarrow> string \<Rightarrow> 's \<Rightarrow> string list \<times> nl_error option \<times> 's" where
  "RemovePrefix ops prefix s =
     (case op_dump ops s of
        (Inl e, s') \<Rightarrow> ([], Some e, s')
      | (Inr ls, s') \<Rightarrow> remove_links ops (filter (\<lambda>li. has_prefix (li_name li) prefix) ls) s')"

definition isGREKind :: "string \<Rightarrow> bool" where
  "isGREKind kind \<longleftrightarrow> kind = ''gre'' \<or> kind = ''ip6gre''"

definition RemoveNamedGRE :: "'s link_ops \<Rightarrow> string list \<Rightarrow> 's \<Rightarrow> string list \<times> nl_error option \<times> 's" where
  "RemoveNamedGRE ops names s =
     (if names = [] then ([], None, s)
      else case op_dump ops s of
        (Inl e, s') \<Rightarrow> ([], Some e, s')
      | (Inr ls, s') \<Rightarrow> remove_links ops (filter (\<lambda>li. li_name li \<in> set names \<and> isGREKind (li_kind li)) ls) s')"

section \<open>What the kernel promises\<close>

text \<open>
  The documented behaviour of the link operations, over the list of links the kernel has:
  a dump returns the links and changes nothing; a deletion by index removes that link, and is
  refused when there is none; a creation adds one link with the wanted name, the kind of the
  tunnel and a new index, or changes nothing; configuring a link does not change the list.
  Names and indices of links are distinct.
\<close>

definition links_wf :: "link_info list \<Rightarrow> bool" where
  "links_wf ls \<longleftrightarrow> distinct (map li_name ls) \<and> distinct (map li_index ls)"

definition keeps_links :: "('s \<Rightarrow> link_info list) \<Rightarrow> ('s \<Rightarrow> nl_error option \<times> 's) \<Rightarrow> bool" where
  "keeps_links view f \<longleftrightarrow> (\<forall>s. view (snd (f s)) = view s \<and> fst (f s) \<noteq> Some NlPanic)"

definition kernel_ok :: "'s link_ops \<Rightarrow> ('s \<Rightarrow> link_info list) \<Rightarrow> bool" where
  "kernel_ok ops view \<longleftrightarrow>
     (\<forall>s. links_wf (view s)) \<and>
     (\<forall>s. \<exists>s'. op_dump ops s = (Inr (view s), s') \<and> view s' = view s) \<and>
     (\<forall>idx s. \<exists>r s'. op_del ops idx s = (r, s') \<and> r \<noteq> Some NlPanic \<and>
        (r = None \<longleftrightarrow> idx \<in> li_index ` set (view s)) \<and> view s' = filter (\<lambda>li. li_index li \<noteq> idx) (view s)) \<and>
     (\<forall>p s. (\<exists>e s'. op_create ops p s = (Some e, s') \<and> view s' = view s) \<or>
        (\<exists>i s'. op_create ops p s = (None, s') \<and>
           view s' = view s @ [\<lparr>li_index = i, li_name = gp_name p, li_kind = gre_kind p\<rparr>])) \<and>
     (\<forall>idx. keeps_links view (op_genmode ops idx) \<and> keeps_links view (op_up ops idx)) \<and>
     (\<forall>idx a n sc. keeps_links view (op_addr ops idx a n sc)) \<and> (\<forall>idx a n. keeps_links view (op_route ops idx a n))"

lemma kernel_okD:
  assumes "kernel_ok ops view"
  shows "links_wf (view s)" "\<exists>s'. op_dump ops s = (Inr (view s), s') \<and> view s' = view s"
    "\<exists>r s'. op_del ops idx s = (r, s') \<and> r \<noteq> Some NlPanic \<and>
       (r = None \<longleftrightarrow> idx \<in> li_index ` set (view s)) \<and> view s' = filter (\<lambda>li. li_index li \<noteq> idx) (view s)"
    "\<forall>st \<in> set (config_steps ops p idx). keeps_links view st"
    "(\<exists>e s'. op_create ops p s = (Some e, s') \<and> view s' = view s) \<or>
     (\<exists>i s'. op_create ops p s = (None, s') \<and>
        view s' = view s @ [\<lparr>li_index = i, li_name = gp_name p, li_kind = gre_kind p\<rparr>])"
proof -
  note laws = assms [unfolded kernel_ok_def]
  show "links_wf (view s)" "\<exists>s'. op_dump ops s = (Inr (view s), s') \<and> view s' = view s"
    "\<exists>r s'. op_del ops idx s = (r, s') \<and> r \<noteq> Some NlPanic \<and>
       (r = None \<longleftrightarrow> idx \<in> li_index ` set (view s)) \<and> view s' = filter (\<lambda>li. li_index li \<noteq> idx) (view s)"
    "(\<exists>e s'. op_create ops p s = (Some e, s') \<and> view s' = view s) \<or>
     (\<exists>i s'. op_create ops p s = (None, s') \<and>
        view s' = view s @ [\<lparr>li_index = i, li_name = gp_name p, li_kind = gre_kind p\<rparr>])"
    using laws by blast+
  show "\<forall>st \<in> set (config_steps ops p idx). keeps_links view st"
    using laws by (auto simp: config_steps_def)
qed

definition named :: "string \<Rightarrow> link_info list \<Rightarrow> link_info option" where
  "named n ls = find (\<lambda>li. li_name li = n) ls"

lemma op_index_ok:
  assumes "kernel_ok ops view"
  shows "\<exists>s'. op_index ops n s = (case named n (view s) of Some li \<Rightarrow> Inr (li_index li) | None \<Rightarrow> Inl NlNoDevice, s') \<and>
    view s' = view s"
proof -
  obtain s' where s': "op_dump ops s = (Inr (view s), s')" "view s' = view s" using kernel_okD(2) [OF assms] by blast
  then show ?thesis by (auto simp: op_index_def named_def split: option.splits)
qed

text \<open>With distinct names and indices, removing the index of a name removes the name.\<close>

lemma remove_named:
  assumes "links_wf ls" "named n ls = Some li"
  shows "filter (\<lambda>x. li_index x \<noteq> li_index li) ls = filter (\<lambda>x. li_name x \<noteq> n) ls"
proof -
  have li: "li \<in> set ls" "li_name li = n" using assms(2) by (auto simp: named_def find_Some_iff)
  have "li_index x = li_index li \<longleftrightarrow> li_name x = n" if "x \<in> set ls" for x
    using assms(1) li that by (auto simp: links_wf_def distinct_map dest: inj_onD)
  then show ?thesis by (intro filter_cong) auto
qed

lemma named_None: "named n ls = None \<Longrightarrow> filter (\<lambda>x. li_name x \<noteq> n) ls = ls"
  by (auto simp: named_def find_None_iff intro!: filter_True)

lemma clean_leftover_ok:
  assumes "kernel_ok ops view"
  shows "\<exists>s'. clean_leftover ops n s = (False, s') \<and> view s' = filter (\<lambda>li. li_name li \<noteq> n) (view s)"
proof -
  obtain s1 where s1: "op_index ops n s = (case named n (view s) of Some li \<Rightarrow> Inr (li_index li) | None \<Rightarrow> Inl NlNoDevice, s1)"
    "view s1 = view s" using op_index_ok [OF assms] by blast
  show ?thesis
  proof (cases "named n (view s)")
    case None
    then show ?thesis using s1 named_None [OF None] by (auto simp: clean_leftover_def)
  next
    case (Some li)
    obtain r s2 where "op_del ops (li_index li) s1 = (r, s2)" "r \<noteq> Some NlPanic"
      "view s2 = filter (\<lambda>x. li_index x \<noteq> li_index li) (view s1)" using kernel_okD(3) [OF assms] by blast
    then show ?thesis
      using s1 Some remove_named [OF kernel_okD(1) [OF assms] Some] by (auto simp: clean_leftover_def)
  qed
qed

lemma run_steps_ok:
  assumes "kernel_ok ops view" "\<forall>st \<in> set sts. keeps_links view st"
  shows "case run_steps ops idx sts s of
      (None, s') \<Rightarrow> view s' = view s
    | (Some e, s') \<Rightarrow> e \<noteq> FamiliesDiffer \<and> view s' = filter (\<lambda>li. li_index li \<noteq> idx) (view s)"
  using assms(2)
proof (induction sts arbitrary: s)
  case (Cons st sts)
  obtain r s' where st: "st s = (r, s')" by (cases "st s")
  with Cons.prems have k: "view s' = view s" "r \<noteq> Some NlPanic" by (auto simp: keeps_links_def dest: spec [of _ s])
  show ?case
  proof (cases r)
    case None
    then show ?thesis using st k Cons.IH [of s'] Cons.prems by (auto split: prod.splits option.splits)
  next
    case (Some e)
    obtain d s2 where "op_del ops idx s' = (d, s2)" "view s2 = filter (\<lambda>li. li_index li \<noteq> idx) (view s')"
      using kernel_okD(3) [OF assms(1)] by blast
    then show ?thesis using st k Some by auto
  qed
qed simp

text \<open>A link just appended is found under its name, and its index is its own.\<close>

lemma appended_link:
  assumes "links_wf (ls @ [li])"
  shows "named (li_name li) (ls @ [li]) = Some li"
    "filter (\<lambda>x. li_index x \<noteq> li_index li) (ls @ [li]) = ls"
proof -
  have "\<forall>x \<in> set ls. li_name x \<noteq> li_name li \<and> li_index x \<noteq> li_index li"
    using assms by (simp add: links_wf_def) (metis imageI)
  then show "named (li_name li) (ls @ [li]) = Some li" "filter (\<lambda>x. li_index x \<noteq> li_index li) (ls @ [li]) = ls"
    by (induction ls) (auto simp: named_def)
qed

lemma remove_links_ok:
  assumes "kernel_ok ops view" "set ls \<subseteq> set (view s)" "distinct (map li_index ls)"
  shows "\<exists>s'. remove_links ops ls s = (map li_name ls, None, s') \<and> view s' = filter (\<lambda>x. x \<notin> set ls) (view s)"
  using assms(2,3)
proof (induction ls arbitrary: s)
  case (Cons li ls)
  obtain s1 where s1: "op_del ops (li_index li) s = (None, s1)"
    "view s1 = filter (\<lambda>x. li_index x \<noteq> li_index li) (view s)"
    using kernel_okD(3) [OF assms(1), of "li_index li" s] Cons.prems by auto
  have "set ls \<subseteq> set (view s1)" using Cons.prems s1(2) by (simp add: subset_iff) (metis imageI)
  then obtain s2 where s2: "remove_links ops ls s1 = (map li_name ls, None, s2)"
    "view s2 = filter (\<lambda>x. x \<notin> set ls) (view s1)" using Cons.IH [of s1] Cons.prems(2) by auto
  have "x = li" if "x \<in> set (view s)" "li_index x = li_index li" for x
    using kernel_okD(1) [OF assms(1), of s] Cons.prems(1) that by (auto simp: links_wf_def distinct_map dest: inj_onD)
  then have "filter (\<lambda>x. x \<notin> set ls) (view s1) = filter (\<lambda>x. x \<notin> set (li # ls)) (view s)"
    unfolding s1(2) filter_filter by (intro filter_cong) auto
  then show ?case using s1(1) s2 by simp
qed (simp add: filter_True)

lemma swept_links:
  assumes "kernel_ok ops view"
  shows "\<exists>s'. remove_links ops (filter Q (view s)) s = (map li_name (filter Q (view s)), None, s') \<and>
    view s' = filter (\<lambda>x. \<not> Q x) (view s)"
proof -
  have "distinct (map li_index (filter Q (view s)))"
    using kernel_okD(1) [OF assms, of s] by (simp add: links_wf_def distinct_map_filter)
  from remove_links_ok [OF assms _ this, of s]
  obtain s' where "remove_links ops (filter Q (view s)) s = (map li_name (filter Q (view s)), None, s')"
    "view s' = filter (\<lambda>x. x \<notin> set (filter Q (view s))) (view s)" by auto
  moreover have "filter (\<lambda>x. x \<notin> set (filter Q (view s))) (view s) = filter (\<lambda>x. \<not> Q x) (view s)"
    by (intro filter_cong) auto
  ultimately show ?thesis by simp
qed

section \<open>A kernel that keeps a list of links\<close>

text \<open>A concrete kernel with these laws: its state is the list of links.\<close>

definition list_view :: "link_info list \<Rightarrow> link_info list" where
  "list_view s = (if links_wf s then s else [])"

definition list_ops :: "link_info list link_ops" where
  "list_ops =
     \<lparr>op_dump = (\<lambda>s. (Inr (list_view s), s)),
      op_del = (\<lambda>idx s. (if idx \<in> li_index ` set (list_view s) then None else Some NlNoDevice,
        filter (\<lambda>li. li_index li \<noteq> idx) (list_view s))),
      op_create = (\<lambda>p s. let s' = list_view s @
          [\<lparr>li_index = of_nat (length s) + 1, li_name = gp_name p, li_kind = gre_kind p\<rparr>]
        in if links_wf s' then (None, s') else (Some (NlErrno 17), s)),
      op_genmode = (\<lambda>idx s. (None, s)),
      op_addr = (\<lambda>idx a n sc s. (if is_valid a then None else Some (NlErrno 22), s)),
      op_up = (\<lambda>idx s. (None, s)), op_route = (\<lambda>idx a n s. (None, s))\<rparr>"

lemma links_wf_filter: "links_wf ls \<Longrightarrow> links_wf (filter P ls)"
  by (simp add: links_wf_def distinct_map_filter)

lemma list_ops_ok: "kernel_ok list_ops list_view"
  by (auto simp: kernel_ok_def list_ops_def list_view_def keeps_links_def Let_def links_wf_filter)
    (auto simp: links_wf_def)?

definition demo_tunnel :: gre_params where
  "demo_tunnel = \<lparr>gp_name = ''grem1'', gp_local = V4 0xC0000201, gp_remote = V4 0xC6336407, gp_key = 0,
    gp_seq = False, gp_mtu = 1400, gp_hoplimit = 64, gp_inner_local = V4 0x0A4D0001, gp_inner_peer = V4 0x0A4D0002,
    gp_linklocal = AddrZero, gp_fou_sport = 0, gp_fou_dport = 0\<rparr>"

section \<open>The properties\<close>



lemma sweep_ok:
  assumes "kernel_ok ops view"
  shows "(\<exists>s'. RemovePrefix ops prefix s = (map li_name (filter (\<lambda>li. has_prefix (li_name li) prefix) (view s)), None, s') \<and>
      view s' = filter (\<lambda>li. \<not> has_prefix (li_name li) prefix) (view s)) \<and>
    (\<exists>s'. RemoveNamedGRE ops names s =
        (map li_name (filter (\<lambda>li. li_name li \<in> set names \<and> isGREKind (li_kind li)) (view s)), None, s') \<and>
      view s' = filter (\<lambda>li. \<not> (li_name li \<in> set names \<and> isGREKind (li_kind li))) (view s))"
proof -
  obtain s1 where s1: "op_dump ops s = (Inr (view s), s1)" "view s1 = view s" using kernel_okD(2) [OF assms] by blast
  let ?Q = "\<lambda>li. has_prefix (li_name li) prefix"
  let ?R = "\<lambda>li. li_name li \<in> set names \<and> isGREKind (li_kind li)"
  have "RemovePrefix ops prefix s = remove_links ops (filter ?Q (view s)) s1"
    using s1 by (simp add: RemovePrefix_def)
  moreover have "\<exists>s'. RemoveNamedGRE ops names s = (map li_name (filter ?R (view s)), None, s') \<and>
    view s' = filter (\<lambda>li. \<not> ?R li) (view s)"
  proof (cases "names = []")
    case False
    then have "RemoveNamedGRE ops names s = remove_links ops (filter ?R (view s)) s1"
      using s1 by (simp add: RemoveNamedGRE_def)
    then show ?thesis using swept_links [OF assms, of ?R s1, unfolded s1(2)] by (simp only:)
  qed (simp add: RemoveNamedGRE_def)
  ultimately show ?thesis using swept_links [OF assms, of ?Q s1, unfolded s1(2)] by (simp only: simp_thms)
qed

text \<open>
  The sweeps when the broker starts are exact. \<open>RemovePrefix\<close> removes the links whose
  name has the prefix, all of them and no others; \<open>RemoveNamedGRE\<close> the listed names whose
  link is a GRE tunnel, so a device of another kind that has a pinned name stays. Both report
  the names they removed.
\<close>

theorem sweep_exact:
  assumes "kernel_ok ops view"
  shows "(\<exists>s'. RemovePrefix ops prefix s = (map li_name (filter (\<lambda>li. has_prefix (li_name li) prefix) (view s)), None, s') \<and>
      view s' = filter (\<lambda>li. \<not> has_prefix (li_name li) prefix) (view s)) \<and>
    (\<exists>s'. RemoveNamedGRE ops names s =
        (map li_name (filter (\<lambda>li. li_name li \<in> set names \<and> isGREKind (li_kind li)) (view s)), None, s') \<and>
      view s' = filter (\<lambda>li. \<not> (li_name li \<in> set names \<and> isGREKind (li_kind li))) (view s))"
  by (rule sweep_ok [OF assms])

theorem sweep_exact_witness:
  "RemoveNamedGRE list_ops [''wg0'', ''g1''] [\<lparr>li_index = 1, li_name = ''wg0'', li_kind = ''wireguard''\<rparr>,
      \<lparr>li_index = 2, li_name = ''g1'', li_kind = ''gre''\<rparr>] =
    ([''g1''], None, [\<lparr>li_index = 1, li_name = ''wg0'', li_kind = ''wireguard''\<rparr>]) \<and>
   (\<exists>s'. RemovePrefix list_ops ''grem'' [] = ([], None, s'))"
proof
  show "\<exists>s'. RemovePrefix list_ops ''grem'' [] = ([], None, s')"
    using sweep_exact [OF list_ops_ok, of "''grem''" "[]" "[]"] by (auto simp: list_view_def)
qed code_simp

end
