(* ===== verification/Mssclamp.thy ===== *)
theory Mssclamp
  imports Config "HOL-Library.Sublist"
begin

text \<open>
  Package \<^verbatim>\<open>internal/mssclamp\<close>: the firewall rules that clamp the TCP segment size on a tunnel.
  Rules are installed by running \<^verbatim>\<open>nft\<close>, \<^verbatim>\<open>iptables\<close> and \<^verbatim>\<open>ip6tables\<close>, which are a parameter:
  a command line gives its output, an error or None, and the next state of the system. What
  those tools do is stated by named hypotheses over a view of that state.
\<close>

section \<open>Texts\<close>

fun contains :: "string \<Rightarrow> string \<Rightarrow> bool" where
  "contains [] sub \<longleftrightarrow> sub = []"
| "contains (c # cs) sub \<longleftrightarrow> prefix sub (c # cs) \<or> contains cs sub"

text \<open>\<^verbatim>\<open>strings.Fields\<close> on ASCII text.\<close>

definition is_space :: "char \<Rightarrow> bool" where
  "is_space c \<longleftrightarrow> c = CHR '' '' \<or> (9 \<le> (of_char c :: nat) \<and> of_char c \<le> (13 :: nat))"

function ws_fields :: "string \<Rightarrow> string list" where
  "ws_fields s =
     (let t = dropWhile is_space s in
      if t = [] then []
      else takeWhile (\<lambda>c. \<not> is_space c) t # ws_fields (dropWhile (\<lambda>c. \<not> is_space c) t))"
  by pat_completeness auto
termination
proof (relation "measure length")
  fix s t assume t: "t = dropWhile is_space s" "(t :: string) \<noteq> []"
  then have "\<not> is_space (hd t)" by (metis hd_dropWhile)
  then have "length (dropWhile (\<lambda>c. \<not> is_space c) t) < length t"
    using t(2) by (cases t) (auto simp: le_imp_less_Suc length_dropWhile_le)
  also have "length t \<le> length s" by (simp add: t(1) length_dropWhile_le)
  finally show "(dropWhile (\<lambda>c. \<not> is_space c) t, s) \<in> measure length" by simp
qed simp

text \<open>\<^verbatim>\<open>strconv.Quote\<close> on printable ASCII text, which is what an interface name is.\<close>

definition nftString :: "string \<Rightarrow> string" where
  "nftString s = [CHR 0x22] @ concat (map (\<lambda>c. if c = CHR 0x22 \<or> c = CHR 0x5C then [CHR 0x5C, c] else [c]) s) @ [CHR 0x22]"

section \<open>Rules\<close>

record direction_spec =
  ds_name :: string
  ds_nft :: string
  ds_ipt :: string

definition out_spec :: direction_spec where
  "out_spec = \<lparr>ds_name = ''out'', ds_nft = ''oifname'', ds_ipt = ''-o''\<rparr>"

definition in_spec :: direction_spec where
  "in_spec = \<lparr>ds_name = ''in'', ds_nft = ''iifname'', ds_ipt = ''-i''\<rparr>"

definition ruleSpecs :: "string \<Rightarrow> direction_spec list" where
  "ruleSpecs direction =
     (if direction = '''' \<or> direction = ''out'' then [out_spec]
      else if direction = ''in'' then [in_spec]
      else if direction = ''both'' then [out_spec, in_spec]
      else [])"

record protocol_spec =
  ps_name :: string
  ps_iptables :: string
  ps_nftMatch :: "string list"
  ps_nftPMTU :: "string list"
  ps_mss :: "mss_clamp \<Rightarrow> int \<Rightarrow> int"

text \<open>The segment size of a family: its own value, the common one, or the tunnel's less the headers.\<close>

definition family_mss :: "(mss_clamp \<Rightarrow> int) \<Rightarrow> int \<Rightarrow> mss_clamp \<Rightarrow> int \<Rightarrow> int" where
  "family_mss own headers cfg tunnelMTU =
     (if own cfg > 0 then own cfg
      else if mc_mss cfg > 0 then mc_mss cfg
      else if mc_mode cfg = ''tunnel_mtu'' \<and> tunnelMTU > headers then tunnelMTU - headers
      else 0)"

definition v4_spec :: protocol_spec where
  "v4_spec = \<lparr>ps_name = ''v4'', ps_iptables = ''iptables'', ps_nftMatch = [''ip'', ''protocol'', ''tcp''],
     ps_nftPMTU = [''rt'', ''mtu''], ps_mss = family_mss mc_mss4 40\<rparr>"

definition v6_spec :: protocol_spec where
  "v6_spec = \<lparr>ps_name = ''v6'', ps_iptables = ''ip6tables'', ps_nftMatch = [''ip6'', ''nexthdr'', ''tcp''],
     ps_nftPMTU = [''rt6'', ''mtu''], ps_mss = family_mss mc_mss6 60\<rparr>"

definition protocolSpecs :: "protocol_spec list" where
  "protocolSpecs = [v4_spec, v6_spec]"

definition markerPrefix :: "string \<Rightarrow> string \<Rightarrow> string" where
  "markerPrefix iface direction = ''gremlind:'' @ iface @ '':'' @ direction @ '':''"

definition marker :: "string \<Rightarrow> string \<Rightarrow> string \<Rightarrow> string" where
  "marker iface direction proto = markerPrefix iface direction @ proto"

definition iptablesRule :: "mss_clamp \<Rightarrow> string \<Rightarrow> direction_spec \<Rightarrow> protocol_spec \<Rightarrow> int \<Rightarrow> string list" where
  "iptablesRule cfg iface spec proto tunnelMTU =
     [ds_ipt spec, iface, ''-p'', ''tcp'', ''--tcp-flags'', ''SYN,RST'', ''SYN'', ''-m'', ''comment'', ''--comment'',
      marker iface (ds_name spec) (ps_name proto), ''-j'', ''TCPMSS''] @
     (let mss = ps_mss proto cfg tunnelMTU in
      if mss > 0 then [''--set-mss'', decimal_int mss] else [''--clamp-mss-to-pmtu''])"

definition nft_rule_args :: "mss_clamp \<Rightarrow> string \<Rightarrow> direction_spec \<Rightarrow> protocol_spec \<Rightarrow> int \<Rightarrow> string list" where
  "nft_rule_args cfg iface spec proto tunnelMTU =
     [ds_nft spec, iface] @ ps_nftMatch proto @
     [''tcp'', ''flags'', ''syn'', ''tcp'', ''option'', ''maxseg'', ''size'', ''set''] @
     (let mss = ps_mss proto cfg tunnelMTU in if mss > 0 then [decimal_int mss] else ps_nftPMTU proto) @
     [''comment'', nftString (marker iface (ds_name spec) (ps_name proto))]"

section \<open>Commands\<close>

text \<open>The tools: name, arguments and state give output, error and state.\<close>

type_synonym 's tools = "string \<Rightarrow> string list \<Rightarrow> 's \<Rightarrow> (string \<times> string option) \<times> 's"

datatype clamp_error = BadDirection string | BadBackend string | CommandFailed string

text \<open>An operation: None when it does not return, else an error or None, and the state.\<close>

type_synonym 's clamp_op = "'s \<Rightarrow> (clamp_error option \<times> 's) option"

definition run_cmd :: "'s tools \<Rightarrow> string \<Rightarrow> string list \<Rightarrow> 's \<Rightarrow> clamp_error option \<times> 's" where
  "run_cmd ex name args s = (case ex name args s of ((out, err), s') \<Rightarrow> (map_option CommandFailed err, s'))"

fun for_each :: "('a \<Rightarrow> 's clamp_op) \<Rightarrow> 'a list \<Rightarrow> 's clamp_op" where
  "for_each f [] s = Some (None, s)"
| "for_each f (x # xs) s =
     (case f x s of
        None \<Rightarrow> None
      | Some (Some e, s') \<Rightarrow> Some (Some e, s')
      | Some (None, s') \<Rightarrow> for_each f xs s')"

section \<open>iptables\<close>

abbreviation "ipt_args act chain rule \<equiv> [''-t'', ''mangle'', act, chain] @ rule"

definition add_iptables :: "'s tools \<Rightarrow> mss_clamp \<Rightarrow> string \<Rightarrow> direction_spec \<Rightarrow> int \<Rightarrow> protocol_spec \<Rightarrow> 's clamp_op" where
  "add_iptables ex cfg iface spec tunnelMTU proto s =
     (let rule = iptablesRule cfg iface spec proto tunnelMTU in
      case run_cmd ex (ps_iptables proto) (ipt_args ''-C'' (mc_ipt_chain cfg) rule) s of
        (None, s') \<Rightarrow> Some (None, s')
      | (Some e, s') \<Rightarrow> Some (run_cmd ex (ps_iptables proto) (ipt_args ''-A'' (mc_ipt_chain cfg) rule) s'))"

definition applyIPTables :: "'s tools \<Rightarrow> mss_clamp \<Rightarrow> string \<Rightarrow> int \<Rightarrow> direction_spec \<Rightarrow> 's clamp_op" where
  "applyIPTables ex cfg iface tunnelMTU spec = for_each (add_iptables ex cfg iface spec tunnelMTU) protocolSpecs"

text \<open>Deletes until the tool reports an error: None when it never does.\<close>

partial_function (option) delete_all :: "'s tools \<Rightarrow> string \<Rightarrow> string \<Rightarrow> string list \<Rightarrow> 's \<Rightarrow> 's option" where
  "delete_all ex bin chain rule s =
     (case run_cmd ex bin (ipt_args ''-D'' chain rule) s of
        (Some e, s') \<Rightarrow> Some s'
      | (None, s') \<Rightarrow> delete_all ex bin chain rule s')"

declare delete_all.simps [code]

definition removeIPTables :: "'s tools \<Rightarrow> mss_clamp \<Rightarrow> string \<Rightarrow> int \<Rightarrow> direction_spec \<Rightarrow> 's clamp_op" where
  "removeIPTables ex cfg iface tunnelMTU spec =
     for_each (\<lambda>proto s. map_option (Pair None)
       (delete_all ex (ps_iptables proto) (mc_ipt_chain cfg) (iptablesRule cfg iface spec proto tunnelMTU) s)) protocolSpecs"

fun ipt_present :: "'s tools \<Rightarrow> mss_clamp \<Rightarrow> string \<Rightarrow> int \<Rightarrow> direction_spec \<Rightarrow> protocol_spec list \<Rightarrow> 's \<Rightarrow> bool \<times> 's" where
  "ipt_present ex cfg iface tunnelMTU spec [] s = (True, s)"
| "ipt_present ex cfg iface tunnelMTU spec (proto # ps) s =
     (case run_cmd ex (ps_iptables proto)
         (ipt_args ''-C'' (mc_ipt_chain cfg) (iptablesRule cfg iface spec proto tunnelMTU)) s of
        (Some e, s') \<Rightarrow> (False, s')
      | (None, s') \<Rightarrow> ipt_present ex cfg iface tunnelMTU spec ps s')"

definition iptablesRulesPresent :: "'s tools \<Rightarrow> mss_clamp \<Rightarrow> string \<Rightarrow> int \<Rightarrow> direction_spec \<Rightarrow> 's \<Rightarrow> bool \<times> 's" where
  "iptablesRulesPresent ex cfg iface tunnelMTU spec = ipt_present ex cfg iface tunnelMTU spec protocolSpecs"

section \<open>nftables\<close>

definition ensureNFTTable :: "'s tools \<Rightarrow> mss_clamp \<Rightarrow> 's \<Rightarrow> clamp_error option \<times> 's" where
  "ensureNFTTable ex cfg s =
     (case run_cmd ex ''nft'' [''list'', ''table'', mc_nft_family cfg, mc_nft_table cfg] s of
        (None, s') \<Rightarrow> (None, s')
      | (Some e, s') \<Rightarrow> run_cmd ex ''nft'' [''add'', ''table'', mc_nft_family cfg, mc_nft_table cfg] s')"

definition defaultNFTPriority :: string where "defaultNFTPriority = ''mangle''"

abbreviation "chain_args cfg \<equiv> [mc_nft_family cfg, mc_nft_table cfg, mc_nft_chain cfg]"

definition ensureNFTChain :: "'s tools \<Rightarrow> mss_clamp \<Rightarrow> 's \<Rightarrow> clamp_error option \<times> 's" where
  "ensureNFTChain ex cfg s =
     (case run_cmd ex ''nft'' ([''list'', ''chain''] @ chain_args cfg) s of
        (None, s') \<Rightarrow> (None, s')
      | (Some e, s') \<Rightarrow> run_cmd ex ''nft'' ([''add'', ''chain''] @ chain_args cfg @
          [''{'', ''type'', ''filter'', ''hook'', ''forward'', ''priority'', defaultNFTPriority @ '';'', ''policy'', ''accept;'', ''}'']) s')"

definition add_nft :: "'s tools \<Rightarrow> mss_clamp \<Rightarrow> string \<Rightarrow> direction_spec \<Rightarrow> int \<Rightarrow> protocol_spec \<Rightarrow> 's clamp_op" where
  "add_nft ex cfg iface spec tunnelMTU proto s =
     Some (run_cmd ex ''nft'' ([''add'', ''rule''] @ chain_args cfg @ nft_rule_args cfg iface spec proto tunnelMTU) s)"

definition applyNFT :: "'s tools \<Rightarrow> mss_clamp \<Rightarrow> string \<Rightarrow> int \<Rightarrow> direction_spec \<Rightarrow> 's clamp_op" where
  "applyNFT ex cfg iface tunnelMTU spec s =
     (case (if mc_nft_manage cfg
            then case ensureNFTTable ex cfg s of
                (Some e, s') \<Rightarrow> (Some e, s')
              | (None, s') \<Rightarrow> ensureNFTChain ex cfg s'
            else (None, s)) of
        (Some e, s1) \<Rightarrow> Some (Some e, s1)
      | (None, s1) \<Rightarrow> for_each (add_nft ex cfg iface spec tunnelMTU) protocolSpecs s1)"

fun field_after :: "string \<Rightarrow> string list \<Rightarrow> string" where
  "field_after k (f # g # fs) = (if f = k then g else field_after k (g # fs))"
| "field_after k _ = ''''"

definition nftHandle :: "string \<Rightarrow> string" where
  "nftHandle line = field_after ''handle'' (ws_fields line)"

definition newline :: char where "newline = CHR 0x0A"

definition delete_line :: "'s tools \<Rightarrow> mss_clamp \<Rightarrow> string \<Rightarrow> direction_spec \<Rightarrow> string \<Rightarrow> 's clamp_op" where
  "delete_line ex cfg iface spec line s =
     (if \<not> contains line (''comment '' @ [CHR 0x22] @ markerPrefix iface (ds_name spec)) then Some (None, s)
      else if nftHandle line = '''' then Some (None, s)
      else Some (run_cmd ex ''nft'' ([''delete'', ''rule''] @ chain_args cfg @ [''handle'', nftHandle line]) s))"

definition removeNFT :: "'s tools \<Rightarrow> mss_clamp \<Rightarrow> string \<Rightarrow> direction_spec \<Rightarrow> 's clamp_op" where
  "removeNFT ex cfg iface spec s =
     (case ex ''nft'' ([''-a'', ''list'', ''chain''] @ chain_args cfg) s of
        ((out, Some e), s') \<Rightarrow> Some (None, s')
      | ((out, None), s') \<Rightarrow> for_each (delete_line ex cfg iface spec) (split_at newline out) s')"

definition nftRulesPresent :: "'s tools \<Rightarrow> mss_clamp \<Rightarrow> string \<Rightarrow> direction_spec \<Rightarrow> 's \<Rightarrow> bool \<times> 's" where
  "nftRulesPresent ex cfg iface spec s =
     (case ex ''nft'' ([''-a'', ''list'', ''chain''] @ chain_args cfg) s of
        ((out, Some e), s') \<Rightarrow> (False, s')
      | ((out, None), s') \<Rightarrow>
          (list_all (\<lambda>proto. contains out (''comment '' @ [CHR 0x22] @ marker iface (ds_name spec) (ps_name proto) @ [CHR 0x22]))
             protocolSpecs, s'))"

section \<open>Apply, Remove, Present and the monitor\<close>

definition Remove :: "'s tools \<Rightarrow> mss_clamp \<Rightarrow> string \<Rightarrow> int \<Rightarrow> 's clamp_op" where
  "Remove ex cfg0 iface tunnelMTU s =
     (if \<not> mc_enabled cfg0 then Some (None, s)
      else let cfg = mss_WithDefaults cfg0 in
        for_each (\<lambda>spec.
          if mc_backend cfg = ''nftables'' then removeNFT ex cfg iface spec
          else if mc_backend cfg = ''iptables'' then removeIPTables ex cfg iface tunnelMTU spec
          else (\<lambda>s. Some (Some (BadBackend (mc_backend cfg)), s))) (ruleSpecs (mc_direction cfg)) s)"

text \<open>An error of the pre-clean is logged only.\<close>

definition Apply :: "'s tools \<Rightarrow> mss_clamp \<Rightarrow> string \<Rightarrow> int \<Rightarrow> 's clamp_op" where
  "Apply ex cfg0 iface tunnelMTU s =
     (if \<not> mc_enabled cfg0 then Some (None, s)
      else let cfg = mss_WithDefaults cfg0; specs = ruleSpecs (mc_direction cfg) in
        if specs = [] then Some (Some (BadDirection (mc_direction cfg)), s)
        else case Remove ex cfg iface tunnelMTU s of
            None \<Rightarrow> None
          | Some (r, s1) \<Rightarrow>
              for_each (\<lambda>spec.
                if mc_backend cfg = ''nftables'' then applyNFT ex cfg iface tunnelMTU spec
                else if mc_backend cfg = ''iptables'' then applyIPTables ex cfg iface tunnelMTU spec
                else (\<lambda>s. Some (Some (BadBackend (mc_backend cfg)), s))) specs s1)"

text \<open>Whether all rules are there; an error is None.\<close>

fun present_all :: "'s tools \<Rightarrow> mss_clamp \<Rightarrow> string \<Rightarrow> int \<Rightarrow> direction_spec list \<Rightarrow> 's \<Rightarrow> bool option \<times> 's" where
  "present_all ex cfg iface tunnelMTU [] s = (Some True, s)"
| "present_all ex cfg iface tunnelMTU (spec # specs) s =
     (if mc_backend cfg \<noteq> ''nftables'' \<and> mc_backend cfg \<noteq> ''iptables'' then (None, s)
      else case (if mc_backend cfg = ''nftables'' then nftRulesPresent ex cfg iface spec s
                 else iptablesRulesPresent ex cfg iface tunnelMTU spec s) of
          (False, s') \<Rightarrow> (Some False, s')
        | (True, s') \<Rightarrow> present_all ex cfg iface tunnelMTU specs s')"

definition Present :: "'s tools \<Rightarrow> mss_clamp \<Rightarrow> string \<Rightarrow> int \<Rightarrow> 's \<Rightarrow> bool option \<times> 's" where
  "Present ex cfg0 iface tunnelMTU s =
     (if \<not> mc_enabled cfg0 then (Some True, s)
      else let cfg = mss_WithDefaults cfg0 in present_all ex cfg iface tunnelMTU (ruleSpecs (mc_direction cfg)) s)"

text \<open>
  The lines of \<^verbatim>\<open>nft monitor ruleset\<close>: each line is an event, with whether the context is
  cancelled when it is read. Before its rules are checked the world may change: \<open>between\<close>
  gives the state at the event.
\<close>

fun monitor_events :: "'s tools \<Rightarrow> mss_clamp \<Rightarrow> string \<Rightarrow> int \<Rightarrow> (bool \<times> ('s \<Rightarrow> 's)) list \<Rightarrow> 's \<Rightarrow> 's option" where
  "monitor_events ex cfg iface tunnelMTU [] s = Some s"
| "monitor_events ex cfg iface tunnelMTU ((cancelled, between) # evs) s =
     (let s0 = between s in
      if cancelled then Some s0
      else case Present ex cfg iface tunnelMTU s0 of
          (Some False, s1) \<Rightarrow>
            (case Apply ex cfg iface tunnelMTU s1 of
               None \<Rightarrow> None
             | Some (r, s2) \<Rightarrow> monitor_events ex cfg iface tunnelMTU evs s2)
        | (p, s1) \<Rightarrow> monitor_events ex cfg iface tunnelMTU evs s1)"

definition MonitorLoop :: "'s tools \<Rightarrow> mss_clamp \<Rightarrow> string \<Rightarrow> int \<Rightarrow> (bool \<times> ('s \<Rightarrow> 's)) list option \<Rightarrow> 's \<Rightarrow> 's option" where
  "MonitorLoop ex cfg iface tunnelMTU started s =
     (if \<not> mc_enabled cfg \<or> \<not> mc_monitor cfg \<or> mc_backend cfg \<noteq> ''nftables'' then Some s
      else case started of
          None \<Rightarrow> Some s
        | Some evs \<Rightarrow> monitor_events ex (mss_WithDefaults cfg) iface tunnelMTU evs s)"

end
