(* ===== verification/Mssclamp_Props.thy ===== *)
theory Mssclamp_Props
  imports Mssclamp
begin

text \<open>
  What the clamp operations achieve, given what \<^verbatim>\<open>iptables\<close> and \<^verbatim>\<open>nft\<close> document: each wanted
  rule is there exactly once, rules of others are untouched, the deletion loop ends.
\<close>

section \<open>iptables\<close>

text \<open>
  The view of the system: the rules of each chain of the mangle table, per tool. \<^verbatim>\<open>-C\<close> succeeds
  iff the rule is in the chain; \<^verbatim>\<open>-D\<close> deletes its first occurrence and fails when there is none;
  \<^verbatim>\<open>-A\<close> appends it, or fails and changes nothing.
\<close>

type_synonym ipt_view = "string \<Rightarrow> string \<Rightarrow> string list list"

definition upd_chain :: "ipt_view \<Rightarrow> string \<Rightarrow> string \<Rightarrow> string list list \<Rightarrow> ipt_view" where
  "upd_chain v bin chain rules = v(bin := (v bin)(chain := rules))"

definition iptables_ok :: "'s tools \<Rightarrow> ('s \<Rightarrow> ipt_view) \<Rightarrow> bool" where
  "iptables_ok ex view \<longleftrightarrow> (\<forall>bin \<in> {''iptables'', ''ip6tables''}. \<forall>chain rule s.
     (case run_cmd ex bin (ipt_args ''-C'' chain rule) s of (r, s') \<Rightarrow>
        (r = None \<longleftrightarrow> rule \<in> set (view s bin chain)) \<and> view s' = view s) \<and>
     (case run_cmd ex bin (ipt_args ''-D'' chain rule) s of (r, s') \<Rightarrow>
        (r = None \<longleftrightarrow> rule \<in> set (view s bin chain)) \<and>
        view s' = upd_chain (view s) bin chain (remove1 rule (view s bin chain))) \<and>
     (case run_cmd ex bin (ipt_args ''-A'' chain rule) s of (r, s') \<Rightarrow>
        view s' = (if r = None then upd_chain (view s) bin chain (view s bin chain @ [rule]) else view s)))"

lemma upd_chain_simps [simp]:
  "upd_chain v bin chain rules bin' chain' = (if bin' = bin \<and> chain' = chain then rules else v bin' chain')"
  "upd_chain (upd_chain v bin chain r1) bin chain r2 = upd_chain v bin chain r2"
  "upd_chain v bin chain (v bin chain) = v"
  by (auto simp: upd_chain_def)

lemma iptables_okD:
  assumes "iptables_ok ex view" "bin \<in> {''iptables'', ''ip6tables''}"
  shows "run_cmd ex bin (ipt_args ''-C'' chain rule) s = (r, s') \<Longrightarrow>
      (r = None \<longleftrightarrow> rule \<in> set (view s bin chain)) \<and> view s' = view s"
    "run_cmd ex bin (ipt_args ''-D'' chain rule) s = (r, s') \<Longrightarrow>
      (r = None \<longleftrightarrow> rule \<in> set (view s bin chain)) \<and>
      view s' = upd_chain (view s) bin chain (remove1 rule (view s bin chain))"
    "run_cmd ex bin (ipt_args ''-A'' chain rule) s = (r, s') \<Longrightarrow>
      view s' = (if r = None then upd_chain (view s) bin chain (view s bin chain @ [rule]) else view s)"
  using bspec [OF assms(1) [unfolded iptables_ok_def] assms(2), THEN spec [of _ chain], THEN spec [of _ rule], THEN spec [of _ s]]
  by auto

lemma removeAll_remove1: "removeAll x (remove1 x xs) = removeAll x xs"
  by (induction xs) auto

text \<open>The loop ends because each round that goes on has deleted a rule.\<close>

lemma delete_all_ok:
  assumes "iptables_ok ex view" "bin \<in> {''iptables'', ''ip6tables''}"
  shows "\<exists>s'. delete_all ex bin chain rule s = Some s' \<and>
    view s' = upd_chain (view s) bin chain (removeAll rule (view s bin chain))"
proof (induction "length (view s bin chain)" arbitrary: s rule: less_induct)
  case less
  obtain r s1 where s1: "run_cmd ex bin (ipt_args ''-D'' chain rule) s = (r, s1)" by force
  note law = iptables_okD(2) [OF assms s1]
  show ?case
  proof (cases r)
    case None
    then have mem: "rule \<in> set (view s bin chain)" and v: "view s1 = upd_chain (view s) bin chain (remove1 rule (view s bin chain))"
      using law by auto
    have "length (view s1 bin chain) < length (view s bin chain)"
      using mem length_pos_if_in_set [OF mem] by (simp add: v length_remove1)
    from less [OF this] obtain s2 where "delete_all ex bin chain rule s1 = Some s2"
      "view s2 = upd_chain (view s1) bin chain (removeAll rule (view s1 bin chain))" by blast
    then show ?thesis using s1 None
      by (subst delete_all.simps) (simp add: v removeAll_remove1)
  next
    case (Some e)
    then have "rule \<notin> set (view s bin chain)" "view s1 = view s" using law by (auto simp: remove1_idem)
    then show ?thesis using s1 Some by (subst delete_all.simps) simp
  qed
qed

section \<open>The rules wanted for an interface\<close>

definition proto_of :: "string \<Rightarrow> protocol_spec" where
  "proto_of bin = (if bin = ''iptables'' then v4_spec else v6_spec)"

definition wanted :: "mss_clamp \<Rightarrow> string \<Rightarrow> int \<Rightarrow> string \<Rightarrow> direction_spec list \<Rightarrow> string list list" where
  "wanted cfg iface mtu bin specs = map (\<lambda>spec. iptablesRule cfg iface spec (proto_of bin) mtu) specs"

definition ours :: "mss_clamp \<Rightarrow> string \<Rightarrow> string \<Rightarrow> bool" where
  "ours cfg bin chain \<longleftrightarrow> chain = mc_ipt_chain cfg \<and> bin \<in> {''iptables'', ''ip6tables''}"

definition without_rules :: "mss_clamp \<Rightarrow> string \<Rightarrow> int \<Rightarrow> direction_spec list \<Rightarrow> ipt_view \<Rightarrow> ipt_view" where
  "without_rules cfg iface mtu specs v = (\<lambda>b c. if ours cfg b c
     then filter (\<lambda>r. r \<notin> set (wanted cfg iface mtu b specs)) (v b c) else v b c)"

definition with_rules :: "mss_clamp \<Rightarrow> string \<Rightarrow> int \<Rightarrow> direction_spec list \<Rightarrow> ipt_view \<Rightarrow> ipt_view" where
  "with_rules cfg iface mtu specs v = (\<lambda>b c. if ours cfg b c then v b c @ wanted cfg iface mtu b specs else v b c)"

lemmas rules_simps = proto_of_def wanted_def ours_def without_rules_def with_rules_def

lemma removeIPTables_ok:
  assumes "iptables_ok ex view"
  shows "\<exists>s'. removeIPTables ex cfg iface mtu spec s = Some (None, s') \<and>
    view s' = without_rules cfg iface mtu [spec] (view s)"
proof -
  let ?c = "mc_ipt_chain cfg" and ?r = "\<lambda>p. iptablesRule cfg iface spec p mtu"
  obtain s1 where s1: "delete_all ex ''iptables'' ?c (?r v4_spec) s = Some s1"
    "view s1 = upd_chain (view s) ''iptables'' ?c (removeAll (?r v4_spec) (view s ''iptables'' ?c))"
    using delete_all_ok [OF assms, of "''iptables''"] by blast
  obtain s2 where s2: "delete_all ex ''ip6tables'' ?c (?r v6_spec) s1 = Some s2"
    "view s2 = upd_chain (view s1) ''ip6tables'' ?c (removeAll (?r v6_spec) (view s1 ''ip6tables'' ?c))"
    using delete_all_ok [OF assms, of "''ip6tables''"] by blast
  have "removeIPTables ex cfg iface mtu spec s = Some (None, s2)"
    using s1(1) s2(1) by (simp add: removeIPTables_def protocolSpecs_def v4_spec_def v6_spec_def)
  moreover have "view s2 = without_rules cfg iface mtu [spec] (view s)"
    by (auto simp: s1(2) s2(2) rules_simps fun_eq_iff removeAll_filter_not_eq intro: filter_cong)
  ultimately show ?thesis by blast
qed

lemma without_rules_Cons:
  "without_rules cfg iface mtu specs (without_rules cfg iface mtu [spec] v) = without_rules cfg iface mtu (spec # specs) v"
  by (auto simp: without_rules_def wanted_def fun_eq_iff intro!: filter_cong)

lemma remove_all_ok:
  assumes "iptables_ok ex view"
  shows "\<exists>s'. for_each (removeIPTables ex cfg iface mtu) specs s = Some (None, s') \<and>
    view s' = without_rules cfg iface mtu specs (view s)"
proof (induction specs arbitrary: s)
  case (Cons spec specs)
  obtain s1 where s1: "removeIPTables ex cfg iface mtu spec s = Some (None, s1)"
    "view s1 = without_rules cfg iface mtu [spec] (view s)" using removeIPTables_ok [OF assms] by blast
  obtain s2 where "for_each (removeIPTables ex cfg iface mtu) specs s1 = Some (None, s2)"
    "view s2 = without_rules cfg iface mtu specs (view s1)" using Cons by blast
  then show ?case using s1 by (simp add: without_rules_Cons)
qed (auto simp: without_rules_def wanted_def fun_eq_iff)

text \<open>A rule that is not there is appended; a tool's refusal ends the work.\<close>

lemma add_iptables_ok:
  assumes "iptables_ok ex view" "ps_iptables proto \<in> {''iptables'', ''ip6tables''}"
    "iptablesRule cfg iface spec proto mtu \<notin> set (view s (ps_iptables proto) (mc_ipt_chain cfg))"
  shows "\<exists>r s'. add_iptables ex cfg iface spec mtu proto s = Some (r, s') \<and> (r = None \<longrightarrow>
    view s' = upd_chain (view s) (ps_iptables proto) (mc_ipt_chain cfg)
      (view s (ps_iptables proto) (mc_ipt_chain cfg) @ [iptablesRule cfg iface spec proto mtu]))"
proof -
  let ?rule = "iptablesRule cfg iface spec proto mtu"
  obtain r s1 where s1: "run_cmd ex (ps_iptables proto) (ipt_args ''-C'' (mc_ipt_chain cfg) ?rule) s = (r, s1)" by force
  obtain r2 s2 where s2: "run_cmd ex (ps_iptables proto) (ipt_args ''-A'' (mc_ipt_chain cfg) ?rule) s1 = (r2, s2)" by force
  obtain e where "r = Some e" "view s1 = view s" using iptables_okD(1) [OF assms(1,2) s1] assms(3) by auto
  then show ?thesis using s1 s2 iptables_okD(3) [OF assms(1,2) s2] by (simp add: add_iptables_def Let_def)
qed

lemma applyIPTables_ok:
  assumes "iptables_ok ex view"
    "\<forall>b. ours cfg b c \<longrightarrow> iptablesRule cfg iface spec (proto_of b) mtu \<notin> set (view s b c)" "c = mc_ipt_chain cfg"
  shows "\<exists>r s'. applyIPTables ex cfg iface mtu spec s = Some (r, s') \<and>
    (r = None \<longrightarrow> view s' = with_rules cfg iface mtu [spec] (view s))"
proof -
  let ?r = "\<lambda>p. iptablesRule cfg iface spec p mtu"
  have bins: "ps_iptables v4_spec = ''iptables''" "ps_iptables v6_spec = ''ip6tables''"
    by (simp_all add: v4_spec_def v6_spec_def)
  have fresh: "?r v4_spec \<notin> set (view s ''iptables'' c)" "?r v6_spec \<notin> set (view s ''ip6tables'' c)"
    using assms(2) [THEN spec [of _ "''iptables''"]] assms(2) [THEN spec [of _ "''ip6tables''"]] assms(3)
    by (simp_all add: ours_def proto_of_def)
  obtain r1 s1 where s1: "add_iptables ex cfg iface spec mtu v4_spec s = Some (r1, s1)"
    "r1 = None \<longrightarrow> view s1 = upd_chain (view s) ''iptables'' c (view s ''iptables'' c @ [?r v4_spec])"
    using add_iptables_ok [OF assms(1), of v4_spec cfg iface spec mtu s] fresh(1) assms(3) by (auto simp: bins)
  show ?thesis
  proof (cases r1)
    case (Some e)
    then show ?thesis using s1(1) by (simp add: applyIPTables_def protocolSpecs_def)
  next
    case None
    then have v1: "view s1 = upd_chain (view s) ''iptables'' c (view s ''iptables'' c @ [?r v4_spec])" using s1(2) by simp
    obtain r2 s2 where s2: "add_iptables ex cfg iface spec mtu v6_spec s1 = Some (r2, s2)"
      "r2 = None \<longrightarrow> view s2 = upd_chain (view s1) ''ip6tables'' c (view s1 ''ip6tables'' c @ [?r v6_spec])"
      using add_iptables_ok [OF assms(1), of v6_spec cfg iface spec mtu s1] fresh(2) assms(3) by (auto simp: bins v1)
    have "view s2 = with_rules cfg iface mtu [spec] (view s)" if "r2 = None"
      using s2(2) that assms(3) by (auto simp: v1 rules_simps fun_eq_iff)
    then show ?thesis using s1(1) s2(1) None
      by (cases r2) (auto simp: applyIPTables_def protocolSpecs_def)
  qed
qed

lemma iptablesRule_direction: "iptablesRule cfg iface spec p mtu = iptablesRule cfg iface spec' p mtu \<Longrightarrow> ds_ipt spec = ds_ipt spec'"
  by (simp add: iptablesRule_def)

lemma apply_all_ok:
  assumes "iptables_ok ex view" "distinct (map ds_ipt specs)" "c = mc_ipt_chain cfg"
    "\<forall>b. ours cfg b c \<longrightarrow> set (wanted cfg iface mtu b specs) \<inter> set (view s b c) = {}"
  shows "\<exists>r s'. for_each (applyIPTables ex cfg iface mtu) specs s = Some (r, s') \<and>
    (r = None \<longrightarrow> view s' = with_rules cfg iface mtu specs (view s))"
  using assms(2,4)
proof (induction specs arbitrary: s)
  case (Cons spec specs)
  obtain r s1 where s1: "applyIPTables ex cfg iface mtu spec s = Some (r, s1)"
    "r = None \<longrightarrow> view s1 = with_rules cfg iface mtu [spec] (view s)"
    using applyIPTables_ok [OF assms(1) _ assms(3), of iface spec mtu s] Cons.prems(2) by (auto simp: wanted_def)
  show ?case
  proof (cases r)
    case None
    then have v1: "view s1 = with_rules cfg iface mtu [spec] (view s)" using s1(2) by simp
    have "\<forall>b. ours cfg b c \<longrightarrow> set (wanted cfg iface mtu b specs) \<inter> set (view s1 b c) = {}"
      using Cons.prems by (auto simp: v1 with_rules_def wanted_def dest: iptablesRule_direction)
    then obtain r2 s2 where "for_each (applyIPTables ex cfg iface mtu) specs s1 = Some (r2, s2)"
      "r2 = None \<longrightarrow> view s2 = with_rules cfg iface mtu specs (view s1)" using Cons.IH [of s1] Cons.prems(1) by auto
    then show ?thesis using s1(1) None by (auto simp: v1 with_rules_def wanted_def fun_eq_iff)
  qed (use s1 in auto)
qed (auto simp: with_rules_def wanted_def fun_eq_iff)

lemma ruleSpecs_distinct: "distinct (map ds_ipt (ruleSpecs d))" "distinct (map ds_name (ruleSpecs d))"
  by (simp_all add: ruleSpecs_def out_spec_def in_spec_def)

lemma mss_WithDefaults_idem [simp]: "mss_WithDefaults (mss_WithDefaults m) = mss_WithDefaults m"
  by (simp add: mss_WithDefaults_def or_default_def)

lemma mss_WithDefaults_enabled [simp]: "mc_enabled (mss_WithDefaults m) = mc_enabled m"
  by (simp add: mss_WithDefaults_def)

lemma without_disjoint:
  "ours cfg b c \<Longrightarrow> set (wanted cfg iface mtu b specs) \<inter> set (without_rules cfg iface mtu specs v b c) = {}"
  by (auto simp: without_rules_def)

lemma iptables_apply_ok:
  assumes "iptables_ok ex view" "mc_enabled cfg0" "cfg = mss_WithDefaults cfg0" "mc_backend cfg = ''iptables''"
    "specs = ruleSpecs (mc_direction cfg)" "specs \<noteq> []"
  shows "(\<exists>r s'. Apply ex cfg0 iface mtu s = Some (r, s') \<and> (r = None \<longrightarrow>
      view s' = with_rules cfg iface mtu specs (without_rules cfg iface mtu specs (view s)))) \<and>
    (\<exists>s'. Remove ex cfg0 iface mtu s = Some (None, s') \<and> view s' = without_rules cfg iface mtu specs (view s))"
proof -
  obtain s1 where s1: "for_each (removeIPTables ex cfg iface mtu) specs s = Some (None, s1)"
    "view s1 = without_rules cfg iface mtu specs (view s)" using remove_all_ok [OF assms(1)] by blast
  have rem: "Remove ex cfg0 iface mtu s = Some (None, s1)" "Remove ex cfg iface mtu s = Some (None, s1)"
    using s1(1) assms(2-5) by (simp_all add: Remove_def Let_def eta_contract_eq)
  obtain r s2 where s2: "for_each (applyIPTables ex cfg iface mtu) specs s1 = Some (r, s2)"
    "r = None \<longrightarrow> view s2 = with_rules cfg iface mtu specs (view s1)"
    using apply_all_ok [OF assms(1), of specs "mc_ipt_chain cfg" cfg iface mtu s1] ruleSpecs_distinct(1) [of "mc_direction cfg"]
      without_disjoint [of cfg _ "mc_ipt_chain cfg" iface mtu specs "view s"] assms(5) s1(2) by auto
  have "Apply ex cfg0 iface mtu s = Some (r, s2)"
    using rem(2) s2(1) assms(2-6) by (simp add: Apply_def Let_def)
  then show ?thesis using rem(1) s1(2) s2(2) by auto
qed

text \<open>
  C27. With the iptables backend, installing the clamp rules of an interface returns, and when
  it succeeds each wanted rule is exactly once in the configured chain, after all other rules,
  which keep their order, however many copies were there before. Removing them returns and
  leaves exactly the other rules; other chains are never touched.
\<close>

theorem iptables_clamp_exact:
  assumes "iptables_ok ex view" "mc_enabled cfg0" "cfg = mss_WithDefaults cfg0" "mc_backend cfg = ''iptables''"
    "specs = ruleSpecs (mc_direction cfg)" "specs \<noteq> []"
  shows "(\<exists>r s'. Apply ex cfg0 iface mtu s = Some (r, s') \<and> (r = None \<longrightarrow>
      view s' = with_rules cfg iface mtu specs (without_rules cfg iface mtu specs (view s)))) \<and>
    (\<exists>s'. Remove ex cfg0 iface mtu s = Some (None, s') \<and> view s' = without_rules cfg iface mtu specs (view s))"
  by (rule iptables_apply_ok [OF assms])

text \<open>A concrete system with these laws: its state is the view itself.\<close>

definition ipt_system :: "ipt_view tools" where
  "ipt_system bin args v =
     (case args of
        _ # _ # act # chain # rule \<Rightarrow>
          let rules = v bin chain; there = rule \<in> set rules in
          if act = ''-C'' then (('''', if there then None else Some ''no rule''), v)
          else if act = ''-D'' then (('''', if there then None else Some ''no rule''), upd_chain v bin chain (remove1 rule rules))
          else (('''', None), upd_chain v bin chain (rules @ [rule]))
      | _ \<Rightarrow> (('''', Some ''usage''), v))"

lemma ipt_system_ok: "iptables_ok ipt_system (\<lambda>v. v)"
  by (auto simp: iptables_ok_def ipt_system_def run_cmd_def Let_def)

definition demo_clamp :: mss_clamp where
  "demo_clamp = \<lparr>mc_enabled = True, mc_backend = ''iptables'', mc_direction = ''both'', mc_mode = ''tunnel_mtu'', mc_mss = 0,
    mc_mss4 = 0, mc_mss6 = 0, mc_nft_family = '''', mc_nft_table = '''', mc_nft_chain = '''', mc_nft_manage = False,
    mc_ipt_chain = '''', mc_monitor = False\<rparr>"

theorem iptables_clamp_exact_witness:
  "\<exists>r v. Apply ipt_system demo_clamp ''grem1'' 1400 (\<lambda>_ _. [[''other'']]) = Some (r, v) \<and>
    (r = None \<longrightarrow> v ''iptables'' ''FORWARD'' = [[''other''],
       iptablesRule (mss_WithDefaults demo_clamp) ''grem1'' out_spec v4_spec 1400,
       iptablesRule (mss_WithDefaults demo_clamp) ''grem1'' in_spec v4_spec 1400])"
proof -
  let ?cfg = "mss_WithDefaults demo_clamp"
  have [simp]: "mc_enabled demo_clamp" "mc_backend ?cfg = ''iptables''" "ruleSpecs (mc_direction ?cfg) = [out_spec, in_spec]" "mc_ipt_chain ?cfg = ''FORWARD''"
    by (simp_all add: mss_WithDefaults_def or_default_def demo_clamp_def ruleSpecs_def)
  have other: "[''other''] \<noteq> iptablesRule ?cfg ''grem1'' d p 1400" for d p by (simp add: iptablesRule_def)
  show ?thesis
    using iptables_clamp_exact [OF ipt_system_ok _ refl, of demo_clamp "[out_spec, in_spec]" "''grem1''" 1400 "\<lambda>_ _. [[''other'']]"]
      other by (auto simp: rules_simps)
qed

text \<open>
  The pre-clean deletes only rules that are exactly the wanted ones: a rule of the same
  interface for another segment size stays in the chain.
\<close>

theorem stale_clamp_survives:
  assumes "iptables_ok ex view" "mc_enabled cfg0" "cfg = mss_WithDefaults cfg0" "mc_backend cfg = ''iptables''"
    "spec \<in> set (ruleSpecs (mc_direction cfg))" "ours cfg b c"
    "stale = iptablesRule cfg iface spec (proto_of b) mtu'" "stale \<notin> set (wanted cfg iface mtu b (ruleSpecs (mc_direction cfg)))"
    "stale \<in> set (view s b c)" "Apply ex cfg0 iface mtu s = Some (None, s')"
  shows "stale \<in> set (view s' b c)"
proof -
  have "ruleSpecs (mc_direction cfg) \<noteq> []" using assms(5) by auto
  from iptables_apply_ok [OF assms(1-4) refl this, of iface mtu s] assms(10)
  have "view s' = with_rules cfg iface mtu (ruleSpecs (mc_direction cfg))
    (without_rules cfg iface mtu (ruleSpecs (mc_direction cfg)) (view s))" by simp
  then show ?thesis using assms(6,8,9) by (simp add: with_rules_def without_rules_def)
qed

text \<open>
  An installation that fails half-way leaves the rules it has installed: here \<^verbatim>\<open>ip6tables\<close>
  refuses, and the rule for IPv4 stays. The callers remove the interface only.
\<close>

definition half_system :: "ipt_view tools" where
  "half_system bin args v =
     (if bin = ''ip6tables'' \<and> args ! 2 = ''-A'' then (('''', Some ''not supported''), v) else ipt_system bin args v)"

lemma failed_apply_leaves_rules:
  "map_option (\<lambda>(r, v). (r, v ''iptables'' ''FORWARD'')) (Apply half_system (demo_clamp\<lparr>mc_direction := ''out''\<rparr>) ''grem1'' 1400 (\<lambda>_ _. [])) =
     Some (Some (CommandFailed ''not supported''), [iptablesRule (mss_WithDefaults demo_clamp) ''grem1'' out_spec v4_spec 1400])"
  by code_simp

section \<open>Markers\<close>

text \<open>The comment that marks a rule determines its interface and direction.\<close>

lemma ValidName_chars:
  assumes "ValidName name" "c \<in> set name"
  shows "c \<noteq> CHR '':''" "c \<noteq> CHR 0x22" "c \<noteq> CHR 0x5C" "c \<noteq> newline"
proof -
  obtain j where "name_rune j (of_char c)" using assms by (auto simp: ValidName_iff in_set_conv_nth)
  then show "c \<noteq> CHR '':''" "c \<noteq> CHR 0x22" "c \<noteq> CHR 0x5C" "c \<noteq> newline"
    by (auto simp: name_rune_def rune_class_defs newline_def)
qed

lemma prefix_up_to_colon:
  assumes "CHR '':'' \<notin> set a" "CHR '':'' \<notin> set b"
  shows "prefix (a @ CHR '':'' # u) (b @ CHR '':'' # w) \<longleftrightarrow> a = b \<and> prefix u w"
  using assms by (induction a arbitrary: b) (case_tac b; auto)+

lemma marker_prefix_iff:
  assumes "ValidName i" "ValidName j" "CHR '':'' \<notin> set d" "CHR '':'' \<notin> set d'"
  shows "prefix (markerPrefix i d) (marker j d' p) \<longleftrightarrow> i = j \<and> d = d'"
  using assms ValidName_chars(1) [OF assms(1)] ValidName_chars(1) [OF assms(2)]
    prefix_up_to_colon [of i j "d @ CHR '':'' # []" "d' @ CHR '':'' # p"] prefix_up_to_colon [of d d' "[]" p]
  by (auto simp: markerPrefix_def marker_def)

section \<open>nftables\<close>

text \<open>
  The view: the rules of the configured chain, with handle and comment, or None when there is
  no such chain. The listing with handles has one line for each rule, from which the handle and
  the quoted comment can be read, and other lines that carry no comment.
\<close>

record nft_rule =
  nr_handle :: string
  nr_comment :: string

definition commented :: "string \<Rightarrow> string" where
  "commented p = ''comment '' @ [CHR 0x22] @ p"

definition line_shows :: "string \<Rightarrow> nft_rule option \<Rightarrow> bool" where
  "line_shows line e \<longleftrightarrow>
     (\<forall>p. p \<noteq> [] \<and> CHR 0x22 \<notin> set p \<longrightarrow>
        (contains line (commented p) \<longleftrightarrow> (\<exists>r. e = Some r \<and> prefix p (nr_comment r))) \<and>
        (contains line (commented (p @ [CHR 0x22])) \<longleftrightarrow> (\<exists>r. e = Some r \<and> nr_comment r = p))) \<and>
     (\<forall>r. e = Some r \<longrightarrow> nftHandle line = nr_handle r)"

definition listing :: "string \<Rightarrow> nft_rule list \<Rightarrow> bool" where
  "listing out rs \<longleftrightarrow> (\<exists>es. list_all2 line_shows (split_at newline out) es \<and> rs = List.map_filter (\<lambda>e. e) es)"

definition plain :: "string \<Rightarrow> bool" where
  "plain m \<longleftrightarrow> CHR 0x22 \<notin> set m \<and> CHR 0x5C \<notin> set m \<and> newline \<notin> set m"

definition nft_ok :: "'s tools \<Rightarrow> mss_clamp \<Rightarrow> ('s \<Rightarrow> nft_rule list option) \<Rightarrow> bool" where
  "nft_ok ex cfg view \<longleftrightarrow>
     (\<forall>s rs. view s = Some rs \<longrightarrow> distinct (map nr_handle rs) \<and> '''' \<notin> set (map nr_handle rs)) \<and>
     (\<forall>s. case ex ''nft'' ([''-a'', ''list'', ''chain''] @ chain_args cfg) s of ((out, err), s') \<Rightarrow>
        view s' = view s \<and> (case view s of None \<Rightarrow> err \<noteq> None | Some rs \<Rightarrow> err = None \<and> listing out rs)) \<and>
     (\<forall>body m s. plain m \<longrightarrow>
        (case run_cmd ex ''nft'' ([''add'', ''rule''] @ chain_args cfg @ body @ [''comment'', [CHR 0x22] @ m @ [CHR 0x22]]) s of
           (None, s') \<Rightarrow> \<exists>rs h. view s = Some rs \<and> view s' = Some (rs @ [\<lparr>nr_handle = h, nr_comment = m\<rparr>])
         | (Some e, s') \<Rightarrow> view s' = view s)) \<and>
     (\<forall>h s rs. view s = Some rs \<longrightarrow>
        (case run_cmd ex ''nft'' ([''delete'', ''rule''] @ chain_args cfg @ [''handle'', h]) s of (r, s') \<Rightarrow>
           (r = None \<longleftrightarrow> h \<in> set (map nr_handle rs)) \<and> view s' = Some (filter (\<lambda>r. nr_handle r \<noteq> h) rs))) \<and>
     (\<forall>act s. act \<in> {''list'', ''add''} \<longrightarrow> view (snd (run_cmd ex ''nft'' [act, ''table'', mc_nft_family cfg, mc_nft_table cfg] s)) = view s) \<and>
     (\<forall>s. case run_cmd ex ''nft'' ([''list'', ''chain''] @ chain_args cfg) s of (r, s') \<Rightarrow>
        view s' = view s \<and> (r = None \<longrightarrow> view s \<noteq> None)) \<and>
     (\<forall>spec s. case run_cmd ex ''nft'' ([''add'', ''chain''] @ chain_args cfg @ spec) s of (r, s') \<Rightarrow>
        view s' = (if r = None \<and> view s = None then Some [] else view s))"

text \<open>The rules of the interface in the directions of \<open>specs\<close>.\<close>

definition owned :: "string \<Rightarrow> direction_spec list \<Rightarrow> nft_rule \<Rightarrow> bool" where
  "owned iface specs r \<longleftrightarrow> (\<exists>spec \<in> set specs. prefix (markerPrefix iface (ds_name spec)) (nr_comment r))"

definition markers :: "string \<Rightarrow> direction_spec list \<Rightarrow> string list" where
  "markers iface specs = concat (map (\<lambda>spec. map (\<lambda>proto. marker iface (ds_name spec) (ps_name proto)) protocolSpecs) specs)"

definition specs_plain :: "direction_spec list \<Rightarrow> bool" where
  "specs_plain specs \<longleftrightarrow> list_all (\<lambda>spec. plain (ds_name spec) \<and> CHR '':'' \<notin> set (ds_name spec)) specs"

lemma ruleSpecs_plain: "specs_plain (ruleSpecs d)"
  by (simp add: specs_plain_def ruleSpecs_def out_spec_def in_spec_def plain_def newline_def)

lemma marker_plain:
  assumes "ValidName iface" "plain d"
  shows "plain (markerPrefix iface d)" "markerPrefix iface d \<noteq> []"
    "proto \<in> set protocolSpecs \<Longrightarrow> plain (marker iface d (ps_name proto))" "marker iface d p \<noteq> []"
  using assms ValidName_chars [OF assms(1)]
  by (auto simp: plain_def markerPrefix_def marker_def newline_def protocolSpecs_def v4_spec_def v6_spec_def)

lemma nftString_plain: "plain m \<Longrightarrow> nftString m = [CHR 0x22] @ m @ [CHR 0x22]"
proof -
  assume "plain m"
  then have eq: "map (\<lambda>c. if c = CHR 0x22 \<or> c = CHR 0x5C then [CHR 0x5C, c] else [c]) m = map (\<lambda>c. [c]) m"
    by (auto simp: plain_def)
  show ?thesis unfolding nftString_def eq by (simp add: concat_map_singleton)
qed

lemma nft_okD:
  assumes "nft_ok ex cfg view"
  shows "view s = Some rs \<Longrightarrow> distinct (map nr_handle rs) \<and> '''' \<notin> set (map nr_handle rs)"
    "ex ''nft'' ([''-a'', ''list'', ''chain''] @ chain_args cfg) s = ((out, err), s') \<Longrightarrow>
      view s' = view s \<and> (case view s of None \<Rightarrow> err \<noteq> None | Some rs \<Rightarrow> err = None \<and> listing out rs)"
    "plain m \<Longrightarrow>
      run_cmd ex ''nft'' ([''add'', ''rule''] @ chain_args cfg @ body @ [''comment'', [CHR 0x22] @ m @ [CHR 0x22]]) s = (r, s') \<Longrightarrow>
      (case r of None \<Rightarrow> \<exists>rs h. view s = Some rs \<and> view s' = Some (rs @ [\<lparr>nr_handle = h, nr_comment = m\<rparr>])
       | Some e \<Rightarrow> view s' = view s)"
    "view s = Some rs \<Longrightarrow> run_cmd ex ''nft'' ([''delete'', ''rule''] @ chain_args cfg @ [''handle'', h]) s = (r, s') \<Longrightarrow>
      (r = None \<longleftrightarrow> h \<in> set (map nr_handle rs)) \<and> view s' = Some (filter (\<lambda>r. nr_handle r \<noteq> h) rs)"
    "act \<in> {''list'', ''add''} \<Longrightarrow> run_cmd ex ''nft'' [act, ''table'', mc_nft_family cfg, mc_nft_table cfg] s = (r, s') \<Longrightarrow> view s' = view s"
    "run_cmd ex ''nft'' ([''list'', ''chain''] @ chain_args cfg) s = (r, s') \<Longrightarrow>
      view s' = view s \<and> (r = None \<longrightarrow> view s \<noteq> None)"
    "run_cmd ex ''nft'' ([''add'', ''chain''] @ chain_args cfg @ spec) s = (r, s') \<Longrightarrow>
      view s' = (if r = None \<and> view s = None then Some [] else view s)"
proof -
  note laws = assms [unfolded nft_ok_def]
  show "view s = Some rs \<Longrightarrow> distinct (map nr_handle rs) \<and> '''' \<notin> set (map nr_handle rs)"
    by (rule laws [THEN conjunct1, rule_format])
  show "view s' = view s \<and> (case view s of None \<Rightarrow> err \<noteq> None | Some rs \<Rightarrow> err = None \<and> listing out rs)"
    if "ex ''nft'' ([''-a'', ''list'', ''chain''] @ chain_args cfg) s = ((out, err), s')"
    using laws [THEN conjunct2, THEN conjunct1, THEN spec [of _ s]] that by simp
  show "case r of None \<Rightarrow> \<exists>rs h. view s = Some rs \<and> view s' = Some (rs @ [\<lparr>nr_handle = h, nr_comment = m\<rparr>])
       | Some e \<Rightarrow> view s' = view s" if "plain m"
    "run_cmd ex ''nft'' ([''add'', ''rule''] @ chain_args cfg @ body @ [''comment'', [CHR 0x22] @ m @ [CHR 0x22]]) s = (r, s')"
    using laws [THEN conjunct2, THEN conjunct2, THEN conjunct1, rule_format, where m = m and body = body and s = s] that
    by (auto split: option.splits)
  show "(r = None \<longleftrightarrow> h \<in> set (map nr_handle rs)) \<and> view s' = Some (filter (\<lambda>r. nr_handle r \<noteq> h) rs)"
    if "view s = Some rs" "run_cmd ex ''nft'' ([''delete'', ''rule''] @ chain_args cfg @ [''handle'', h]) s = (r, s')"
    using laws [THEN conjunct2, THEN conjunct2, THEN conjunct2, THEN conjunct1, rule_format, OF that(1), of h] that(2) by simp
  note rest = laws [THEN conjunct2, THEN conjunct2, THEN conjunct2, THEN conjunct2]
  show "view s' = view s" if "act \<in> {''list'', ''add''}"
    "run_cmd ex ''nft'' [act, ''table'', mc_nft_family cfg, mc_nft_table cfg] s = (r, s')"
    using rest [THEN conjunct1, rule_format, OF that(1), of s] that(2) by simp
  show "view s' = view s \<and> (r = None \<longrightarrow> view s \<noteq> None)"
    if "run_cmd ex ''nft'' ([''list'', ''chain''] @ chain_args cfg) s = (r, s')"
    using rest [THEN conjunct2, THEN conjunct1, rule_format, of s] that by simp
  show "view s' = (if r = None \<and> view s = None then Some [] else view s)"
    if "run_cmd ex ''nft'' ([''add'', ''chain''] @ chain_args cfg @ spec) s = (r, s')"
    using rest [THEN conjunct2, THEN conjunct2, rule_format, where spec = spec and s = s] that by simp
qed

text \<open>Going over the lines of a listing deletes the owned rules among those listed.\<close>

lemma delete_lines_ok:
  assumes "nft_ok ex cfg view" "plain (markerPrefix iface (ds_name spec))" "list_all2 line_shows lines es"
    "view s = Some rs" "set (List.map_filter (\<lambda>e. e) es) \<subseteq> set rs" "distinct (List.map_filter (\<lambda>e. e) es)"
  shows "\<exists>s'. for_each (delete_line ex cfg iface spec) lines s = Some (None, s') \<and>
    view s' = Some (filter (\<lambda>r. \<not> (owned iface [spec] r \<and> r \<in> set (List.map_filter (\<lambda>e. e) es))) rs)"
  using assms(3-6)
proof (induction arbitrary: s rs rule: list_all2_induct)
  case (Cons line lines e es)
  let ?p = "markerPrefix iface (ds_name spec)"
  have shown: "contains line (commented ?p) \<longleftrightarrow> (\<exists>r. e = Some r \<and> owned iface [spec] r)"
    using Cons.hyps(1) assms(2) by (auto simp: line_shows_def owned_def plain_def markerPrefix_def)
  show ?case
  proof (cases "\<exists>r. e = Some r \<and> owned iface [spec] r")
    case False
    then have "delete_line ex cfg iface spec line s = Some (None, s)"
      using shown by (simp add: delete_line_def commented_def)
    moreover have "set (List.map_filter (\<lambda>e. e) es) \<subseteq> set rs" "distinct (List.map_filter (\<lambda>e. e) es)"
      using Cons.prems(2,3) by (auto simp: List.map_filter_simps split: option.splits)
    ultimately show ?thesis using Cons.IH [OF Cons.prems(1)] False
      by (cases e) (auto simp: List.map_filter_simps intro!: filter_cong)
  next
    case True
    then obtain r where r: "e = Some r" "owned iface [spec] r" by blast
    then have mem: "r \<in> set rs" using Cons.prems(2) by (simp add: List.map_filter_simps)
    note wf = nft_okD(1) [OF assms(1) Cons.prems(1)]
    have ne: "nr_handle r \<noteq> []" using wf mem by (metis image_eqI list.set_map)
    have h: "nftHandle line = nr_handle r" using Cons.hyps(1) r(1) by (simp add: line_shows_def)
    obtain d s1 where s1: "run_cmd ex ''nft'' ([''delete'', ''rule''] @ chain_args cfg @ [''handle'', nr_handle r]) s = (d, s1)" by force
    have del: "d = None" "view s1 = Some (filter (\<lambda>x. nr_handle x \<noteq> nr_handle r) rs)"
      using nft_okD(4) [OF assms(1) Cons.prems(1) s1] mem by auto
    have key: "nr_handle x = nr_handle r \<longleftrightarrow> x = r" if "x \<in> set rs" for x
      using wf mem that by (auto simp: distinct_map dest: inj_onD)
    have "filter (\<lambda>x. nr_handle x \<noteq> nr_handle r) rs = filter (\<lambda>x. x \<noteq> r) rs" using key by (intro filter_cong) auto
    with del(2) have v1: "view s1 = Some (filter (\<lambda>x. x \<noteq> r) rs)" by simp
    have "delete_line ex cfg iface spec line s = Some (None, s1)"
      using shown r s1 del(1) h ne by (auto simp: delete_line_def commented_def)
    moreover have "set (List.map_filter (\<lambda>e. e) es) \<subseteq> set (filter (\<lambda>x. x \<noteq> r) rs)" "distinct (List.map_filter (\<lambda>e. e) es)"
      using Cons.prems(2,3) r(1) by (auto simp: List.map_filter_simps)
    ultimately show ?thesis using Cons.IH [OF v1] r by (auto simp: List.map_filter_simps intro!: filter_cong)
  qed
qed (simp add: List.map_filter_simps)

lemma distinct_of_handles: "distinct (map nr_handle rs) \<Longrightarrow> distinct rs"
  by (simp add: distinct_map)

lemma removeNFT_ok:
  assumes "nft_ok ex cfg view" "plain (markerPrefix iface (ds_name spec))"
  shows "\<exists>s'. removeNFT ex cfg iface spec s = Some (None, s') \<and>
    view s' = map_option (filter (\<lambda>r. \<not> owned iface [spec] r)) (view s)"
proof -
  obtain out err s1 where s1: "ex ''nft'' ([''-a'', ''list'', ''chain''] @ chain_args cfg) s = ((out, err), s1)"
    by (metis surj_pair)
  note law = nft_okD(2) [OF assms(1) s1]
  show ?thesis
  proof (cases "view s")
    case None
    then show ?thesis using law s1 by (auto simp: removeNFT_def)
  next
    case (Some rs)
    then obtain es where es: "list_all2 line_shows (split_at newline out) es" "rs = List.map_filter (\<lambda>e. e) es"
      and v1: "view s1 = Some rs" "err = None" using law by (auto simp: listing_def)
    have "distinct rs" using nft_okD(1) [OF assms(1) Some] distinct_of_handles by blast
    then obtain s2 where "for_each (delete_line ex cfg iface spec) (split_at newline out) s1 = Some (None, s2)"
      "view s2 = Some (filter (\<lambda>r. \<not> (owned iface [spec] r \<and> r \<in> set rs)) rs)"
      using delete_lines_ok [OF assms es(1) v1(1)] es(2) by auto
    moreover have "filter (\<lambda>r. \<not> (owned iface [spec] r \<and> r \<in> set rs)) rs = filter (\<lambda>r. \<not> owned iface [spec] r) rs"
      by (intro filter_cong) auto
    ultimately show ?thesis using s1 v1(2) Some by (simp add: removeNFT_def)
  qed
qed

lemma owned_Cons: "owned iface (spec # specs) r \<longleftrightarrow> owned iface [spec] r \<or> owned iface specs r"
  by (simp add: owned_def)

lemma remove_nft_all_ok:
  assumes "nft_ok ex cfg view" "ValidName iface" "specs_plain specs"
  shows "\<exists>s'. for_each (removeNFT ex cfg iface) specs s = Some (None, s') \<and>
    view s' = map_option (filter (\<lambda>r. \<not> owned iface specs r)) (view s)"
  using assms(3)
proof (induction specs arbitrary: s)
  case Nil
  then show ?case by (auto simp: owned_def option.map_ident)
next
  case (Cons spec specs)
  have p: "plain (markerPrefix iface (ds_name spec))" "specs_plain specs"
    using Cons.prems marker_plain(1) [OF assms(2)] by (auto simp: specs_plain_def)
  obtain s1 where s1: "removeNFT ex cfg iface spec s = Some (None, s1)"
    "view s1 = map_option (filter (\<lambda>r. \<not> owned iface [spec] r)) (view s)"
    using removeNFT_ok [OF assms(1) p(1)] by blast
  obtain s2 where "for_each (removeNFT ex cfg iface) specs s1 = Some (None, s2)"
    "view s2 = map_option (filter (\<lambda>r. \<not> owned iface specs r)) (view s1)" using Cons.IH [OF p(2)] by blast
  then show ?case using s1
    by (auto simp: option.map_comp comp_def owned_Cons [of iface spec specs] conj_commute intro!: option.map_cong filter_cong)
qed

text \<open>Installing the rules of one direction: table and chain first, if they are managed.\<close>

definition rules_in :: "nft_rule list option \<Rightarrow> nft_rule list" where
  "rules_in v = (case v of None \<Rightarrow> [] | Some rs \<Rightarrow> rs)"

lemma ensureNFTChain_ok:
  assumes "nft_ok ex cfg view" "ensureNFTChain ex cfg s = (r, s')"
  shows "rules_in (view s') = rules_in (view s)"
proof -
  obtain r1 s1 where s1: "run_cmd ex ''nft'' ([''list'', ''chain''] @ chain_args cfg) s = (r1, s1)" by force
  show ?thesis
  proof (cases r1)
    case None
    then show ?thesis using assms(2) s1 nft_okD(6) [OF assms(1) s1] by (simp add: ensureNFTChain_def)
  next
    case (Some e)
    then have "run_cmd ex ''nft'' ([''add'', ''chain''] @ chain_args cfg @
      [''{'', ''type'', ''filter'', ''hook'', ''forward'', ''priority'', defaultNFTPriority @ '';'', ''policy'', ''accept;'', ''}'']) s1 = (r, s')"
      using assms(2) s1 by (simp add: ensureNFTChain_def)
    from nft_okD(7) [OF assms(1) this] nft_okD(6) [OF assms(1) s1] show ?thesis by (simp add: rules_in_def)
  qed
qed

lemma ensureNFTTable_ok:
  assumes "nft_ok ex cfg view" "ensureNFTTable ex cfg s = (r, s')"
  shows "view s' = view s"
proof -
  obtain r1 s1 where s1: "run_cmd ex ''nft'' [''list'', ''table'', mc_nft_family cfg, mc_nft_table cfg] s = (r1, s1)" by force
  have v1: "view s1 = view s" using nft_okD(5) [OF assms(1) _ s1] by simp
  show ?thesis
  proof (cases r1)
    case None
    then show ?thesis using assms(2) s1 v1 by (simp add: ensureNFTTable_def)
  next
    case (Some e)
    then have "run_cmd ex ''nft'' [''add'', ''table'', mc_nft_family cfg, mc_nft_table cfg] s1 = (r, s')"
      using assms(2) s1 by (simp add: ensureNFTTable_def)
    from nft_okD(5) [OF assms(1) _ this] v1 show ?thesis by simp
  qed
qed

lemma add_nft_ok:
  assumes "nft_ok ex cfg view" "plain (marker iface (ds_name spec) (ps_name proto))"
  shows "\<exists>r s'. add_nft ex cfg iface spec mtu proto s = Some (r, s') \<and> (r = None \<longrightarrow>
    (\<exists>h. view s \<noteq> None \<and> view s' = Some (rules_in (view s) @ [\<lparr>nr_handle = h, nr_comment = marker iface (ds_name spec) (ps_name proto)\<rparr>])))"
proof -
  let ?m = "marker iface (ds_name spec) (ps_name proto)"
  obtain r s' where s': "add_nft ex cfg iface spec mtu proto s = Some (r, s')" by (metis add_nft_def surj_pair)
  obtain body where body: "nft_rule_args cfg iface spec proto mtu = body @ [''comment'', [CHR 0x22] @ ?m @ [CHR 0x22]]"
    using nftString_plain [OF assms(2)] unfolding nft_rule_args_def by (metis append.assoc)
  then have "run_cmd ex ''nft'' ([''add'', ''rule''] @ chain_args cfg @ body @ [''comment'', [CHR 0x22] @ ?m @ [CHR 0x22]]) s = (r, s')"
    using s' by (simp add: add_nft_def)
  from nft_okD(3) [OF assms(1,2) this] s' show ?thesis by (cases r) (auto simp: rules_in_def)
qed

lemma for_each_adds:
  assumes "nft_ok ex cfg view" "\<forall>proto \<in> set protos. plain (marker iface (ds_name spec) (ps_name proto))"
  shows "\<exists>r s'. for_each (add_nft ex cfg iface spec mtu) protos s = Some (r, s') \<and> (r = None \<longrightarrow>
    (\<exists>news. rules_in (view s') = rules_in (view s) @ news \<and> (view s \<noteq> None \<or> protos \<noteq> [] \<longrightarrow> view s' \<noteq> None) \<and>
       map nr_comment news = map (\<lambda>proto. marker iface (ds_name spec) (ps_name proto)) protos))"
  using assms(2)
proof (induction protos arbitrary: s)
  case (Cons proto protos)
  obtain r s1 where s1: "add_nft ex cfg iface spec mtu proto s = Some (r, s1)" "r = None \<longrightarrow>
    (\<exists>h. view s \<noteq> None \<and> view s1 = Some (rules_in (view s) @ [\<lparr>nr_handle = h, nr_comment = marker iface (ds_name spec) (ps_name proto)\<rparr>]))"
    using add_nft_ok [OF assms(1), of iface spec proto mtu s] Cons.prems by auto
  show ?case
  proof (cases r)
    case None
    then obtain h where h: "view s1 = Some (rules_in (view s) @ [\<lparr>nr_handle = h, nr_comment = marker iface (ds_name spec) (ps_name proto)\<rparr>])"
      using s1(2) by blast
    obtain r2 s2 where s2: "for_each (add_nft ex cfg iface spec mtu) protos s1 = Some (r2, s2)"
      "r2 = None \<longrightarrow> (\<exists>news. rules_in (view s2) = rules_in (view s1) @ news \<and> (view s1 \<noteq> None \<or> protos \<noteq> [] \<longrightarrow> view s2 \<noteq> None) \<and>
         map nr_comment news = map (\<lambda>proto. marker iface (ds_name spec) (ps_name proto)) protos)"
      using Cons.IH [of s1] Cons.prems by auto
    have "\<exists>news. rules_in (view s2) = rules_in (view s) @ news \<and> view s2 \<noteq> None \<and>
         map nr_comment news = map (\<lambda>proto. marker iface (ds_name spec) (ps_name proto)) (proto # protos)" if r2: "r2 = None"
    proof -
      obtain news where "rules_in (view s2) = rules_in (view s1) @ news"
        "map nr_comment news = map (\<lambda>proto. marker iface (ds_name spec) (ps_name proto)) protos" "view s2 \<noteq> None" using s2(2) r2 h by auto
      then show ?thesis using h
        by (intro exI [of _ "\<lparr>nr_handle = h, nr_comment = marker iface (ds_name spec) (ps_name proto)\<rparr> # news"])
          (auto simp: rules_in_def)
    qed
    then show ?thesis using s1(1) s2(1) None by auto
  qed (use s1 in auto)
qed simp

lemma applyNFT_ok:
  assumes "nft_ok ex cfg view" "ValidName iface" "plain (ds_name spec)"
  shows "\<exists>r s'. applyNFT ex cfg iface mtu spec s = Some (r, s') \<and> (r = None \<longrightarrow>
    (\<exists>news. view s' = Some (rules_in (view s) @ news) \<and> map nr_comment news = markers iface [spec]))"
proof -
  obtain r1 s1 where s1: "(if mc_nft_manage cfg
      then case ensureNFTTable ex cfg s of (Some e, s') \<Rightarrow> (Some e, s') | (None, s') \<Rightarrow> ensureNFTChain ex cfg s'
      else (None, s)) = (r1, s1)" by force
  then have v1: "rules_in (view s1) = rules_in (view s)"
    using ensureNFTTable_ok [OF assms(1), of s] ensureNFTChain_ok [OF assms(1)]
    by (auto split: if_splits prod.splits option.splits)
  show ?thesis
  proof (cases r1)
    case (Some e)
    then show ?thesis using s1 by (simp add: applyNFT_def)
  next
    case None
    obtain r2 s2 where "for_each (add_nft ex cfg iface spec mtu) protocolSpecs s1 = Some (r2, s2)"
      "r2 = None \<longrightarrow> (\<exists>news. rules_in (view s2) = rules_in (view s1) @ news \<and>
         (view s1 \<noteq> None \<or> protocolSpecs \<noteq> [] \<longrightarrow> view s2 \<noteq> None) \<and>
         map nr_comment news = map (\<lambda>proto. marker iface (ds_name spec) (ps_name proto)) protocolSpecs)"
      using for_each_adds [OF assms(1), of protocolSpecs iface spec mtu s1] marker_plain(3) [OF assms(2,3)] by auto
    then show ?thesis using s1 None v1
      by (auto simp: applyNFT_def markers_def protocolSpecs_def rules_in_def)
  qed
qed

lemma apply_nft_all_ok:
  assumes "nft_ok ex cfg view" "ValidName iface" "specs_plain specs"
  shows "\<exists>r s'. for_each (applyNFT ex cfg iface mtu) specs s = Some (r, s') \<and> (r = None \<longrightarrow>
    (\<exists>news. rules_in (view s') = rules_in (view s) @ news \<and> (view s \<noteq> None \<or> specs \<noteq> [] \<longrightarrow> view s' \<noteq> None) \<and>
      map nr_comment news = markers iface specs))"
  using assms(3)
proof (induction specs arbitrary: s)
  case (Cons spec specs)
  have p: "plain (ds_name spec)" "specs_plain specs" using Cons.prems by (auto simp: specs_plain_def)
  obtain r s1 where s1: "applyNFT ex cfg iface mtu spec s = Some (r, s1)" "r = None \<longrightarrow>
    (\<exists>news. view s1 = Some (rules_in (view s) @ news) \<and> map nr_comment news = markers iface [spec])"
    using applyNFT_ok [OF assms(1,2) p(1)] by blast
  obtain r2 s2 where s2: "for_each (applyNFT ex cfg iface mtu) specs s1 = Some (r2, s2)" "r2 = None \<longrightarrow>
    (\<exists>news. rules_in (view s2) = rules_in (view s1) @ news \<and> (view s1 \<noteq> None \<or> specs \<noteq> [] \<longrightarrow> view s2 \<noteq> None) \<and>
      map nr_comment news = markers iface specs)" using Cons.IH [OF p(2)] by blast
  show ?case
  proof (cases "r = None \<and> r2 = None")
    case True
    obtain n1 where n1: "view s1 = Some (rules_in (view s) @ n1)" "map nr_comment n1 = markers iface [spec]" using s1(2) True by blast
    obtain n2 where n2: "rules_in (view s2) = rules_in (view s1) @ n2" "view s2 \<noteq> None" "map nr_comment n2 = markers iface specs"
      using s2(2) True n1(1) by auto
    have "rules_in (view s2) = rules_in (view s) @ (n1 @ n2) \<and> map nr_comment (n1 @ n2) = markers iface (spec # specs)"
      using n1 n2 by (simp add: rules_in_def markers_def)
    then show ?thesis using s1(1) s2(1) n2(2) True by auto
  qed (use s1(1) s2(1) in \<open>cases r; auto\<close>)
qed (auto simp: markers_def)

text \<open>A text in a line of a listing is in the listing.\<close>

lemma contains_prefix: "prefix sub s \<Longrightarrow> contains s sub"
  by (cases s) auto

lemma contains_split:
  assumes "line \<in> set (split_at newline out)" "contains line sub"
  shows "contains out sub"
  using assms
proof (induction out arbitrary: line)
  case (Cons c out)
  obtain w ws where w: "split_at newline out = w # ws" by (cases "split_at newline out"; cases out) (auto split: if_splits list.splits)
  have pre: "\<exists>rest. out = w @ rest"
    using w
  proof (induction out arbitrary: w ws)
    case (Cons d out)
    then show ?case by (auto split: if_splits list.splits)
  qed simp
  show ?case
  proof (cases "c = newline \<or> line \<in> set ws")
    case True
    then show ?thesis using Cons w by (auto split: if_splits)
  next
    case False
    then have "line = c # w" using Cons.prems(1) w by (auto split: if_splits)
    then show ?thesis using Cons.IH [of w] Cons.prems(2) pre w by (auto simp: prefix_def) (metis append_Cons append_assoc)
  qed
qed auto

lemma set_listed: "set (List.map_filter (\<lambda>e. e) es) = {r. Some r \<in> set es}"
  by (induction es) (auto simp: List.map_filter_simps split: option.splits)

lemma nftRulesPresent_ok:
  assumes "nft_ok ex cfg view" "ValidName iface" "plain (ds_name spec)" "view s = Some rs"
    "set (markers iface [spec]) \<subseteq> set (map nr_comment rs)"
  shows "\<exists>s'. nftRulesPresent ex cfg iface spec s = (True, s') \<and> view s' = view s"
proof -
  obtain out err s1 where s1: "ex ''nft'' ([''-a'', ''list'', ''chain''] @ chain_args cfg) s = ((out, err), s1)"
    by (metis surj_pair)
  then obtain es where es: "list_all2 line_shows (split_at newline out) es" "rs = List.map_filter (\<lambda>e. e) es"
    and v1: "view s1 = view s" "err = None" using nft_okD(2) [OF assms(1) s1] assms(4) by (auto simp: listing_def)
  have "contains out (''comment '' @ [CHR 0x22] @ marker iface (ds_name spec) (ps_name proto) @ [CHR 0x22])"
    if proto: "proto \<in> set protocolSpecs" for proto
  proof -
    let ?m = "marker iface (ds_name spec) (ps_name proto)"
    obtain r where r: "Some r \<in> set es" "nr_comment r = ?m"
      using assms(5) proto es(2) by (auto simp: markers_def set_listed)
    then obtain line where line: "line \<in> set (split_at newline out)" "line_shows line (Some r)"
      using es(1) by (metis in_set_conv_nth list_all2_conv_all_nth)
    have "contains line (commented (?m @ [CHR 0x22]))"
      using line(2) r(2) marker_plain(3) [OF assms(2,3) proto] marker_plain(4) [OF assms(2,3)]
      by (simp add: line_shows_def plain_def)
    from contains_split [OF line(1) this] show ?thesis by (simp add: commented_def)
  qed
  then show ?thesis using s1 v1 by (simp add: nftRulesPresent_def list_all_iff)
qed

lemma present_all_ok:
  assumes "nft_ok ex cfg view" "ValidName iface" "specs_plain specs" "mc_backend cfg = ''nftables''" "view s = Some rs"
    "set (markers iface specs) \<subseteq> set (map nr_comment rs)"
  shows "\<exists>s'. present_all ex cfg iface mtu specs s = (Some True, s') \<and> view s' = view s"
  using assms(3,5,6)
proof (induction specs arbitrary: s)
  case (Cons spec specs)
  have "plain (ds_name spec)" "specs_plain specs" "set (markers iface [spec]) \<subseteq> set (map nr_comment rs)"
    "set (markers iface specs) \<subseteq> set (map nr_comment rs)"
    using Cons.prems(1,3) by (auto simp: specs_plain_def markers_def)
  moreover from this obtain s1 where "nftRulesPresent ex cfg iface spec s = (True, s1)" "view s1 = view s"
    using nftRulesPresent_ok [OF assms(1,2) _ Cons.prems(2)] by blast
  ultimately show ?case using Cons.IH [of s1] Cons.prems(2) assms(4) by auto
qed simp

lemma marker_not_owned:
  assumes "ValidName iface" "ValidName j" "j \<noteq> iface" "specs_plain specs" "CHR '':'' \<notin> set d" "nr_comment r = marker j d p"
  shows "\<not> owned iface specs r"
  using marker_prefix_iff [OF assms(1,2) _ assms(5)] assms(3,4,6) by (auto simp: owned_def specs_plain_def list_all_iff)


text \<open>A concrete system: a chain that can hold the two rules of one interface.\<close>

abbreviation "demo_mark proto \<equiv> marker ''grem1'' ''out'' proto"
abbreviation "demo_line proto h \<equiv> commented (demo_mark proto @ [CHR 0x22] @ '' # handle '' @ h)"

definition nft_view :: "bool \<times> bool \<Rightarrow> nft_rule list option" where
  "nft_view s = Some ((if fst s then [\<lparr>nr_handle = ''1'', nr_comment = demo_mark ''v4''\<rparr>] else []) @
     (if snd s then [\<lparr>nr_handle = ''2'', nr_comment = demo_mark ''v6''\<rparr>] else []))"

definition nft_system :: "(bool \<times> bool) tools" where
  "nft_system name args s =
     (if hd args = ''-a''
      then (((if fst s then demo_line ''v4'' ''1'' else '''') @ newline # (if snd s then demo_line ''v6'' ''2'' else ''''), None), s)
      else if take 2 args = [''add'', ''rule''] then
        (if last args = [CHR 0x22] @ demo_mark ''v4'' @ [CHR 0x22] \<and> s = (False, False) then (('''', None), (True, False))
         else if last args = [CHR 0x22] @ demo_mark ''v6'' @ [CHR 0x22] \<and> \<not> snd s then (('''', None), (fst s, True))
         else (('''', Some ''full''), s))
      else if take 2 args = [''delete'', ''rule''] then
        (if last args = ''1'' then (('''', if fst s then None else Some ''none''), (False, snd s))
         else if last args = ''2'' then (('''', if snd s then None else Some ''none''), (fst s, False))
         else (('''', Some ''none''), s))
      else (('''', None), s))"

lemma contains_weaken: "contains s (a @ b) \<Longrightarrow> contains s a"
  by (induction s) (auto simp: append_prefixD dest: append_prefixD)

lemma prefix_to_quote:
  assumes "CHR 0x22 \<notin> set p" "CHR 0x22 \<notin> set m"
  shows "prefix p (m @ CHR 0x22 # t) \<longleftrightarrow> prefix p m" "prefix (p @ [CHR 0x22]) (m @ CHR 0x22 # t) \<longleftrightarrow> p = m"
  using assms by (induction p arbitrary: m) (case_tac m; auto)+

lemma line_shows_intro:
  assumes "\<not> contains (tl (commented (m @ CHR 0x22 # t))) (commented [])" "CHR 0x22 \<notin> set m"
    "nftHandle (commented (m @ CHR 0x22 # t)) = h"
  shows "line_shows (commented (m @ CHR 0x22 # t)) (Some \<lparr>nr_handle = h, nr_comment = m\<rparr>)"
proof -
  have "contains (commented w) (commented p) \<longleftrightarrow> prefix p w" if "\<not> contains (tl (commented w)) (commented [])" for p w
    using that contains_weaken [of "tl (commented w)" "commented []" p] by (auto simp: commented_def)
  then show ?thesis using assms prefix_to_quote [OF _ assms(2)] by (auto simp: line_shows_def)
qed

lemma demo_line_shows:
  "line_shows (demo_line ''v4'' ''1'') (Some \<lparr>nr_handle = ''1'', nr_comment = demo_mark ''v4''\<rparr>)"
  "line_shows (demo_line ''v6'' ''2'') (Some \<lparr>nr_handle = ''2'', nr_comment = demo_mark ''v6''\<rparr>)"
  "line_shows '''' None"
  unfolding append_Cons append_Nil
  by ((rule line_shows_intro; code_simp)+) (simp add: line_shows_def commented_def)

lemma demo_split:
  "newline \<notin> set (demo_line ''v4'' ''1'')" "newline \<notin> set (demo_line ''v6'' ''2'')"
  by code_simp+

lemma split_at_line:
  assumes "newline \<notin> set a" "newline \<notin> set b"
  shows "split_at newline (a @ newline # b) = [a, b]"
proof -
  have "split_at newline b = [b]" using assms(2) by (induction b) auto
  then show ?thesis using assms(1) by (induction a) auto
qed

definition demo_nft :: mss_clamp where
  "demo_nft = demo_clamp\<lparr>mc_backend := ''nftables'', mc_direction := ''out''\<rparr>"

lemma nft_system_ok: "nft_ok nft_system cfg nft_view"
proof -
  have "listing ((if a then demo_line ''v4'' ''1'' else '''') @ newline # (if b then demo_line ''v6'' ''2'' else '''')) (the (nft_view (a, b)))" for a b
    unfolding listing_def
    by (rule exI [of _ "[if a then Some \<lparr>nr_handle = ''1'', nr_comment = demo_mark ''v4''\<rparr> else None,
          if b then Some \<lparr>nr_handle = ''2'', nr_comment = demo_mark ''v6''\<rparr> else None]"])
      (use demo_line_shows demo_split in \<open>auto simp: split_at_line nft_view_def List.map_filter_simps\<close>)
  then have l: "listing ((if fst s then demo_line ''v4'' ''1'' else '''') @ newline # (if snd s then demo_line ''v6'' ''2'' else '''')) (the (nft_view s))" for s
    by (cases s) simp
  show ?thesis
    unfolding nft_ok_def run_cmd_def
    using l by (auto simp: nft_system_def nft_view_def split: if_splits)
qed


end
