(* ===== verification/Health.thy ===== *)
theory Health
  imports Config
begin

text \<open>
  Package \<^verbatim>\<open>internal/healthcheck\<close>: pinging the inner peer and acting on consecutive failures.
  Running a command, sleeping and waiting for the next tick are operations of the environment,
  given as a record, with the environment variables of the daemon that every command inherits; each
  operation may find the context cancelled.
\<close>

section \<open>Commands\<close>

text \<open>What running a command gives: the context's error if it ended first, the error, its stderr.\<close>

datatype run_result = RunOk | RunFailed "string option" string string

fun run_error :: "run_result \<Rightarrow> string option" where
  "run_error RunOk = None"
| "run_error (RunFailed (Some c) e stderr) = Some c"
| "run_error (RunFailed None e stderr) = Some (if stderr \<noteq> [] then e @ '': '' @ stderr else e)"

record 's hc_env =
  hc_environ :: "string list"
  hc_run :: "string \<Rightarrow> string list \<Rightarrow> string list \<Rightarrow> int \<Rightarrow> 's \<Rightarrow> run_result \<times> 's"
  hc_sleep :: "int \<Rightarrow> 's \<Rightarrow> string option \<times> 's"
  hc_tick :: "'s \<Rightarrow> bool \<times> 's"

text \<open>
  Seconds rounded up, at least one. The source rounds a float64, which is exact here for
  timeouts below 48 days.
\<close>

definition pingWaitSeconds :: "int \<Rightarrow> string" where
  "pingWaitSeconds d = decimal_int (max 1 (- ((- d) div second)))"

definition ping_args :: "health_check \<Rightarrow> string \<Rightarrow> addr \<Rightarrow> int \<Rightarrow> string list" where
  "ping_args cfg iface target packetSize =
     [''-n'', ''-c'', ''1'', ''-W'', pingWaitSeconds (hc_timeout cfg)] @
     (if packetSize > 0 then [''-s'', decimal_int packetSize] else []) @
     (if hc_bind_interface cfg then [''-I'', iface] else []) @ [addr_string target]"

definition pingOnce :: "'s hc_env \<Rightarrow> health_check \<Rightarrow> string \<Rightarrow> addr \<Rightarrow> int \<Rightarrow> 's \<Rightarrow> string option \<times> 's" where
  "pingOnce env cfg iface target packetSize s =
     (case hc_run env (hc_command cfg) (ping_args cfg iface target packetSize) (hc_environ env) (hc_timeout cfg) s of
        (r, s') \<Rightarrow> (run_error r, s'))"

definition waitBetweenProbes :: "'s hc_env \<Rightarrow> health_check \<Rightarrow> int \<Rightarrow> 's \<Rightarrow> string option \<times> 's" where
  "waitBetweenProbes env cfg nextSize s =
     (let threshold = (if hc_large_threshold cfg = 0 then 1 else hc_large_threshold cfg);
          delay = (if nextSize \<ge> threshold \<and> hc_large_delay cfg > 0 then hc_large_delay cfg else hc_delay cfg)
      in if delay \<le> 0 then (None, s) else hc_sleep env delay s)"

definition packetSizes :: "health_check \<Rightarrow> int list" where
  "packetSizes cfg = (if hc_packet_sizes cfg \<noteq> [] then hc_packet_sizes cfg else [hc_packet_size cfg])"

fun probe_sizes :: "'s hc_env \<Rightarrow> health_check \<Rightarrow> string \<Rightarrow> addr \<Rightarrow> bool \<Rightarrow> int list \<Rightarrow> 's \<Rightarrow> string option \<times> 's" where
  "probe_sizes env cfg iface target later [] s = (None, s)"
| "probe_sizes env cfg iface target later (sz # sizes) s =
     (case (if later then waitBetweenProbes env cfg sz s else (None, s)) of
        (Some e, s1) \<Rightarrow> (Some e, s1)
      | (None, s1) \<Rightarrow>
          (case pingOnce env cfg iface target sz s1 of
             (Some e, s2) \<Rightarrow> (Some (''packet_size='' @ decimal_int sz @ '': '' @ e), s2)
           | (None, s2) \<Rightarrow> probe_sizes env cfg iface target True sizes s2))"

definition probeAllSizes :: "'s hc_env \<Rightarrow> health_check \<Rightarrow> string \<Rightarrow> addr \<Rightarrow> int list \<Rightarrow> 's \<Rightarrow> string option \<times> 's" where
  "probeAllSizes env cfg iface target sizes = probe_sizes env cfg iface target False sizes"

section \<open>Actions\<close>

fun join_with :: "string \<Rightarrow> string list \<Rightarrow> string" where
  "join_with sep [] = ''''"
| "join_with sep [x] = x"
| "join_with sep (x # xs) = x @ sep @ join_with sep xs"

definition joinInts :: "int list \<Rightarrow> string" where
  "joinInts values = join_with '','' (map decimal_int values)"

definition script_env :: "string list \<Rightarrow> string \<Rightarrow> addr \<Rightarrow> int list \<Rightarrow> int \<Rightarrow> string \<Rightarrow> string list" where
  "script_env environ iface target sizes failures err = environ @
     [''GREMLIND_HEALTHCHECK_EVENT=failed'',
      ''GREMLIND_HEALTHCHECK_IFACE='' @ iface,
      ''GREMLIND_HEALTHCHECK_TARGET='' @ addr_string target,
      ''GREMLIND_HEALTHCHECK_PACKET_SIZES='' @ joinInts sizes,
      ''GREMLIND_HEALTHCHECK_FAILURES='' @ decimal_int failures,
      ''GREMLIND_HEALTHCHECK_ERROR='' @ err]"

definition runScript :: "'s hc_env \<Rightarrow> health_check \<Rightarrow> string \<Rightarrow> addr \<Rightarrow> int list \<Rightarrow> int \<Rightarrow> string \<Rightarrow> 's \<Rightarrow> string option \<times> 's" where
  "runScript env cfg iface target sizes failures err s =
     (case hc_run env (hc_script cfg) [] (script_env (hc_environ env) iface target sizes failures err) (hc_timeout cfg) s of
        (r, s') \<Rightarrow> (run_error r, s'))"

text \<open>Whether to reconnect; logging and the outcome of the script change nothing here.\<close>

fun run_actions :: "'s hc_env \<Rightarrow> health_check \<Rightarrow> string \<Rightarrow> addr \<Rightarrow> int list \<Rightarrow> int \<Rightarrow> string \<Rightarrow> string list \<Rightarrow> bool \<Rightarrow> 's \<Rightarrow> bool \<times> 's" where
  "run_actions env cfg iface target sizes failures err [] reconnect s = (reconnect, s)"
| "run_actions env cfg iface target sizes failures err (action # actions) reconnect s =
     (if action = ''run_script'' then
        run_actions env cfg iface target sizes failures err actions reconnect
          (snd (runScript env cfg iface target sizes failures err s))
      else run_actions env cfg iface target sizes failures err actions (reconnect \<or> action = ''reconnect'') s)"

definition runFailureActions :: "'s hc_env \<Rightarrow> health_check \<Rightarrow> string \<Rightarrow> addr \<Rightarrow> int list \<Rightarrow> int \<Rightarrow> string \<Rightarrow> 's \<Rightarrow> bool \<times> 's" where
  "runFailureActions env cfg iface target sizes failures err s =
     run_actions env cfg iface target sizes failures err (hc_actions cfg) False s"

section \<open>The loop\<close>

datatype health_error = BadTarget | InvalidTarget | Unhealthy int string

text \<open>One round: the error the loop returns, or the failures counted so far.\<close>

definition health_round :: "'s hc_env \<Rightarrow> health_check \<Rightarrow> string \<Rightarrow> addr \<Rightarrow> int list \<Rightarrow> int \<Rightarrow> 's \<Rightarrow> (health_error, int) result \<times> 's" where
  "health_round env cfg iface target sizes failures s =
     (case probeAllSizes env cfg iface target sizes s of
        (None, s1) \<Rightarrow> (Inr 0, s1)
      | (Some err, s1) \<Rightarrow>
          if failures + 1 \<ge> hc_failures cfg then
            (case runFailureActions env cfg iface target sizes (failures + 1) err s1 of
               (True, s2) \<Rightarrow> (Inl (Unhealthy (failures + 1) err), s2)
             | (False, s2) \<Rightarrow> (Inr 0, s2))
          else (Inr (failures + 1), s1))"

partial_function (option) health_loop ::
  "'s hc_env \<Rightarrow> health_check \<Rightarrow> string \<Rightarrow> addr \<Rightarrow> int list \<Rightarrow> int \<Rightarrow> 's \<Rightarrow> (health_error option \<times> 's) option" where
  "health_loop env cfg iface target sizes failures s =
     (case health_round env cfg iface target sizes failures s of
        (Inl e, s1) \<Rightarrow> Some (Some e, s1)
      | (Inr n, s1) \<Rightarrow>
          (case hc_tick env s1 of (cancelled, s2) \<Rightarrow>
             if cancelled then Some (None, s2) else health_loop env cfg iface target sizes n s2))"

declare health_loop.simps [code]

definition health_target :: "health_check \<Rightarrow> addr \<Rightarrow> addr option" where
  "health_target cfg peer = (if hc_target cfg = '''' then Some peer else map_option unmap (ParseAddr (hc_target cfg)))"

text \<open>A disabled check waits for the cancellation only.\<close>

definition Loop :: "'s hc_env \<Rightarrow> health_check \<Rightarrow> string \<Rightarrow> addr \<Rightarrow> 's \<Rightarrow> (health_error option \<times> 's) option" where
  "Loop env cfg0 iface peer s =
     (if \<not> hc_enabled cfg0 then Some (None, s)
      else let cfg = health_WithDefaults cfg0 in
        case health_target cfg peer of
          None \<Rightarrow> Some (Some BadTarget, s)
        | Some target \<Rightarrow>
            if \<not> is_valid target then Some (Some InvalidTarget, s)
            else health_loop env cfg iface target (packetSizes cfg) 0 s)"

section \<open>When the loop ends\<close>

text \<open>The rounds of a loop that goes on: the state before each, its outcome, the tick after it.\<close>

fun at_round :: "('s \<Rightarrow> string option \<times> 's) \<Rightarrow> ('s \<Rightarrow> bool \<times> 's) \<Rightarrow> 's \<Rightarrow> nat \<Rightarrow> 's" where
  "at_round probe tick s 0 = s"
| "at_round probe tick s (Suc k) = snd (tick (snd (probe (at_round probe tick s k))))"

definition failed_round :: "('s \<Rightarrow> string option \<times> 's) \<Rightarrow> ('s \<Rightarrow> bool \<times> 's) \<Rightarrow> 's \<Rightarrow> nat \<Rightarrow> bool" where
  "failed_round probe tick s k \<longleftrightarrow> fst (probe (at_round probe tick s k)) \<noteq> None"

definition cancelled_after :: "('s \<Rightarrow> string option \<times> 's) \<Rightarrow> ('s \<Rightarrow> bool \<times> 's) \<Rightarrow> 's \<Rightarrow> nat \<Rightarrow> bool" where
  "cancelled_after probe tick s k \<longleftrightarrow> fst (tick (snd (probe (at_round probe tick s k))))"

text \<open>The last \<open>F\<close> rounds up to round \<open>k\<close> failed.\<close>

definition threshold_at :: "int \<Rightarrow> ('s \<Rightarrow> string option \<times> 's) \<Rightarrow> ('s \<Rightarrow> bool \<times> 's) \<Rightarrow> 's \<Rightarrow> nat \<Rightarrow> bool" where
  "threshold_at F probe tick s k \<longleftrightarrow> F \<le> int k + 1 \<and> (\<forall>i \<le> k. int k - F < int i \<longrightarrow> failed_round probe tick s i)"

text \<open>The failures the loop has counted before a round.\<close>

fun streak :: "('s \<Rightarrow> string option \<times> 's) \<Rightarrow> ('s \<Rightarrow> bool \<times> 's) \<Rightarrow> 's \<Rightarrow> nat \<Rightarrow> int" where
  "streak probe tick s 0 = 0"
| "streak probe tick s (Suc k) = (if failed_round probe tick s k then streak probe tick s k + 1 else 0)"

lemma streak_bounds: "0 \<le> streak probe tick s k" "streak probe tick s k \<le> int k"
  by (induction k) auto

lemma streak_failed: "i < k \<Longrightarrow> int k - int i \<le> streak probe tick s k \<Longrightarrow> failed_round probe tick s i"
  by (induction k) (auto simp: less_Suc_eq split: if_splits)

lemma streak_least: "streak probe tick s k < int k \<Longrightarrow> \<not> failed_round probe tick s (k - 1 - nat (streak probe tick s k))"
proof (induction k)
  case (Suc k)
  then show ?case
    using streak_bounds(1) [of probe tick s k] by (auto simp: nat_add_distrib split: if_splits)
qed simp

lemma threshold_at_streak:
  assumes "0 < F"
  shows "threshold_at F probe tick s k \<longleftrightarrow> F \<le> streak probe tick s (Suc k)"
proof
  assume t: "threshold_at F probe tick s k"
  show "F \<le> streak probe tick s (Suc k)"
  proof (rule ccontr)
    let ?n = "streak probe tick s (Suc k)"
    assume "\<not> F \<le> ?n"
    then have n: "0 \<le> ?n" "?n < F" "?n < int (Suc k)"
      using streak_bounds(1) [of probe tick s "Suc k"] t by (auto simp: threshold_at_def)
    have "failed_round probe tick s (k - nat ?n)"
      using t n by (auto simp: threshold_at_def simp del: streak.simps)
    then show False using streak_least [OF n(3)] by simp
  qed
next
  assume F: "F \<le> streak probe tick s (Suc k)"
  then have "F \<le> int k + 1" using streak_bounds(2) [of probe tick s "Suc k"] by simp
  then show "threshold_at F probe tick s k"
    using F streak_failed [of _ "Suc k" probe tick s] by (auto simp: threshold_at_def simp del: streak.simps)
qed

lemma run_actions_reconnect:
  "fst (run_actions env cfg iface target sizes failures err actions b s) \<longleftrightarrow> b \<or> ''reconnect'' \<in> set actions"
  by (induction actions arbitrary: b s) auto

lemma health_round_cases:
  assumes "''reconnect'' \<in> set (hc_actions cfg)" "probeAllSizes env cfg iface target sizes s = (r, s1)"
  shows "health_round env cfg iface target sizes n s = (case r of
      None \<Rightarrow> (Inr 0, s1)
    | Some err \<Rightarrow> if hc_failures cfg \<le> n + 1
        then (Inl (Unhealthy (n + 1) err), snd (runFailureActions env cfg iface target sizes (n + 1) err s1))
        else (Inr (n + 1), s1))"
proof (cases r)
  case (Some err)
  obtain b s2 where act: "runFailureActions env cfg iface target sizes (n + 1) err s1 = (b, s2)" by force
  then have b using run_actions_reconnect [of env cfg iface target sizes "n + 1" err "hc_actions cfg" False s1] assms(1)
    by (simp add: runFailureActions_def)
  then show ?thesis using assms(2) Some act by (simp add: health_round_def)
qed (simp add: health_round_def assms(2))

text \<open>Round \<open>k\<close> of the loop, and one unfolding of the loop there.\<close>

lemma health_round_at:
  fixes env :: "'s hc_env" and cfg iface target sizes
  defines "probe \<equiv> probeAllSizes env cfg iface target sizes" and "tick \<equiv> hc_tick env"
  assumes "''reconnect'' \<in> set (hc_actions cfg)" "0 < hc_failures cfg"
  shows "threshold_at (hc_failures cfg) probe tick s k \<Longrightarrow>
      \<exists>e s'. health_round env cfg iface target sizes (streak probe tick s k) (at_round probe tick s k) = (Inl e, s')"
    "\<not> threshold_at (hc_failures cfg) probe tick s k \<Longrightarrow>
      health_round env cfg iface target sizes (streak probe tick s k) (at_round probe tick s k) =
        (Inr (streak probe tick s (Suc k)), snd (probe (at_round probe tick s k)))"
proof -
  obtain r s1 where p: "probe (at_round probe tick s k) = (r, s1)" by force
  note round = health_round_cases [OF assms(3) p [unfolded probe_def], folded probe_def, of "streak probe tick s k"]
  note facts = failed_round_def threshold_at_streak [OF assms(4)]
  show "threshold_at (hc_failures cfg) probe tick s k \<Longrightarrow>
      \<exists>e s'. health_round env cfg iface target sizes (streak probe tick s k) (at_round probe tick s k) = (Inl e, s')"
    using round p assms(4) by (auto simp: facts split: option.splits if_splits)
  show "\<not> threshold_at (hc_failures cfg) probe tick s k \<Longrightarrow>
      health_round env cfg iface target sizes (streak probe tick s k) (at_round probe tick s k) =
        (Inr (streak probe tick s (Suc k)), snd (probe (at_round probe tick s k)))"
    using round p assms(4) by (auto simp: facts split: option.splits if_splits)
qed

lemma health_loop_round:
  fixes env :: "'s hc_env" and cfg iface target sizes
  defines "probe \<equiv> probeAllSizes env cfg iface target sizes" and "tick \<equiv> hc_tick env"
  assumes "''reconnect'' \<in> set (hc_actions cfg)" "0 < hc_failures cfg"
  shows "threshold_at (hc_failures cfg) probe tick s k \<Longrightarrow>
      \<exists>e s'. health_loop env cfg iface target sizes (streak probe tick s k) (at_round probe tick s k) = Some (Some e, s')"
    "\<not> threshold_at (hc_failures cfg) probe tick s k \<Longrightarrow>
      health_loop env cfg iface target sizes (streak probe tick s k) (at_round probe tick s k) =
        (if cancelled_after probe tick s k then Some (None, at_round probe tick s (Suc k))
         else health_loop env cfg iface target sizes (streak probe tick s (Suc k)) (at_round probe tick s (Suc k)))"
  using health_round_at [OF assms(3,4), of env iface target sizes s k, folded probe_def tick_def]
  by (subst health_loop.simps, auto simp: cancelled_after_def tick_def split: prod.splits)+

text \<open>The end of a loop that has reached round \<open>k\<close>.\<close>

definition ends_at :: "int \<Rightarrow> ('s \<Rightarrow> string option \<times> 's) \<Rightarrow> ('s \<Rightarrow> bool \<times> 's) \<Rightarrow> 's \<Rightarrow> nat \<Rightarrow> bool \<Rightarrow> bool" where
  "ends_at F probe tick s n unhealthy \<longleftrightarrow>
     (if unhealthy then threshold_at F probe tick s n
      else cancelled_after probe tick s n \<and> \<not> threshold_at F probe tick s n) \<and>
     (\<forall>j < n. \<not> threshold_at F probe tick s j \<and> \<not> cancelled_after probe tick s j)"

lemma health_loop_reaches:
  fixes env :: "'s hc_env" and cfg iface target sizes
  defines "probe \<equiv> probeAllSizes env cfg iface target sizes" and "tick \<equiv> hc_tick env"
  assumes "''reconnect'' \<in> set (hc_actions cfg)" "0 < hc_failures cfg"
    "\<forall>j < n. \<not> threshold_at (hc_failures cfg) probe tick s j \<and> \<not> cancelled_after probe tick s j"
  shows "health_loop env cfg iface target sizes 0 s =
    health_loop env cfg iface target sizes (streak probe tick s n) (at_round probe tick s n)"
  using assms(5)
proof (induction n)
  case (Suc n)
  then show ?case
    using health_loop_round(2) [OF assms(3,4), of env iface target sizes s n, folded probe_def tick_def] by simp
qed simp

definition event_from :: "'s hc_env \<Rightarrow> health_check \<Rightarrow> string \<Rightarrow> addr \<Rightarrow> int list \<Rightarrow> 's \<Rightarrow> nat \<Rightarrow> bool" where
  "event_from env cfg iface target sizes s k \<longleftrightarrow> (\<exists>n \<ge> k.
     threshold_at (hc_failures cfg) (probeAllSizes env cfg iface target sizes) (hc_tick env) s n \<or>
     cancelled_after (probeAllSizes env cfg iface target sizes) (hc_tick env) s n)"

lemma health_loop_ends:
  assumes "health_loop env cfg iface target sizes f t = Some r"
    "''reconnect'' \<in> set (hc_actions cfg)" "0 < hc_failures cfg"
    "f = streak (probeAllSizes env cfg iface target sizes) (hc_tick env) s k"
    "t = at_round (probeAllSizes env cfg iface target sizes) (hc_tick env) s k"
  shows "event_from env cfg iface target sizes s k"
proof -
  let ?P = "\<lambda>env cfg iface target sizes f t r. ''reconnect'' \<in> set (hc_actions cfg) \<and> 0 < hc_failures cfg \<longrightarrow>
    (\<forall>k. f = streak (probeAllSizes env cfg iface target sizes) (hc_tick env) s k \<and>
       t = at_round (probeAllSizes env cfg iface target sizes) (hc_tick env) s k \<longrightarrow> event_from env cfg iface target sizes s k)"
  have "?P env cfg iface target sizes f t r"
  proof (rule health_loop.raw_induct [where P = ?P, OF _ assms(1)], intro impI allI, goal_cases)
    case (1 loop env cfg iface target sizes f t r k)
    let ?p = "probeAllSizes env cfg iface target sizes" and ?t = "hc_tick env"
    show ?case
    proof (cases "threshold_at (hc_failures cfg) ?p ?t s k \<or> cancelled_after ?p ?t s k")
      case False
      then have "loop env cfg iface target sizes (streak ?p ?t s (Suc k)) (at_round ?p ?t s (Suc k)) = Some r"
        using 1(2-4) health_round_at(2) [of cfg env iface target sizes s k]
        by (auto simp: cancelled_after_def split: prod.splits)
      from 1(1) [OF this] 1(3) have "event_from env cfg iface target sizes s (Suc k)" by blast
      then show ?thesis unfolding event_from_def by (meson Suc_leD)
    qed (auto simp: event_from_def)
  qed
  then show ?thesis using assms(2-5) by blast
qed

text \<open>The first event decides: the threshold, or a cancellation without it.\<close>

lemma first_event:
  assumes "event_from env cfg iface target sizes s 0"
  shows "\<exists>n b. ends_at (hc_failures cfg) (probeAllSizes env cfg iface target sizes) (hc_tick env) s n b"
proof -
  let ?e = "\<lambda>n. threshold_at (hc_failures cfg) (probeAllSizes env cfg iface target sizes) (hc_tick env) s n \<or>
     cancelled_after (probeAllSizes env cfg iface target sizes) (hc_tick env) s n"
  obtain n where "?e n" "\<forall>j < n. \<not> ?e j"
    using assms exists_least_iff [of ?e] by (auto simp: event_from_def)
  then show ?thesis unfolding ends_at_def by (intro exI [of _ n] exI [of _ "threshold_at (hc_failures cfg) (probeAllSizes env cfg iface target sizes) (hc_tick env) s n"]) auto
qed

lemma ends_at_result:
  assumes "''reconnect'' \<in> set (hc_actions cfg)" "0 < hc_failures cfg"
    "ends_at (hc_failures cfg) (probeAllSizes env cfg iface target sizes) (hc_tick env) s n b"
  shows "\<exists>r s'. health_loop env cfg iface target sizes 0 s = Some (r, s') \<and> (r \<noteq> None \<longleftrightarrow> b)"
  using assms(3) health_loop_reaches [OF assms(1,2), where n = n and env = env and iface = iface and target = target and sizes = sizes and s = s]
    health_loop_round [OF assms(1,2), of env iface target sizes s n]
  by (cases b) (auto simp: ends_at_def)

lemma ends_at_unique:
  assumes "ends_at F probe tick s n b" "ends_at F probe tick s n' b'"
  shows "n = n' \<and> b = b'"
proof -
  have "\<not> n < n'" "\<not> n' < n" using assms by (auto simp: ends_at_def split: if_splits)
  then show ?thesis using assms by (auto simp: ends_at_def split: if_splits)
qed

lemma no_reconnect_no_error:
  assumes "health_loop env cfg iface target sizes f t = Some (r, s')" "''reconnect'' \<notin> set (hc_actions cfg)"
  shows "r = None"
proof -
  let ?P = "\<lambda>env cfg iface target sizes f t (y :: health_error option \<times> 'a). ''reconnect'' \<notin> set (hc_actions cfg) \<longrightarrow> fst y = None"
  have "?P env cfg iface target sizes f t (r, s')"
  proof (rule health_loop.raw_induct [where P = ?P, OF _ assms(1)], intro impI, goal_cases)
    case (1 loop env cfg iface target sizes f t y)
    have "\<not> fst (runFailureActions env cfg iface target sizes n err u)" for n err u
      using 1(3) by (simp add: runFailureActions_def run_actions_reconnect)
    then have "\<exists>n s1. health_round env cfg iface target sizes f t = (Inr n, s1)"
      by (simp add: health_round_def case_prod_unfold split: option.split bool.split)
    then obtain n s1 where "health_round env cfg iface target sizes f t = (Inr n, s1)" by blast
    moreover obtain c s2 where "hc_tick env s1 = (c, s2)" by force
    ultimately show ?case using 1(1) [of env cfg iface target sizes n s2 y] 1(2,3) by (cases c) auto
  qed
  then show ?thesis using assms(2) by simp
qed


text \<open>
  A cancellation during a probe makes the probe fail; when that completes the run of failures
  the loop reports a dead tunnel and runs the actions although the context is cancelled.
\<close>

theorem cancel_reported_as_failure:
  assumes "''reconnect'' \<in> set (hc_actions cfg)" "hc_failures cfg = 1"
    "probeAllSizes env cfg iface target sizes s = (Some ''context canceled'', s1)" "fst (hc_tick env s1)"
  shows "\<exists>s'. health_loop env cfg iface target sizes 0 s = Some (Some (Unhealthy 1 ''context canceled''), s')"
  using health_round_cases [OF assms(1,3), of 0] assms(2) by (subst health_loop.simps) simp

text \<open>An environment whose pings fail in the rounds of a list, and whose context is never cancelled.\<close>

definition demo_env :: "bool list hc_env" where
  "demo_env = \<lparr>hc_environ = [], hc_run = (\<lambda>_ _ _ _ s. (if s \<noteq> [] \<and> hd s then RunOk else RunFailed None ''exit status 1'' '''', s)),
    hc_sleep = (\<lambda>_ s. (None, s)), hc_tick = (\<lambda>s. (False, tl s))\<rparr>"

definition demo_health :: health_check where
  "demo_health = \<lparr>hc_enabled = True, hc_interval = second, hc_timeout = second, hc_failures = 2, hc_actions = [''reconnect''],
    hc_script = '''', hc_target = '''', hc_packet_size = 56, hc_packet_sizes = [], hc_delay = 0, hc_large_delay = 0,
    hc_large_threshold = 0, hc_command = ''ping'', hc_bind_interface = True\<rparr>"


end
