(* ===== verification/Source.thy ===== *)
theory Source
  imports Config
begin

text \<open>
  \<^verbatim>\<open>cmd/gremlind/main.go\<close>: which local address the dialer binds to. The rules of the
  configuration are tried in order against the interfaces of the host; name resolution and the
  list of interfaces are arguments.
\<close>

record iface =
  if_name :: string
  if_up :: bool
  if_loopback :: bool
  if_addrs :: "string list option"

datatype source_error =
    BadServer string
  | ResolveFailed string
  | NoServerAddrs string
  | ListFailed
  | InvalidPrefix string string
  | NoSuchIface
  | NoSource string

section \<open>Prefixes\<close>

fun parsePrefixes :: "string \<Rightarrow> string list \<Rightarrow> (source_error, prefix list) result" where
  "parsePrefixes field [] = Inr []"
| "parsePrefixes field (s # raw) =
     (case ParsePrefix s of
        None \<Rightarrow> Inl (InvalidPrefix field s)
      | Some p \<Rightarrow> map_sum id (Cons p) (parsePrefixes field raw))"

fun includedSource :: "addr \<Rightarrow> prefix list \<Rightarrow> bool" where
  "includedSource addr includes \<longleftrightarrow> includes = [] \<or> list_ex (\<lambda>p. contains p addr) includes"

fun excludedSource :: "addr \<Rightarrow> prefix list \<Rightarrow> bool" where
  "excludedSource addr excludes \<longleftrightarrow> list_ex (\<lambda>p. contains p addr) excludes"

definition ifaceAddrIP :: "string \<Rightarrow> addr option" where
  "ifaceAddrIP raw =
     (case ParsePrefix raw of
        None \<Rightarrow> None
      | Some p \<Rightarrow>
          let a = unmap (pip p) in
          if \<not> is_valid a \<or> is_unspecified a \<or> is_multicast a \<or> is_loopback a \<or> is_link_local_unicast a
          then None else Some a)"

section \<open>One rule\<close>

text \<open>
  The families a rule allows, as a function of \<^verbatim>\<open>Is6\<close>: those of the server addresses that the
  rule applies to, less the one its \<^verbatim>\<open>family\<close> rules out.
\<close>

definition sourceRuleFamilies :: "addr list \<Rightarrow> source_rule \<Rightarrow> (source_error, (bool \<Rightarrow> bool) \<times> bool) result" where
  "sourceRuleFamilies serverAddrs rule =
     (case parsePrefixes ''match_server_subnets'' (sr_match rule) of
        Inl e \<Rightarrow> Inl e
      | Inr serverMatches \<Rightarrow>
          (case parsePrefixes ''exclude_subnets'' (sr_exclude rule) of
             Inl e \<Rightarrow> Inl e
           | Inr excludes \<Rightarrow>
               let matched = filter (\<lambda>a. includedSource a serverMatches \<and> \<not> excludedSource a excludes) serverAddrs;
                   families = (\<lambda>six. six \<in> set (map is6 matched) \<and>
                     \<not> (sr_family rule = ''ipv4'' \<and> six) \<and> \<not> (sr_family rule = ''ipv6'' \<and> \<not> six))
               in Inr (families, families False \<or> families True)))"

text \<open>\<^verbatim>\<open>strings.TrimSpace\<close> on ASCII text.\<close>

definition ascii_space :: "char \<Rightarrow> bool" where
  "ascii_space c \<longleftrightarrow> c = CHR '' '' \<or> (9 \<le> (of_char c :: nat) \<and> of_char c \<le> (13 :: nat))"

definition TrimSpace :: "string \<Rightarrow> string" where
  "TrimSpace s = rev (dropWhile ascii_space (rev (dropWhile ascii_space s)))"

definition allowed_ifaces :: "source_rule \<Rightarrow> string list" where
  "allowed_ifaces rule = filter (\<lambda>n. n \<noteq> '''') (map TrimSpace (sr_ifaces rule))"

definition usable_iface :: "string list \<Rightarrow> iface \<Rightarrow> bool" where
  "usable_iface allowed i \<longleftrightarrow> (allowed = [] \<or> if_name i \<in> set allowed) \<and> if_up i \<and> \<not> if_loopback i"

definition source_ok :: "(bool \<Rightarrow> bool) \<Rightarrow> prefix list \<Rightarrow> prefix list \<Rightarrow> addr \<Rightarrow> bool" where
  "source_ok families includes excludes a \<longleftrightarrow>
     families (is6 a) \<and> includedSource a includes \<and> \<not> excludedSource a excludes"

text \<open>The first address that qualifies, interface by interface.\<close>

fun first_source :: "string list \<Rightarrow> (addr \<Rightarrow> bool) \<Rightarrow> iface list \<Rightarrow> addr option" where
  "first_source allowed ok [] = None"
| "first_source allowed ok (i # is) =
     (case (if usable_iface allowed i
            then case if_addrs i of
                None \<Rightarrow> None
              | Some raws \<Rightarrow> find ok (List.map_filter ifaceAddrIP raws)
            else None) of
        Some a \<Rightarrow> Some a
      | None \<Rightarrow> first_source allowed ok is)"

definition chooseSourceAddressFromRule :: "iface list \<Rightarrow> addr list \<Rightarrow> source_rule \<Rightarrow> (source_error, addr) result" where
  "chooseSourceAddressFromRule ifaces serverAddrs rule =
     (case sourceRuleFamilies serverAddrs rule of
        Inl e \<Rightarrow> Inl e
      | Inr (families, applies) \<Rightarrow>
          if \<not> applies then Inr AddrZero
          else case parsePrefixes ''include_subnets'' (sr_include rule) of
            Inl e \<Rightarrow> Inl e
          | Inr includes \<Rightarrow>
              (case parsePrefixes ''exclude_subnets'' (sr_exclude rule) of
                 Inl e \<Rightarrow> Inl e
               | Inr excludes \<Rightarrow>
                   let allowed = allowed_ifaces rule in
                   case first_source allowed (source_ok families includes excludes) ifaces of
                     Some a \<Rightarrow> Inr a
                   | None \<Rightarrow> if set allowed \<subseteq> set (map if_name ifaces) then Inr AddrZero else Inl NoSuchIface))"

section \<open>All rules\<close>

fun try_rules :: "iface list \<Rightarrow> addr list \<Rightarrow> source_rule list \<Rightarrow> (source_error, addr) result" where
  "try_rules ifaces servers [] = Inr AddrZero"
| "try_rules ifaces servers (rule # rules) =
     (case chooseSourceAddressFromRule ifaces servers rule of
        Inl e \<Rightarrow> Inl e
      | Inr a \<Rightarrow> if is_valid a then Inr a else try_rules ifaces servers rules)"

definition resolveServerAddrs :: "(string \<Rightarrow> addr list option) \<Rightarrow> string \<Rightarrow> (source_error, addr list) result" where
  "resolveServerAddrs lookup server =
     (case SplitHostPort server of
        None \<Rightarrow> Inl (BadServer server)
      | Some (host, port) \<Rightarrow>
          (case ParseAddr host of
             Some ip \<Rightarrow> Inr [unmap ip]
           | None \<Rightarrow>
               (case lookup host of
                  None \<Rightarrow> Inl (ResolveFailed host)
                | Some [] \<Rightarrow> Inl (NoServerAddrs host)
                | Some ips \<Rightarrow> Inr (map unmap ips))))"

definition chooseSourceAddress ::
  "(string \<Rightarrow> addr list option) \<Rightarrow> iface list option \<Rightarrow> string \<Rightarrow> source_rule list \<Rightarrow> string \<Rightarrow> (source_error, addr) result" where
  "chooseSourceAddress lookup interfaces server rules fallback =
     (if rules = [] then Inr AddrZero
      else case resolveServerAddrs lookup server of
        Inl e \<Rightarrow> Inl e
      | Inr serverAddrs \<Rightarrow>
          (case interfaces of
             None \<Rightarrow> Inl ListFailed
           | Some ifaces \<Rightarrow>
               (case try_rules ifaces serverAddrs rules of
                  Inl e \<Rightarrow> Inl e
                | Inr a \<Rightarrow> if is_valid a then Inr a
                    else if fallback = ''kernel'' then Inr AddrZero else Inl (NoSource server))))"

section \<open>What is chosen\<close>

text \<open>
  An address qualifies under a rule: it is a usable address of an interface the rule allows
  that is up and not a loopback, in the included and not in the excluded subnets, and of the
  family of a server address the rule applies to.
\<close>

definition within :: "addr \<Rightarrow> string list \<Rightarrow> bool" where
  "within a raw \<longleftrightarrow> (\<exists>s \<in> set raw. \<exists>p. ParsePrefix s = Some p \<and> contains p a)"

definition qualifies :: "iface list \<Rightarrow> addr list \<Rightarrow> source_rule \<Rightarrow> addr \<Rightarrow> bool" where
  "qualifies ifaces servers rule a \<longleftrightarrow>
     (\<exists>i \<in> set ifaces. usable_iface (allowed_ifaces rule) i \<and>
        (\<exists>raws raw. if_addrs i = Some raws \<and> raw \<in> set raws \<and> ifaceAddrIP raw = Some a)) \<and>
     (sr_include rule = [] \<or> within a (sr_include rule)) \<and> \<not> within a (sr_exclude rule) \<and>
     (\<exists>sv \<in> set servers. is6 sv = is6 a \<and> (sr_match rule = [] \<or> within sv (sr_match rule)) \<and> \<not> within sv (sr_exclude rule)) \<and>
     (sr_family rule = ''ipv4'' \<longrightarrow> \<not> is6 a) \<and> (sr_family rule = ''ipv6'' \<longrightarrow> is6 a)"

lemma parsePrefixes_ok:
  "parsePrefixes field raw = Inr ps \<Longrightarrow>
     (includedSource a ps \<longleftrightarrow> raw = [] \<or> within a raw) \<and> (excludedSource a ps \<longleftrightarrow> within a raw)"
proof (induction raw arbitrary: ps)
  case (Cons s raw)
  then obtain p qs where p: "ParsePrefix s = Some p" "parsePrefixes field raw = Inr qs" "ps = p # qs"
    by (auto split: option.splits sum.splits simp: map_sum_def)
  then show ?case using Cons.IH [OF p(2)] by (auto simp: within_def)
qed (auto simp: within_def)

lemma first_source_cases:
  "case first_source allowed ok ifaces of
     Some a \<Rightarrow> ok a \<and> (\<exists>i \<in> set ifaces. usable_iface allowed i \<and>
       (\<exists>raws raw. if_addrs i = Some raws \<and> raw \<in> set raws \<and> ifaceAddrIP raw = Some a))
   | None \<Rightarrow> \<forall>i \<in> set ifaces. \<forall>raws raw a. usable_iface allowed i \<and> if_addrs i = Some raws \<and> raw \<in> set raws \<and>
       ifaceAddrIP raw = Some a \<longrightarrow> \<not> ok a"
proof (induction ifaces)
  case (Cons i ifaces)
  show ?case
  proof (cases "usable_iface allowed i \<and> (\<exists>raws. if_addrs i = Some raws)")
    case True
    then obtain raws where raws: "usable_iface allowed i" "if_addrs i = Some raws" by blast
    have mem: "a \<in> set (List.map_filter ifaceAddrIP raws) \<longleftrightarrow> (\<exists>raw \<in> set raws. ifaceAddrIP raw = Some a)" for a
      by (induction raws) (auto simp: List.map_filter_simps split: option.splits)
    show ?thesis
    proof (cases "find ok (List.map_filter ifaceAddrIP raws)")
      case None
      then have "\<forall>raw \<in> set raws. \<forall>a. ifaceAddrIP raw = Some a \<longrightarrow> \<not> ok a" using mem by (auto simp: find_None_iff)
      then show ?thesis using Cons.IH raws None by (auto split: option.splits)
    next
      case (Some a)
      then have "ok a" "a \<in> set (List.map_filter ifaceAddrIP raws)" by (auto simp: find_Some_iff)
      then show ?thesis using raws Some mem by auto
    qed
  qed (use Cons.IH in \<open>auto split: option.splits\<close>)
qed simp

lemma sourceRuleFamilies_ok:
  assumes "sourceRuleFamilies servers rule = Inr (families, applies)"
  shows "families six \<longleftrightarrow>
      (\<exists>sv \<in> set servers. is6 sv = six \<and> (sr_match rule = [] \<or> within sv (sr_match rule)) \<and> \<not> within sv (sr_exclude rule)) \<and>
      (sr_family rule = ''ipv4'' \<longrightarrow> \<not> six) \<and> (sr_family rule = ''ipv6'' \<longrightarrow> six)"
    "applies \<longleftrightarrow> families False \<or> families True"
proof -
  obtain sm exc where ps: "parsePrefixes ''match_server_subnets'' (sr_match rule) = Inr sm"
    "parsePrefixes ''exclude_subnets'' (sr_exclude rule) = Inr exc"
    using assms by (auto simp: sourceRuleFamilies_def split: sum.splits)
  have f: "families = (\<lambda>six. six \<in> set (map is6 (filter (\<lambda>a. includedSource a sm \<and> \<not> excludedSource a exc) servers)) \<and>
      \<not> (sr_family rule = ''ipv4'' \<and> six) \<and> \<not> (sr_family rule = ''ipv6'' \<and> \<not> six))"
    and ap: "applies \<longleftrightarrow> families False \<or> families True"
    using assms ps unfolding sourceRuleFamilies_def Let_def by (simp_all only: sum.case prod.inject sum.inject) blast
  show "families six \<longleftrightarrow>
      (\<exists>sv \<in> set servers. is6 sv = six \<and> (sr_match rule = [] \<or> within sv (sr_match rule)) \<and> \<not> within sv (sr_exclude rule)) \<and>
      (sr_family rule = ''ipv4'' \<longrightarrow> \<not> six) \<and> (sr_family rule = ''ipv6'' \<longrightarrow> six)"
    unfolding f using parsePrefixes_ok [OF ps(1)] parsePrefixes_ok [OF ps(2)] by (simp only: set_map set_filter) blast
  show "applies \<longleftrightarrow> families False \<or> families True" by (rule ap)
qed

lemma ifaceAddrIP_valid: "ifaceAddrIP raw = Some a \<Longrightarrow> is_valid a"
  by (auto simp: ifaceAddrIP_def Let_def split: option.splits if_splits)

lemma rule_choice:
  assumes "chooseSourceAddressFromRule ifaces servers rule = Inr a"
  shows "if is_valid a then qualifies ifaces servers rule a else a = AddrZero \<and> (\<forall>b. \<not> qualifies ifaces servers rule b)"
proof -
  obtain families applies where fam: "sourceRuleFamilies servers rule = Inr (families, applies)"
    using assms by (auto simp: chooseSourceAddressFromRule_def split: sum.splits)
  note famD = sourceRuleFamilies_ok [OF fam]
  show ?thesis
  proof (cases applies)
    case False
    then have "\<not> families (is6 b)" for b using famD(2) by (cases "is6 b") auto
    then have "\<forall>b. \<not> qualifies ifaces servers rule b" using famD(1) by (auto simp: qualifies_def)
    then show ?thesis using assms fam False by (simp add: chooseSourceAddressFromRule_def)
  next
    case True
    obtain inc exc where ps: "parsePrefixes ''include_subnets'' (sr_include rule) = Inr inc"
      "parsePrefixes ''exclude_subnets'' (sr_exclude rule) = Inr exc"
      using assms fam True by (auto simp: chooseSourceAddressFromRule_def split: sum.splits)
    have q: "qualifies ifaces servers rule b \<longleftrightarrow> source_ok families inc exc b \<and>
      (\<exists>i \<in> set ifaces. usable_iface (allowed_ifaces rule) i \<and>
        (\<exists>raws raw. if_addrs i = Some raws \<and> raw \<in> set raws \<and> ifaceAddrIP raw = Some b))" for b
      using parsePrefixes_ok [OF ps(1), of b] parsePrefixes_ok [OF ps(2), of b] famD(1) [of "is6 b"]
      by (simp only: qualifies_def source_ok_def) blast
    note first = first_source_cases [where allowed = "allowed_ifaces rule" and ok = "source_ok families inc exc" and ifaces = ifaces]
    show ?thesis
    proof (cases "first_source (allowed_ifaces rule) (source_ok families inc exc) ifaces")
      case None
      then have "\<forall>b. \<not> qualifies ifaces servers rule b" using first q by auto
      moreover have "a = AddrZero" using assms fam True ps None
        by (auto simp: chooseSourceAddressFromRule_def Let_def split: if_splits)
      ultimately show ?thesis by simp
    next
      case (Some b)
      then have "qualifies ifaces servers rule b" "is_valid b" using first q by (auto dest: ifaceAddrIP_valid)
      moreover have "a = b" using assms fam True ps Some by (simp add: chooseSourceAddressFromRule_def)
      ultimately show ?thesis by simp
    qed
  qed
qed

lemma try_rules_choice:
  assumes "try_rules ifaces servers rules = Inr a"
  shows "if is_valid a then \<exists>k < length rules. qualifies ifaces servers (rules ! k) a \<and>
      (\<forall>j < k. \<forall>b. \<not> qualifies ifaces servers (rules ! j) b)
    else a = AddrZero \<and> (\<forall>rule \<in> set rules. \<forall>b. \<not> qualifies ifaces servers rule b)"
  using assms
proof (induction rules)
  case (Cons rule rules)
  then obtain b where b: "chooseSourceAddressFromRule ifaces servers rule = Inr b" by (auto split: sum.splits)
  show ?case
  proof (cases "is_valid b")
    case True
    then show ?thesis using b Cons.prems rule_choice [OF b] by (auto intro!: exI [of _ 0])
  next
    case False
    then have none: "\<forall>x. \<not> qualifies ifaces servers rule x" and rest: "try_rules ifaces servers rules = Inr a"
      using b Cons.prems rule_choice [OF b] by auto
    show ?thesis
    proof (cases "is_valid a")
      case True
      then obtain k where "k < length rules" "qualifies ifaces servers (rules ! k) a"
        "\<forall>j < k. \<forall>b. \<not> qualifies ifaces servers (rules ! j) b" using Cons.IH [OF rest] by auto
      then show ?thesis using True none by (auto simp: nth_Cons' intro!: exI [of _ "Suc k"])
    next
      case False
      then show ?thesis using Cons.IH [OF rest] none by simp
    qed
  qed
qed simp

text \<open>
  C29. When source rules are configured, the address the dialer binds to qualifies under the
  first rule under which any address does: on an allowed interface that is up and no loopback,
  in the included subnets and outside the excluded ones, of the family of a server address the
  rule applies to. The kernel's choice is left only when the fallback says so and no address
  qualifies under any rule; without that fallback the dial fails instead.
\<close>

theorem source_selection:
  assumes "rules \<noteq> []" "resolveServerAddrs lookup server = Inr servers" "interfaces = Some ifaces"
    "\<forall>rule \<in> set rules. \<forall>e. chooseSourceAddressFromRule ifaces servers rule \<noteq> Inl e"
  shows "case chooseSourceAddress lookup interfaces server rules fallback of
      Inr a \<Rightarrow> (\<exists>k < length rules. is_valid a \<and> qualifies ifaces servers (rules ! k) a \<and>
          (\<forall>j < k. \<forall>b. \<not> qualifies ifaces servers (rules ! j) b)) \<or>
        a = AddrZero \<and> fallback = ''kernel'' \<and> (\<forall>rule \<in> set rules. \<forall>b. \<not> qualifies ifaces servers rule b)
    | Inl e \<Rightarrow> e = NoSource server \<and> fallback \<noteq> ''kernel'' \<and> (\<forall>rule \<in> set rules. \<forall>b. \<not> qualifies ifaces servers rule b)"
proof -
  have "\<exists>a. try_rules ifaces servers rules = Inr a"
    using assms(4)
  proof (induction rules)
    case (Cons rule rules)
    then obtain b where "chooseSourceAddressFromRule ifaces servers rule = Inr b"
      by (cases "chooseSourceAddressFromRule ifaces servers rule") auto
    then show ?case using Cons by auto
  qed simp
  then obtain a where a: "try_rules ifaces servers rules = Inr a" by blast
  show ?thesis
    using try_rules_choice [OF a] a assms(1-3)
    by (cases "is_valid a"; cases "fallback = ''kernel''") (auto simp: chooseSourceAddress_def)
qed

definition demo_ifaces :: "iface list" where
  "demo_ifaces = [\<lparr>if_name = ''lo'', if_up = True, if_loopback = True, if_addrs = Some [''127.0.0.1/8'']\<rparr>,
    \<lparr>if_name = ''eth0'', if_up = True, if_loopback = False, if_addrs = Some [''169.254.1.1/16'', ''192.0.2.9/24'']\<rparr>]"

definition demo_rule :: source_rule where
  "demo_rule = \<lparr>sr_ifaces = ['' eth0''], sr_family = ''ipv4'', sr_match = [], sr_include = [''192.0.2.0/24''], sr_exclude = []\<rparr>"

theorem source_selection_witness:
  "\<exists>k < length [demo_rule]. is_valid (V4 0xC0000209) \<and>
     qualifies demo_ifaces [V4 0xC6336401] ([demo_rule] ! k) (V4 0xC0000209)"
proof -
  have r: "resolveServerAddrs (\<lambda>_. None) ''198.51.100.1:4747'' = Inr [V4 0xC6336401]"
    "chooseSourceAddressFromRule demo_ifaces [V4 0xC6336401] demo_rule = Inr (V4 0xC0000209)"
    "chooseSourceAddress (\<lambda>_. None) (Some demo_ifaces) ''198.51.100.1:4747'' [demo_rule] ''fail'' = Inr (V4 0xC0000209)"
    by code_simp+
  show ?thesis
    using source_selection [of "[demo_rule]" "\<lambda>_. None" "''198.51.100.1:4747''" "[V4 0xC6336401]" "Some demo_ifaces" demo_ifaces "''fail''"] r
    by simp
qed

end
