(* ===== verification/Dialer.thy ===== *)
theory Dialer
  imports Source Health Handshake Session_Props
begin

text \<open>
  The dialer of \<^verbatim>\<open>cmd/gremlind/main.go\<close>: one connect, session and keepalive cycle
  (\<^verbatim>\<open>dialOnce\<close>) and the loop that reconnects with backoff (\<^verbatim>\<open>runDialer\<close>). The source address
  comes from theory \<^verbatim>\<open>Source\<close>, the handshake from theory \<^verbatim>\<open>Client\<close>; what the operating
  system and the other packages answer is an argument, and the calls to the data-plane are
  events in order, as for the session manager.
\<close>

section \<open>Inputs of the subcommand\<close>

fun pick :: "string list \<Rightarrow> string" where
  "pick [] = ''''"
| "pick (v # vals) = (if v \<noteq> '''' then v else pick vals)"

definition secretFromInputs :: "(string \<Rightarrow> string) \<Rightarrow> string \<Rightarrow> string \<Rightarrow> config \<Rightarrow> string" where
  "secretFromInputs getenv secretFlag secretEnv cfg =
     (if secretFlag \<noteq> '''' then secretFlag
      else if secretEnv \<noteq> '''' \<and> getenv secretEnv \<noteq> '''' then getenv secretEnv
      else pick [cc_secret (c_client cfg), c_psk cfg])"

datatype connect_error = MissingCredentials | NameTooLong string | FouFailed string

record connect_flags =
  cf_id :: string
  cf_secret :: string
  cf_secret_env :: string
  cf_iface :: string

text \<open>
  What \<^verbatim>\<open>runConnect\<close> hands to the dialer: configuration, client id, secret and interface name.
  \<open>fou\<close> is the error of opening the receive port, when one is configured.
\<close>

definition connect_inputs ::
  "(string \<Rightarrow> string) \<Rightarrow> connect_flags \<Rightarrow> config \<Rightarrow> string option \<Rightarrow> (connect_error, config \<times> string \<times> string \<times> string) result" where
  "connect_inputs getenv fl cfg0 fou =
     (let cfg = ApplyDefaults cfg0;
          clientID = pick [cf_id fl, cc_id (c_client cfg)];
          secret = secretFromInputs getenv (cf_secret fl) (cf_secret_env fl) cfg;
          ifname = pick [cf_iface fl, cc_iface (c_client cfg)]
      in if clientID = '''' \<or> secret = '''' then Inl MissingCredentials
         else if 15 < length ifname then Inl (NameTooLong ifname)
         else if c_fou_port cfg \<noteq> 0 \<and> fou \<noteq> None then Inl (FouFailed (the fou))
         else Inr (cfg, clientID, secret, ifname))"

section \<open>One cycle\<close>

definition tcpAddrIP :: "net_addr \<Rightarrow> addr" where
  "tcpAddrIP a =
     (case a of
        TCPAddr ip \<Rightarrow> (case addr_from_slice ip of Some x \<Rightarrow> unmap x | None \<Rightarrow> AddrZero)
      | OtherAddr _ \<Rightarrow> AddrZero)"

text \<open>The end of the loops of a session: which goroutine ends first, and how.\<close>

datatype loop_end = KeepaliveEnds keepalive_end | HealthEnds "health_error option"

text \<open>
  What the environment of one cycle answers. The dial function gets the source address to bind
  to (the zero address when the kernel chooses) and gives local and remote address and the
  connection.
\<close>

record once_env =
  oe_lookup :: "string \<Rightarrow> addr list option"
  oe_ifaces :: "iface list option"
  oe_dial :: "addr \<Rightarrow> (string, net_addr \<times> net_addr \<times> conn) result"
  oe_broker_path :: "addr \<Rightarrow> addr \<Rightarrow> int option"
  oe_broker_mtu :: "addr \<Rightarrow> int option"
  oe_path :: "addr \<Rightarrow> addr \<Rightarrow> int option"
  oe_mtu :: "addr \<Rightarrow> int option"
  oe_rnd :: "bytes option"
  oe_ensure :: "string option"
  oe_clamp :: "string option"
  oe_loops :: loop_end

datatype dial_error =
    SourceFailed source_error
  | DialFailed string
  | NoLocalOuter
  | HandshakeFailed client_error
  | EnsureError string
  | ClampError string
  | KeepaliveFailed keepalive_end
  | TunnelDead health_error

definition or_1500 :: "int option \<Rightarrow> int" where
  "or_1500 m = (case m of Some v \<Rightarrow> v | None \<Rightarrow> 1500)"

definition detect_mtu :: "config \<Rightarrow> once_env \<Rightarrow> addr \<Rightarrow> addr \<Rightarrow> int" where
  "detect_mtu cfg env clientOuter serverOuter =
     (if c_netlink_socket cfg \<noteq> '''' then
        or_1500 (if is_valid serverOuter then oe_broker_path env clientOuter serverOuter else oe_broker_mtu env clientOuter)
      else if is_valid serverOuter then
        (case oe_path env clientOuter serverOuter of Some m \<Rightarrow> m | None \<Rightarrow> or_1500 (oe_mtu env clientOuter))
      else or_1500 (oe_mtu env clientOuter))"

definition keepalive_error :: "keepalive_end \<Rightarrow> dial_error option" where
  "keepalive_error k =
     (case k of Cancelled \<Rightarrow> None | ServerTeardown _ \<Rightarrow> None | _ \<Rightarrow> Some (KeepaliveFailed k))"

text \<open>With the health check disabled only the keepalive loop runs.\<close>

definition runSessionLoops :: "config \<Rightarrow> loop_end \<Rightarrow> dial_error option" where
  "runSessionLoops cfg e =
     (case e of
        KeepaliveEnds k \<Rightarrow> keepalive_error k
      | HealthEnds r \<Rightarrow> if hc_enabled (c_health cfg) then map_option TunnelDead r else None)"

definition dial_params :: "config \<Rightarrow> string \<Rightarrow> addr \<Rightarrow> client_session \<Rightarrow> gre_params" where
  "dial_params cfg ifn clientOuter ses =
     (let fou = c_fou_port cfg \<noteq> 0 in
      \<lparr>gp_name = ifn, gp_local = clientOuter, gp_remote = cs_server_outer ses,
       gp_key = (if fou then 0 else cs_grekey ses), gp_seq = (\<not> fou \<and> cs_flags ses AND TunnelFlagGRESeq \<noteq> 0),
       gp_mtu = uint (cs_mtu ses), gp_hoplimit = 0, gp_inner_local = cs_client_inner ses,
       gp_inner_peer = cs_server_inner ses, gp_linklocal = ClientLinkLocal,
       gp_fou_sport = c_fou_port cfg, gp_fou_dport = c_fou_port cfg\<rparr>)"

definition dial_hook :: "string \<Rightarrow> string \<Rightarrow> gre_params \<Rightarrow> hook_info" where
  "dial_hook ev clientID p =
     \<lparr>hk_event = ev, hk_iface = gp_name p, hk_client = clientID, hk_inner_local = gp_inner_local p,
      hk_inner_peer = gp_inner_peer p, hk_outer_local = gp_local p, hk_outer_peer = gp_remote p,
      hk_key = gp_key p, hk_mtu = gp_mtu p\<rparr>"

abbreviation "hook_evs script info \<equiv> map (\<lambda>(s, i). EvHook s i) (hook_run script info)"

text \<open>The part after the handshake: interface, clamp rules, hooks, loops, and the deferred clean-up.\<close>

definition dial_session ::
  "config \<Rightarrow> string \<Rightarrow> once_env \<Rightarrow> gre_params \<Rightarrow> dial_error option \<times> dp_event list" where
  "dial_session cfg clientID env p =
     (let clamp = mc_enabled (c_mss cfg); mon = clamp \<and> mc_monitor (c_mss cfg);
          up = EvEnsure p None # (if clamp then [EvClampApply (gp_name p) (gp_mtu p)] else [])
      in case oe_ensure env of
           Some err \<Rightarrow> (Some (EnsureError err), [EvEnsure p (Some err)])
         | None \<Rightarrow>
             if clamp \<and> oe_clamp env \<noteq> None
             then (Some (ClampError (the (oe_clamp env))), up @ [EvRemove (gp_name p)])
             else (runSessionLoops cfg (oe_loops env),
               up @ (if mon then [EvMonitorStart 0] else []) @ hook_evs (c_hook_up cfg) (dial_hook ''up'' clientID p) @
               (if mon then [EvMonitorCancel 0] else []) @
               (if clamp then [EvClampRemove (gp_name p) (gp_mtu p)] else []) @
               [EvRemove (gp_name p)] @ hook_evs (c_hook_down cfg) (dial_hook ''down'' clientID p)))"

text \<open>The assigned inner address, whether a session was established, and the error.\<close>

definition dialOnce ::
  "config \<Rightarrow> string \<Rightarrow> string \<Rightarrow> string \<Rightarrow> string \<Rightarrow> addr \<Rightarrow> once_env \<Rightarrow>
     (addr \<times> bool \<times> dial_error option) \<times> dp_event list" where
  "dialOnce cfg server clientID secret ifn requestedInner env =
     (case chooseSourceAddress (oe_lookup env) (oe_ifaces env) server (cc_rules (c_client cfg)) (cc_fallback (c_client cfg)) of
        Inl e \<Rightarrow> ((AddrZero, False, Some (SourceFailed e)), [])
      | Inr source \<Rightarrow>
          (case oe_dial env source of
             Inl e \<Rightarrow> ((AddrZero, False, Some (DialFailed e)), [])
           | Inr (localA, remoteA, conn) \<Rightarrow>
               let clientOuter = tcpAddrIP localA; serverOuter = tcpAddrIP remoteA in
               if \<not> is_valid clientOuter then ((AddrZero, False, Some NoLocalOuter), [])
               else
                 let cl = \<lparr>cl_id = clientID, cl_secret = secret,
                       cl_mtu = of_int (detect_mtu cfg env clientOuter serverOuter), cl_requested = requestedInner\<rparr>
                 in case fst (client_handshake cl (oe_rnd env) conn) of
                      Inl e \<Rightarrow> ((AddrZero, False, Some (HandshakeFailed e)), [])
                    | Inr (ses, sec) \<Rightarrow>
                        (case dial_session cfg clientID env (dial_params cfg ifn clientOuter ses) of
                           (err, evs) \<Rightarrow> ((cs_client_inner ses, True, err), evs))))"

section \<open>The loop\<close>

definition minBackoff :: int where "minBackoff = second"
definition maxBackoff :: int where "maxBackoff = 30 * second"

definition is_rejected :: "dial_error option \<Rightarrow> bool" where
  "is_rejected err = (case err of Some (HandshakeFailed (Rejected _)) \<Rightarrow> True | _ \<Rightarrow> False)"

text \<open>
  One turn of the loop: whether the context is cancelled at its start, after the cycle and
  during the wait, and the environment of the cycle. A run is observed for finitely many turns.
\<close>

record attempt =
  at_start :: bool
  at_env :: once_env
  at_after :: bool
  at_wait :: bool

datatype dial_event = Dialled addr addr bool | Data dp_event | Waits int

datatype dialer_end = Running | Stopped "dial_error option"

fun runDialer ::
  "config \<Rightarrow> string \<Rightarrow> string \<Rightarrow> string \<Rightarrow> string \<Rightarrow> attempt list \<Rightarrow> addr \<Rightarrow> int \<Rightarrow> dial_event list \<times> dialer_end" where
  "runDialer cfg server clientID secret ifn [] lastInner backoff = ([], Running)"
| "runDialer cfg server clientID secret ifn (a # as) lastInner backoff =
     (if at_start a then ([], Stopped None)
      else case dialOnce cfg server clientID secret ifn lastInner (at_env a) of
        ((inner, established, err), evs) \<Rightarrow>
          let lastInner' = (if is_valid inner then inner else lastInner);
              cycle = map Data evs @ [Dialled lastInner inner established];
              backoff' = (if established then minBackoff else backoff)
          in if at_after a then (cycle, Stopped None)
             else if is_rejected err then (cycle, Stopped err)
             else if at_wait a then (cycle @ [Waits backoff'], Stopped None)
             else (case runDialer cfg server clientID secret ifn as lastInner' (min (2 * backoff') maxBackoff) of
                     (tr, e) \<Rightarrow> (cycle @ [Waits backoff'] @ tr, e)))"

section \<open>What a run does\<close>

fun dials :: "dial_event list \<Rightarrow> (addr \<times> addr \<times> bool) list" where
  "dials [] = []"
| "dials (Dialled req inner est # tr) = (req, inner, est) # dials tr"
| "dials (_ # tr) = dials tr"

fun waits :: "dial_event list \<Rightarrow> int list" where
  "waits [] = []"
| "waits (Waits d # tr) = d # waits tr"
| "waits (_ # tr) = waits tr"

fun data :: "dial_event list \<Rightarrow> dp_event list" where
  "data [] = []"
| "data (Data ev # tr) = ev # data tr"
| "data (_ # tr) = data tr"

lemma trace_append [simp]:
  "dials (xs @ ys) = dials xs @ dials ys" "waits (xs @ ys) = waits xs @ waits ys" "data (xs @ ys) = data xs @ data ys"
proof -
  show "dials (xs @ ys) = dials xs @ dials ys" by (induction xs rule: dials.induct) simp_all
  show "waits (xs @ ys) = waits xs @ waits ys" by (induction xs rule: waits.induct) simp_all
  show "data (xs @ ys) = data xs @ data ys" by (induction xs rule: data.induct) simp_all
qed

lemma trace_data [simp]: "dials (map Data evs) = []" "waits (map Data evs) = []" "data (map Data evs) = evs"
  by (induction evs) simp_all

text \<open>
  The wait after some cycles, by whether each established a session: it doubles with each
  cycle since the last established one, or since the first, up to the limit.
\<close>

definition trailing :: "bool list \<Rightarrow> nat" where
  "trailing es = length (takeWhile Not (rev es)) - (if True \<in> set es then 0 else 1)"

definition wait_after :: "bool list \<Rightarrow> int" where
  "wait_after es = min maxBackoff (minBackoff * 2 ^ trailing es)"

definition next_backoff :: "bool list \<Rightarrow> int" where
  "next_backoff es = (if es = [] then minBackoff else min (2 * wait_after es) maxBackoff)"

text \<open>The address remembered after some cycles: the last valid one.\<close>

definition last_valid :: "addr list \<Rightarrow> addr" where
  "last_valid as = (case rev (filter is_valid as) of [] \<Rightarrow> AddrZero | a # _ \<Rightarrow> a)"

lemma last_valid_snoc: "last_valid (as @ [a]) = (if is_valid a then a else last_valid as)"
  by (simp add: last_valid_def)

lemma trailing_snoc: "trailing (es @ [e]) = (if e then 0 else if es = [] then 0 else Suc (trailing es))"
proof -
  have "es \<noteq> [] \<Longrightarrow> True \<notin> set es \<Longrightarrow> length (takeWhile Not (rev es)) = length es"
    by (metis (full_types) length_rev set_rev takeWhile_eq_all_conv)
  then show ?thesis by (cases "es = []") (auto simp: trailing_def Suc_diff_le)
qed

lemma wait_after_snoc: "wait_after (es @ [e]) = (if e then minBackoff else next_backoff es)"
  by (auto simp: wait_after_def next_backoff_def trailing_snoc minBackoff_def maxBackoff_def second_def min_def)

lemma next_backoff_snoc: "next_backoff (es @ [e]) = min (2 * (if e then minBackoff else next_backoff es)) maxBackoff"
  by (simp add: next_backoff_def [of "es @ [e]"] wait_after_snoc)

lemma runDialer_trace:
  assumes "lastInner = last_valid as" "backoff = next_backoff es" "length as = length es"
    "tr = fst (runDialer cfg server clientID secret ifn atts lastInner backoff)"
  shows "waits tr = map (\<lambda>i. wait_after (es @ map (\<lambda>d. snd (snd d)) (take (Suc i) (dials tr)))) [0..<length (waits tr)] \<and>
    map fst (dials tr) = map (\<lambda>i. last_valid (as @ map (\<lambda>d. fst (snd d)) (take i (dials tr)))) [0..<length (dials tr)]"
  using assms
proof (induction atts arbitrary: lastInner backoff as es tr)
  case (Cons a atts)
  obtain inner est err evs where once: "dialOnce cfg server clientID secret ifn lastInner (at_env a) = ((inner, est, err), evs)"
    by (metis surj_pair)
  obtain tr' e' where rest: "runDialer cfg server clientID secret ifn atts (if is_valid inner then inner else lastInner)
      (min (2 * (if est then minBackoff else backoff)) maxBackoff) = (tr', e')" by force
  have ih: "waits tr' = map (\<lambda>i. wait_after ((es @ [est]) @ map (\<lambda>d. snd (snd d)) (take (Suc i) (dials tr')))) [0..<length (waits tr')] \<and>
    map fst (dials tr') = map (\<lambda>i. last_valid ((as @ [inner]) @ map (\<lambda>d. fst (snd d)) (take i (dials tr')))) [0..<length (dials tr')]"
    by (rule Cons.IH [OF _ _ _ rest [THEN arg_cong [of _ _ fst], unfolded fst_conv, symmetric]])
      (use Cons.prems(1-3) in \<open>simp_all add: last_valid_snoc next_backoff_snoc\<close>)
  have up: "[0..<Suc n] = 0 # map Suc [0..<n]" for n by (simp add: upt_conv_Cons map_Suc_upt del: upt_Suc)
  let ?b = "if est then minBackoff else backoff"
  have b: "wait_after (es @ [est]) = ?b" using Cons.prems(2) by (simp add: wait_after_snoc)
  consider "dials tr = []" "waits tr = []"
    | "dials tr = [(lastInner, inner, est)]" "waits tr = [] \<or> waits tr = [?b]"
    | "dials tr = (lastInner, inner, est) # dials tr'" "waits tr = ?b # waits tr'"
    using Cons.prems(4) once rest
    by (cases "at_start a"; cases "at_after a"; cases "is_rejected err"; cases "at_wait a") (simp_all add: Let_def)
  then show ?case
  proof cases
    case 3
    then show ?thesis using ih b Cons.prems(1) by (simp add: up comp_def del: upt_Suc)
  qed (use b Cons.prems(1) in auto)
qed simp


lemma dp_run_flags [simp]: "dp_run ifs (if b then [EvMonitorStart n] else []) = ifs" "dp_run ifs (if b then [EvMonitorCancel n] else []) = ifs"
    "dp_run ifs (if b then [EvClampRemove x m] else []) = ifs" "dp_run ifs (if b then [EvClampApply x m] else []) = ifs"
  by (simp_all add: dp_run_def)

lemma dial_session_clean: "dp_run ifs (snd (dial_session cfg clientID env p)) = ifs - {gp_name p}"
  by (auto simp: dial_session_def Let_def split: option.splits)

lemma gp_name_dial [simp]: "gp_name (dial_params cfg ifn a ses) = ifn"
  by (simp add: dial_params_def Let_def)

lemma dialOnce_clean:
  assumes "dialOnce cfg server clientID secret ifn requested env = (r, evs)" "ifn \<notin> ifs"
  shows "dp_run ifs evs = ifs"
proof (cases "evs = []")
  case False
  then obtain a ses err where "dial_session cfg clientID env (dial_params cfg ifn a ses) = (err, evs)"
    using assms(1) by (auto simp: dialOnce_def Let_def split: sum.splits prod.splits if_splits)
  then show ?thesis
    using assms(2) dial_session_clean [of ifs cfg clientID env "dial_params cfg ifn a ses"] by simp
qed simp


text \<open>
  A connection that is lost while the client waits for the reply to its request is taken for
  a failed authentication, which is a rejection: the dialer stops although the failure is
  transient.
\<close>

theorem lost_connection_is_final:
  assumes "ValidClientID (cl_id cl)" "wplan c = []" "inbuf c = marshalPlainFrame (Challenge sn)" "length sn = NonceLen"
    "NewNonce rnd = Inr cn" "length cn = NonceLen" "zone (cl_requested cl) = ''''"
  shows "fst (client_handshake cl rnd c) = Inl (Rejected ServerAuthentication) \<and>
    is_rejected (Some (HandshakeFailed (Rejected ServerAuthentication)))"
proof -
  have "chan_ReadMessage (sec, d) = (Inl (ChanRead (ReadIO (rend d))), sec, d)" if "inbuf d = []" for sec d
    using that by (simp add: chan_ReadMessage_def ReadMessage_def read_nothing)
  then show ?thesis
    using client_challenge [OF assms(1,2) _ assms(4), of "[]" rnd] assms(3)
    by (simp add: client_auth_request [OF assms(5,6) _ assms(7)] assms(2) Let_def is_rejected_def)
qed

section \<open>Witnesses\<close>

text \<open>A cycle whose handshake is the one of the honest client, followed by a failed dial.\<close>

definition demo_once :: once_env where
  "demo_once = \<lparr>oe_lookup = (\<lambda>_. None), oe_ifaces = None,
     oe_dial = (\<lambda>_. Inr (TCPAddr [203, 0, 113, 5], TCPAddr [192, 0, 2, 1],
       idle\<lparr>inbuf := server_sends demo_client (replicate 32 5) demo_nonce srv_grant\<rparr>)),
     oe_broker_path = (\<lambda>_ _. None), oe_broker_mtu = (\<lambda>_. None), oe_path = (\<lambda>_ _. None), oe_mtu = (\<lambda>_. Some 1500),
     oe_rnd = Some demo_nonce, oe_ensure = None, oe_clamp = None, oe_loops = KeepaliveEnds (ServerTeardown ''bye'')\<rparr>"

definition demo_attempt :: attempt where
  "demo_attempt = \<lparr>at_start = False, at_env = demo_once, at_after = False, at_wait = False\<rparr>"

lemma demo_dialOnce:
  "dialOnce zero_config ''192.0.2.1:4747'' ''alice'' ''hunter2'' ''grem0'' AddrZero demo_once =
     ((V4 0x0a000002, True, None),
      snd (dial_session zero_config ''alice'' demo_once (dial_params zero_config ''grem0'' (V4 0xcb007105) (session_of srv_grant))))"
proof -
  let ?sd = "server_sends demo_client (replicate 32 5) demo_nonce srv_grant"
  have ips: "tcpAddrIP (TCPAddr [203, 0, 113, 5]) = V4 0xcb007105" "tcpAddrIP (TCPAddr [192, 0, 2, 1]) = V4 0xc0000201" by code_simp+
  have src: "chooseSourceAddress l i sv (cc_rules (c_client zero_config)) fb = Inr AddrZero" for l i sv fb
    by (simp add: chooseSourceAddress_def zero_config_def)
  have dial: "oe_dial demo_once a = Inr (TCPAddr [203, 0, 113, 5], TCPAddr [192, 0, 2, 1], idle\<lparr>inbuf := ?sd\<rparr>)"
    "oe_rnd demo_once = Some demo_nonce" for a by (simp_all add: demo_once_def)
  have "detect_mtu zero_config demo_once (V4 0xcb007105) (V4 0xc0000201) = 1500"
    by (simp add: detect_mtu_def or_1500_def zero_config_def demo_once_def)
  then have cl: "\<lparr>cl_id = ''alice'', cl_secret = ''hunter2'',
      cl_mtu = of_int (detect_mtu zero_config demo_once (V4 0xcb007105) (V4 0xc0000201)), cl_requested = AddrZero\<rparr> = demo_client"
    by (simp add: demo_client_def)
  have hs: "fst (client_handshake demo_client (Some demo_nonce) (idle\<lparr>inbuf := ?sd\<rparr>)) =
      Inr (session_of srv_grant, (client_chan (cl_secret demo_client) (cl_id demo_client) (replicate 32 5) demo_nonce)\<lparr>writeSeq := 1, readSeq := 1\<rparr>)"
    using round_client_3 [OF demo_honest] unfolding client_run_def by (simp only: fst_conv)
  have "fst (dial_session zero_config ''alice'' demo_once p) = None" for p
    by (simp add: dial_session_def demo_once_def zero_config_def runSessionLoops_def keepalive_error_def)
  moreover have "cs_client_inner (session_of srv_grant) = V4 0x0a000002" by (simp add: session_of_def srv_grant_def)
  ultimately show ?thesis
    unfolding dialOnce_def src sum.case dial prod.case ips Let_def cl hs
    by (simp add: case_prod_unfold)
qed


end
