(* ===== verification/Netlinkd.thy ===== *)
theory Netlinkd
  imports Tunnel Broker Netip_Text
begin

text \<open>
  The privileged subcommand of \<^verbatim>\<open>cmd/gremlind/main.go\<close>: \<^verbatim>\<open>runNetlinkd\<close> sweeps the links left over
  by an earlier run and then serves the broker of theory \<^verbatim>\<open>Broker\<close>.
\<close>

section \<open>netlinkd\<close>

definition parseFileMode :: "string \<Rightarrow> int option" where
  "parseFileMode s = (case parse_octal32 s of Some mode \<Rightarrow> if mode > 511 then None else Some mode | None \<Rightarrow> None)"

record netlinkd_flags =
  nf_sock :: string
  nf_mode :: string
  nf_group :: string
  nf_gre_local :: string
  nf_ifaces :: "string list"

datatype netlinkd_error =
    SocketRequired
  | BadGreLocal string
  | BadMode string
  | SweepFailed nl_error
  | PinnedSweepFailed nl_error
  | ServeRefused serve_error

text \<open>
  The privileged process: the links of the kernel, the states of the socket's path, and its own
  attributes. \<open>denied\<close> says which calls of the hardening are refused, \<open>sys\<close> how the calls for the
  socket end.
\<close>

record 's privileged =
  pv_links :: 's
  pv_path :: "node list"
  pv_proc :: process

definition runNetlinkd ::
  "(syscall \<Rightarrow> process \<Rightarrow> bool) \<Rightarrow> sock_sys \<Rightarrow> 's link_ops \<Rightarrow> netlinkd_flags \<Rightarrow> 's privileged \<Rightarrow>
     (netlinkd_error, broker) result \<times> 's privileged" where
  "runNetlinkd denied sys ops fl w =
     (if nf_sock fl = '''' then (Inl SocketRequired, w)
      else case (if nf_gre_local fl = '''' then Some AddrZero else ParseAddr (nf_gre_local fl)) of
        None \<Rightarrow> (Inl (BadGreLocal (nf_gre_local fl)), w)
      | Some greLocal \<Rightarrow>
          (case parseFileMode (nf_mode fl) of
             None \<Rightarrow> (Inl (BadMode (nf_mode fl)), w)
           | Some mode \<Rightarrow>
               let w1 = w\<lparr>pv_proc := hardening_Apply denied hardening_calls (pv_proc w)\<rparr> in
               (case RemovePrefix ops ''grem'' (pv_links w1) of
                  (removed, Some e, s1) \<Rightarrow> (Inl (SweepFailed e), w1\<lparr>pv_links := s1\<rparr>)
                | (removed, None, s1) \<Rightarrow>
                    (case RemoveNamedGRE ops (nf_ifaces fl) s1 of
                       (removed', Some e, s2) \<Rightarrow> (Inl (PinnedSweepFailed e), w1\<lparr>pv_links := s2\<rparr>)
                     | (removed', None, s2) \<Rightarrow>
                         (case broker_serve sys (pr_umask (pv_proc w1)) True greLocal (nf_ifaces fl) mode (nf_group fl) (last (pv_path w1)) of
                            (r, h) \<Rightarrow> (map_sum ServeRefused id r, w1\<lparr>pv_links := s2, pv_path := pv_path w1 @ h\<rparr>))))))"

text \<open>The flags \<^verbatim>\<open>runNetlinkd\<close> accepts.\<close>

definition flags_ok :: "netlinkd_flags \<Rightarrow> bool" where
  "flags_ok fl \<longleftrightarrow> nf_sock fl \<noteq> '''' \<and> (nf_gre_local fl = '''' \<or> ParseAddr (nf_gre_local fl) \<noteq> None) \<and>
     parseFileMode (nf_mode fl) \<noteq> None \<and> list_all ValidName (nf_ifaces fl)"

lemma permitted_swept:
  assumes "serve_init True local names = Inr b" "permitted b n" "\<not> has_prefix n ''grem''"
  shows "n \<in> set names"
  using assms by (auto simp: serve_init_def permitted_def IsGeneratedName_iff has_prefix_iff fset_of_list_elem split: option.splits)

text \<open>The links a sweep leaves: nothing in the generated name space, no GRE link with a pinned name.\<close>

definition swept :: "string list \<Rightarrow> link_info list \<Rightarrow> link_info list" where
  "swept pins = filter (\<lambda>li. \<not> has_prefix (li_name li) ''grem'' \<and> \<not> (li_name li \<in> set pins \<and> isGREKind (li_kind li)))"

lemma sweeps_succeed:
  assumes "kernel_ok ops view"
  obtains names1 s1 names2 s2 where "RemovePrefix ops ''grem'' s = (names1, None, s1)"
    "RemoveNamedGRE ops pins s1 = (names2, None, s2)" "view s2 = swept pins (view s)"
proof -
  obtain s1 names1 where s1: "RemovePrefix ops ''grem'' s = (names1, None, s1)"
    "view s1 = filter (\<lambda>li. \<not> has_prefix (li_name li) ''grem'') (view s)"
    using sweep_ok [OF assms(1), THEN conjunct1] by blast
  obtain s2 names2 where s2: "RemoveNamedGRE ops pins s1 = (names2, None, s2)"
    "view s2 = filter (\<lambda>li. \<not> (li_name li \<in> set pins \<and> isGREKind (li_kind li))) (view s1)"
    using sweep_ok [OF assms(1), THEN conjunct2] by blast
  show ?thesis by (rule that [OF s1(1) s2(1)]) (simp add: s2(2) s1(2) swept_def)
qed


definition demo_flags :: netlinkd_flags where
  "demo_flags = \<lparr>nf_sock = ''/run/n.sock'', nf_mode = ''0660'', nf_group = ''gremlin'', nf_gre_local = ''192.0.2.1'',
     nf_ifaces = [''wg0'', ''tun1'']\<rparr>"

definition demo_sys :: sock_sys where
  "demo_sys = \<lparr>ss_lstat = None, ss_remove = None, ss_listen = None, ss_lookup = \<lambda>_. Inr ''990'', ss_chown = None,
     ss_chmod = None, ss_unlink = None\<rparr>"

definition demo_privileged :: "link_info list privileged" where
  "demo_privileged =
     \<lparr>pv_links = [\<lparr>li_index = 1, li_name = ''wg0'', li_kind = ''wireguard''\<rparr>, \<lparr>li_index = 2, li_name = ''tun1'', li_kind = ''gre''\<rparr>,
        \<lparr>li_index = 3, li_name = ''grem7'', li_kind = ''gre''\<rparr>],
      pv_path = [Socket 493 None],
      pv_proc = \<lparr>pr_umask = 18, pr_core = (1, 1), pr_dumpable = True, pr_no_new_privs = False, pr_ambient = {}, pr_bounding = {12}\<rparr>\<rparr>"


end
