(* ===== verification/Admin.thy ===== *)
theory Admin
  imports Session Broker
begin

text \<open>
  Package \<^verbatim>\<open>internal/admin\<close>: the unix socket that shows the sessions. The socket file is handled
  as in theory \<^verbatim>\<open>Unix_Socket\<close>.
\<close>

section \<open>Serving and querying\<close>

record admin_opts =
  ao_mode :: int
  ao_group :: string

text \<open>\<^verbatim>\<open>ServeWithOptions\<close> up to its accept loop, and its end on cancellation.\<close>

definition admin_open :: "sock_sys \<Rightarrow> nat \<Rightarrow> admin_opts \<Rightarrow> node \<Rightarrow> sock_error option \<times> node list" where
  "admin_open sys umask opts n =
     (let mode = (if ao_mode opts = 0 then 384 else ao_mode opts)
      in open_socket sys umask mode (ao_group opts) n)"

definition admin_close :: "sock_sys \<Rightarrow> node \<Rightarrow> node" where
  "admin_close sys n = close_socket sys n"

text \<open>
  Each connection gets the snapshot as JSON; \<open>enc_json\<close> and \<open>dec_json\<close> stand for the JSON library,
  \<open>order\<close> for the order in which the snapshot lists the sessions.
\<close>

definition admin_reply :: "(entry list \<Rightarrow> bytes) \<Rightarrow> (entry fset \<Rightarrow> entry list) \<Rightarrow> manager \<Rightarrow> bytes" where
  "admin_reply enc_json order m = enc_json (order (Sessions m))"

text \<open>The accept loop: a connection comes with the state of the manager at that time.\<close>

definition admin_serve ::
  "(entry list \<Rightarrow> bytes) \<Rightarrow> (entry fset \<Rightarrow> entry list) \<Rightarrow> manager accept list \<Rightarrow> bytes list \<times> serve_end" where
  "admin_serve enc_json order rs = (case accept_loop rs of (ms, e) \<Rightarrow> (map (admin_reply enc_json order) ms, e))"

definition Query :: "(bytes \<Rightarrow> entry list option) \<Rightarrow> (string, bytes) result \<Rightarrow> entry list option" where
  "Query dec_json conn = (case conn of Inl e \<Rightarrow> None | Inr bs \<Rightarrow> dec_json bs)"

text \<open>With a JSON library that reads back what it wrote, a query shows exactly the live sessions.\<close>

lemma query_shows_sessions:
  assumes "\<And>es. dec_json (enc_json es) = Some es" "\<And>S. fset_of_list (order S) = S"
  shows "map_option fset_of_list (Query dec_json (Inr (admin_reply enc_json order m))) = Some (Sessions m)"
  using assms by (simp add: Query_def admin_reply_def)

section \<open>The sockets of both daemons\<close>

text \<open>
  C14. The admin socket of the server and the provisioning socket of the broker are never open to
  strangers and take nobody's place. In a process that hardened itself first, whatever system
  calls fail, at every moment the socket can be used by its owner alone or has exactly the
  configured mode together with the configured group; something at the path that is not a socket
  is left alone; when the daemon serves, mode and group are the configured ones, mode 0600 if none
  is; and a failure leaves the path as it was or empty, provided the new socket can be removed.
\<close>

theorem sockets_well_kept:
  "let umask = pr_umask (hardening_Apply denied hardening_calls p);
       (admin_err, admin_states) = admin_open sys umask opts n;
       (broker, broker_states) = broker_serve sys umask has_prov local names mode grp n;
       default = (\<lambda>m. if m = 0 then 384 else m)
   in well_kept sys (default (ao_mode opts)) (ao_group opts) n (admin_err \<noteq> None) admin_states \<and>
      well_kept sys (default mode) grp n (isl broker) broker_states"
proof -
  have "well_kept sys mode grp n True []" for mode grp by (simp add: well_kept_def)
  then have "well_kept sys (if mode = 0 then 384 else mode) grp n
      (isl (fst (broker_serve sys 63 has_prov local names mode grp n))) (snd (broker_serve sys 63 has_prov local names mode grp n))"
    using open_socket_well_kept [of sys "if mode = 0 then 384 else mode" grp n]
    by (cases "open_socket sys 63 (if mode = 0 then 384 else mode) grp n"; cases "serve_init has_prov local names")
      (auto simp: broker_serve_def split: option.splits)
  moreover have "well_kept sys (if ao_mode opts = 0 then 384 else ao_mode opts) (ao_group opts) n
      (fst (admin_open sys 63 opts n) \<noteq> None) (snd (admin_open sys 63 opts n))"
    using open_socket_well_kept [OF prod.collapse [symmetric]] by (simp add: admin_open_def)
  ultimately show ?thesis by (simp add: hardening_umask case_prod_unfold Let_def)
qed

end
