(* ===== verification/Flags.thy ===== *)
theory Flags
  imports Netip_Text
begin

text \<open>
  Command lines: the \<^verbatim>\<open>flag\<close> package of the standard library, as \<^verbatim>\<open>cmd/gremlind/main.go\<close> uses it
  (\<^verbatim>\<open>FlagSet.Parse\<close> with \<^verbatim>\<open>ContinueOnError\<close>; string, boolean and repeatable flags).
\<close>

section \<open>Parsing\<close>

datatype flag_kind = BoolFlag | ValueFlag

type_synonym flag_set = "(string \<times> flag_kind) list"

datatype flag_error =
    BadSyntax string
  | HelpRequested
  | NotDefined string
  | InvalidBool string string
  | NeedsArgument string

definition ParseBool :: "string \<Rightarrow> bool option" where
  "ParseBool s =
     (if s \<in> {''1'', ''t'', ''T'', ''true'', ''TRUE'', ''True''} then Some True
      else if s \<in> {''0'', ''f'', ''F'', ''false'', ''FALSE'', ''False''} then Some False else None)"

text \<open>An argument that is not a flag ends the flags and is left over; so does \<^verbatim>\<open>--\<close>, which is dropped.\<close>

definition is_flag :: "string \<Rightarrow> bool" where
  "is_flag s \<longleftrightarrow> 2 \<le> length s \<and> hd s = CHR ''-''"

text \<open>Name and value of an argument, without its dashes; the value after the first equals sign, if any.\<close>

definition flag_text :: "string \<Rightarrow> string" where
  "flag_text s = (if s ! 1 = CHR ''-'' then drop 2 s else drop 1 s)"

definition flag_split :: "string \<Rightarrow> string \<times> string option" where
  "flag_split name = (case cut_first (CHR ''='') name of Some (n, v) \<Rightarrow> (n, Some v) | None \<Rightarrow> (name, None))"

text \<open>The settings made, in order, and the arguments left over.\<close>

fun parse_flags :: "flag_set \<Rightarrow> string list \<Rightarrow> (flag_error, (string \<times> string) list \<times> string list) result" where
  "parse_flags fs [] = Inr ([], [])"
| "parse_flags fs (s # args) =
     (if \<not> is_flag s then Inr ([], s # args)
      else if s = ''--'' then Inr ([], args)
      else if flag_text s = '''' \<or> hd (flag_text s) = CHR ''-'' \<or> hd (flag_text s) = CHR ''='' then Inl (BadSyntax s)
      else case flag_split (flag_text s) of
        (name, val) \<Rightarrow>
          (case map_of fs name of
             None \<Rightarrow> Inl (if name = ''help'' \<or> name = ''h'' then HelpRequested else NotDefined name)
           | Some BoolFlag \<Rightarrow>
               (case val of
                  None \<Rightarrow> rbind (parse_flags fs args) (\<lambda>(sets, rest). Inr ((name, ''true'') # sets, rest))
                | Some v \<Rightarrow>
                    (case ParseBool v of
                       None \<Rightarrow> Inl (InvalidBool v name)
                     | Some _ \<Rightarrow> rbind (parse_flags fs args) (\<lambda>(sets, rest). Inr ((name, v) # sets, rest))))
           | Some ValueFlag \<Rightarrow>
               (case val of
                  Some v \<Rightarrow> rbind (parse_flags fs args) (\<lambda>(sets, rest). Inr ((name, v) # sets, rest))
                | None \<Rightarrow>
                    (case args of
                       [] \<Rightarrow> Inl (NeedsArgument name)
                     | v # args' \<Rightarrow> rbind (parse_flags fs args') (\<lambda>(sets, rest). Inr ((name, v) # sets, rest))))))"

text \<open>What a flag holds after the settings: the last value, or its default; a repeatable flag holds all.\<close>

definition flag_value :: "(string \<times> string) list \<Rightarrow> string \<Rightarrow> string \<Rightarrow> string" where
  "flag_value sets name dflt = (case map_of (rev sets) name of Some v \<Rightarrow> v | None \<Rightarrow> dflt)"

definition flag_values :: "(string \<times> string) list \<Rightarrow> string \<Rightarrow> string list" where
  "flag_values sets name = map snd (filter (\<lambda>s. fst s = name) sets)"

definition flag_bool :: "(string \<times> string) list \<Rightarrow> string \<Rightarrow> bool" where
  "flag_bool sets name = (ParseBool (flag_value sets name ''false'') = Some True)"

definition nth_arg :: "string list \<Rightarrow> string" where
  "nth_arg rest = (case rest of [] \<Rightarrow> '''' | a # _ \<Rightarrow> a)"

section \<open>Writing and reading back\<close>

text \<open>The ways to write a setting: one or two dashes, the value attached or as the next argument.\<close>

datatype spelling = Spelling bool bool

fun written :: "spelling \<times> string \<times> string \<Rightarrow> string list" where
  "written (Spelling double attached, name, v) =
     (let dashes = (if double then ''--'' else ''-'')
      in if attached then [dashes @ name @ ''='' @ v] else [dashes @ name, v])"

fun settable :: "flag_set \<Rightarrow> spelling \<times> string \<times> string \<Rightarrow> bool" where
  "settable fs (Spelling double attached, name, v) \<longleftrightarrow>
     (case map_of fs name of
        None \<Rightarrow> False
      | Some ValueFlag \<Rightarrow> True
      | Some BoolFlag \<Rightarrow> attached \<and> ParseBool v \<noteq> None)"

definition flag_names_ok :: "flag_set \<Rightarrow> bool" where
  "flag_names_ok fs \<longleftrightarrow> (\<forall>n \<in> fst ` set fs. n \<noteq> '''' \<and> hd n \<noteq> CHR ''-'' \<and> CHR ''='' \<notin> set n)"

lemma cut_first_name:
  assumes "c \<notin> set n"
  shows "cut_first c (n @ c # v) = Some (n, v)" "cut_first c n = None"
proof -
  have "takeWhile (\<lambda>d. d \<noteq> c) (n @ c # v) = n \<and> dropWhile (\<lambda>d. d \<noteq> c) (n @ c # v) = c # v"
    using assms by (induction n) auto
  then show "cut_first c (n @ c # v) = Some (n, v)" "cut_first c n = None" using assms by (simp_all add: cut_first_def)
qed

lemma parse_written:
  assumes "flag_names_ok fs" "settable fs (sp, name, v)"
  shows "parse_flags fs (written (sp, name, v) @ args) =
    rbind (parse_flags fs args) (\<lambda>(sets, rest). Inr ((name, v) # sets, rest))"
proof -
  obtain double attached where sp: "sp = Spelling double attached" by (cases sp)
  obtain k where k: "map_of fs name = Some k" using assms(2) by (auto simp: sp split: option.splits)
  then have "name \<in> fst ` set fs" by (metis map_of_SomeD fst_conv image_eqI)
  then have n: "name \<noteq> ''''" "hd name \<noteq> CHR ''-''" "CHR ''='' \<notin> set name" using assms(1) by (auto simp: flag_names_ok_def)
  then have h: "hd name \<noteq> CHR ''=''" by (metis hd_in_set)
  let ?d = "if double then ''--'' else ''-''"
  have ft: "flag_text (?d @ name @ t) = name @ t" "is_flag (?d @ name @ t)" "?d @ name @ t \<noteq> ''--''" for t
    using n(1,2) by (cases name; auto simp: flag_text_def is_flag_def)+
  show ?thesis
  proof (cases attached)
    case True
    then show ?thesis
      using ft [of "CHR ''='' # v"] n h k assms(2) cut_first_name(1) [OF n(3), of v]
      by (auto simp: sp flag_split_def split: flag_kind.splits option.splits)
  next
    case False
    then have "k = ValueFlag" using assms(2) k by (auto simp: sp split: flag_kind.splits)
    then show ?thesis
      using False ft [of "[]"] n h k cut_first_name(2) [OF n(3)]
      by (simp add: sp flag_split_def)
  qed
qed

text \<open>Settings written in any spelling are read back in order, up to the first argument that is no flag.\<close>

lemma parse_all_written:
  assumes "flag_names_ok fs" "\<forall>s \<in> set ss. settable fs s" "args = [] \<or> \<not> is_flag (hd args)"
  shows "parse_flags fs (concat (map written ss) @ args) = Inr (map snd ss, args)"
  using assms(2)
proof (induction ss)
  case Nil
  then show ?case using assms(3) by (cases args) auto
next
  case (Cons s ss)
  obtain sp name v where s: "s = (sp, name, v)" by (metis surj_pair)
  from Cons show ?case using parse_written [OF assms(1), of sp name v] by (simp add: s)
qed

end
