(* ===== verification/Cli.thy ===== *)
theory Cli
  imports Flags Netlinkd Startup Dialer Admin
begin

text \<open>
  The command line of \<^verbatim>\<open>cmd/gremlind/main.go\<close>: the subcommands with their flags, and what each
  does from its arguments on. The parts they start are in the theories \<^verbatim>\<open>Startup\<close>, \<^verbatim>\<open>Dialer\<close>,
  \<^verbatim>\<open>Netlinkd\<close> and \<^verbatim>\<open>Admin\<close>.
\<close>

section \<open>Subcommands and their flags\<close>

datatype command = RunServer | RunConnect | RunNetlinkd | RunStatus | Help | NoCommand | Unknown string

text \<open>\<^verbatim>\<open>run\<close>: which subcommand the arguments select, and what it is given.\<close>

fun run_args :: "string list \<Rightarrow> command \<times> string list" where
  "run_args [] = (NoCommand, [])"
| "run_args (cmd # rest) =
     (if cmd = ''server'' then (RunServer, rest)
      else if cmd = ''connect'' then (RunConnect, rest)
      else if cmd = ''netlinkd'' then (RunNetlinkd, rest)
      else if cmd = ''status'' then (RunStatus, rest)
      else if cmd = ''-h'' \<or> cmd = ''--help'' \<or> cmd = ''help'' then (Help, [])
      else (Unknown cmd, []))"

datatype cli_error =
    FlagError flag_error
  | ConfigRequired
  | ServerRequired
  | LoadFailed config_error
  | StartFailed start_error
  | TCPListen string
  | AdminModeBad config_error
  | ConnectRefused connect_error
  | QueryFailed

definition server_flags :: flag_set where
  "server_flags = [(''c'', ValueFlag), (''v'', BoolFlag)]"

text \<open>The path of the configuration and whether logging is verbose.\<close>

definition server_args :: "string list \<Rightarrow> (cli_error, string \<times> bool) result" where
  "server_args args =
     (case parse_flags server_flags args of
        Inl e \<Rightarrow> Inl (FlagError e)
      | Inr (sets, rest) \<Rightarrow>
          let cfgPath = flag_value sets ''c'' '''' in
          if cfgPath = '''' then Inl ConfigRequired else Inr (cfgPath, flag_bool sets ''v''))"

definition netlinkd_flagset :: flag_set where
  "netlinkd_flagset = [(''s'', ValueFlag), (''mode'', ValueFlag), (''group'', ValueFlag), (''gre-local'', ValueFlag),
     (''iface'', ValueFlag), (''v'', BoolFlag)]"

definition netlinkd_args :: "string list \<Rightarrow> (cli_error, netlinkd_flags) result" where
  "netlinkd_args args =
     (case parse_flags netlinkd_flagset args of
        Inl e \<Rightarrow> Inl (FlagError e)
      | Inr (sets, rest) \<Rightarrow>
          Inr \<lparr>nf_sock = flag_value sets ''s'' '''', nf_mode = flag_value sets ''mode'' ''0600'',
            nf_group = flag_value sets ''group'' '''', nf_gre_local = flag_value sets ''gre-local'' '''',
            nf_ifaces = flag_values sets ''iface''\<rparr>)"

definition connect_flagset :: flag_set where
  "connect_flagset = [(''c'', ValueFlag), (''id'', ValueFlag), (''secret'', ValueFlag), (''secret-env'', ValueFlag),
     (''iface'', ValueFlag), (''v'', BoolFlag)]"

definition connect_of :: "(string \<times> string) list \<Rightarrow> connect_flags" where
  "connect_of sets =
     \<lparr>cf_id = flag_value sets ''id'' '''', cf_secret = flag_value sets ''secret'' '''',
      cf_secret_env = flag_value sets ''secret-env'' ''GREMLIND_SECRET'', cf_iface = flag_value sets ''iface'' ''''\<rparr>"

text \<open>The server, the path of the configuration, and the other flags.\<close>

definition connect_args :: "string list \<Rightarrow> (cli_error, string \<times> string \<times> connect_flags) result" where
  "connect_args args =
     (let first = args \<noteq> [] \<and> \<not> has_prefix (hd args) ''-'';
          server0 = (if first then hd args else '''');
          rest = (if first then tl args else args)
      in case parse_flags connect_flagset rest of
           Inl e \<Rightarrow> Inl (FlagError e)
         | Inr (sets, left) \<Rightarrow>
             let server = (if server0 = '''' then nth_arg left else server0) in
             if server = '''' then Inl ServerRequired
             else Inr (server, flag_value sets ''c'' '''', connect_of sets))"

definition status_args :: "string list \<Rightarrow> (cli_error, string) result" where
  "status_args args =
     (case parse_flags [(''s'', ValueFlag)] args of
        Inl e \<Rightarrow> Inl (FlagError e)
      | Inr (sets, rest) \<Rightarrow> Inr (flag_value sets ''s'' ''/run/gremlind.sock''))"

section \<open>server\<close>

text \<open>Whether the file of the configuration, with these permissions, draws a warning.\<close>

definition warnLooseConfigPerms :: "int option \<Rightarrow> bool" where
  "warnLooseConfigPerms perm = (case perm of None \<Rightarrow> False | Some m \<Rightarrow> m AND 63 \<noteq> 0)"

text \<open>
  What the subcommand meets: refused calls of the hardening, the contents of files and their
  permissions, the inputs of the start (theory \<^verbatim>\<open>Startup\<close>), the error of listening, and the calls
  and the path of the admin socket.
\<close>

record server_env =
  sn_denied :: "syscall \<Rightarrow> process \<Rightarrow> bool"
  sn_order :: "(string \<times> int) list"
  sn_file :: "string \<Rightarrow> string + (string + config)"
  sn_perm :: "string \<Rightarrow> int option"
  sn_start :: start_env
  sn_listen :: "string \<Rightarrow> string option"
  sn_sys :: sock_sys
  sn_path :: node

record server_up =
  su_manager :: "mgr_cfg \<times> manager"
  su_control :: "server \<times> limits"
  su_warned :: bool
  su_admin :: "(sock_error option \<times> node list) option"

text \<open>
  \<^verbatim>\<open>runServer\<close> up to serving. The admin socket is opened in a goroutine of its own, and its
  failure is only logged.
\<close>

definition runServer :: "server_env \<Rightarrow> string list \<Rightarrow> process \<Rightarrow> (cli_error, server_up) result \<times> process" where
  "runServer e args p =
     (case server_args args of
        Inl err \<Rightarrow> (Inl err, p)
      | Inr (cfgPath, verbose) \<Rightarrow>
          let p' = hardening_Apply (sn_denied e) hardening_calls p in
          (case Load (sn_order e) (sn_file e cfgPath) of
             Inl err \<Rightarrow> (Inl (LoadFailed err), p')
           | Inr c \<Rightarrow>
               (case start_server (sn_start e) (Inr c) of
                  Inl err \<Rightarrow> (Inl (StartFailed err), p')
                | Inr (cfg, m, sv, lim) \<Rightarrow>
                    (case sn_listen e (c_listen c) of
                       Some err \<Rightarrow> (Inl (TCPListen err), p')
                     | None \<Rightarrow>
                         let up = \<lparr>su_manager = (cfg, m), su_control = (sv, lim),
                               su_warned = warnLooseConfigPerms (sn_perm e cfgPath), su_admin = None\<rparr> in
                         if c_admin_socket c = '''' then (Inr up, p')
                         else (case AdminMode c of
                                 Inl err \<Rightarrow> (Inl (AdminModeBad err), p')
                               | Inr mode \<Rightarrow>
                                   (Inr (up\<lparr>su_admin := Some (admin_open (sn_sys e) (pr_umask p')
                                      \<lparr>ao_mode = mode, ao_group = c_admin_group c\<rparr> (sn_path e))\<rparr>), p'))))))"

section \<open>connect\<close>

record connect_env =
  ce_denied :: "syscall \<Rightarrow> process \<Rightarrow> bool"
  ce_order :: "(string \<times> int) list"
  ce_file :: "string \<Rightarrow> string + (string + config)"
  ce_getenv :: "string \<Rightarrow> string"
  ce_fou :: "string option"

text \<open>\<^verbatim>\<open>runConnect\<close>, with the turns of the dialer it is observed for.\<close>

definition runConnect ::
  "connect_env \<Rightarrow> attempt list \<Rightarrow> string list \<Rightarrow> process \<Rightarrow> (cli_error, dial_event list \<times> dialer_end) result \<times> process" where
  "runConnect e atts args p =
     (case connect_args args of
        Inl err \<Rightarrow> (Inl err, p)
      | Inr (server, cfgPath, fl) \<Rightarrow>
          let p' = hardening_Apply (ce_denied e) hardening_calls p in
          (case (if cfgPath = '''' then Inr zero_config else Load (ce_order e) (ce_file e cfgPath)) of
             Inl err \<Rightarrow> (Inl (LoadFailed err), p')
           | Inr c \<Rightarrow>
               (case connect_inputs (ce_getenv e) fl c (ce_fou e) of
                  Inl err \<Rightarrow> (Inl (ConnectRefused err), p')
                | Inr (cfg, clientID, secret, ifn) \<Rightarrow>
                    (Inr (runDialer cfg server clientID secret ifn atts AddrZero minBackoff), p'))))"

section \<open>status\<close>

text \<open>A row of the table; \<open>fmt\<close> writes a time.\<close>

definition status_row :: "(int \<Rightarrow> string) \<Rightarrow> entry \<Rightarrow> string list" where
  "status_row fmt e =
     [e_client e, e_ifname e, addr_string (e_inner e), addr_string (e_outer e), decimal (unat (e_grekey e)),
      decimal_int (e_mtu e), fmt (e_since e)]"

definition status_header :: "string list" where
  "status_header = [''CLIENT'', ''IFACE'', ''INNER'', ''OUTER'', ''KEY'', ''MTU'', ''SINCE'']"

text \<open>
  \<^verbatim>\<open>text/tabwriter\<close> with a padding of two spaces, on rows of equally many cells: every cell but
  the last is filled up to the width of its column.
\<close>

definition column_width :: "string list list \<Rightarrow> nat \<Rightarrow> nat" where
  "column_width rows j = fold max (map (\<lambda>r. length (r ! j) + 2) rows) 0"

definition pad :: "nat \<Rightarrow> string \<Rightarrow> string" where
  "pad w s = s @ replicate (w - length s) (CHR '' '')"

definition tab_line :: "string list list \<Rightarrow> string list \<Rightarrow> string" where
  "tab_line rows r = concat (map (\<lambda>j. pad (column_width rows j) (r ! j)) [0..<length r - 1]) @ last r"

definition status_lines :: "(int \<Rightarrow> string) \<Rightarrow> entry list \<Rightarrow> string list" where
  "status_lines fmt es =
     (if es = [] then [''no active sessions'']
      else let rows = status_header # map (status_row fmt) es in map (tab_line rows) rows)"

definition runStatus ::
  "(string \<Rightarrow> (string, bytes) result) \<Rightarrow> (bytes \<Rightarrow> entry list option) \<Rightarrow> (int \<Rightarrow> string) \<Rightarrow> string list \<Rightarrow>
     (cli_error, string list) result" where
  "runStatus dial dec_json fmt args =
     (case status_args args of
        Inl err \<Rightarrow> Inl err
      | Inr sock \<Rightarrow> (case Query dec_json (dial sock) of None \<Rightarrow> Inl QueryFailed | Some es \<Rightarrow> Inr (status_lines fmt es)))"

section \<open>What the command lines mean\<close>

lemma connect_names_ok: "flag_names_ok connect_flagset" "flag_names_ok server_flags" "flag_names_ok netlinkd_flagset"
  by (simp_all add: flag_names_ok_def connect_flagset_def server_flags_def netlinkd_flagset_def)

lemma written_first: "ss \<noteq> [] \<Longrightarrow> concat (map written ss) \<noteq> [] \<and> has_prefix (hd (concat (map written ss))) ''-''"
proof -
  assume "ss \<noteq> []"
  then obtain s ss' where ss: "ss = s # ss'" by (cases ss) auto
  obtain double attached name v where s: "s = (Spelling double attached, name, v)" by (metis spelling.exhaust surj_pair)
  show ?thesis by (simp add: ss s Let_def has_prefix_iff)
qed

lemma not_flag: "\<not> has_prefix a ''-'' \<Longrightarrow> \<not> is_flag a"
  by (cases a) (auto simp: is_flag_def has_prefix_iff)

text \<open>
  C36. The command line of \<^verbatim>\<open>gremlind connect\<close>. With the server as the first argument, flags in any
  order, with one dash or two, their values attached or as the next argument, are all taken, the
  last value of each counting. With the server after some flags the same flags give the same
  result, but everything after the server is ignored, further flags included, although the code
  says that the server may stand anywhere.
\<close>

theorem connect_cli:
  assumes "\<forall>s \<in> set ss. settable connect_flagset s" "server \<noteq> ''''" "\<not> has_prefix server ''-''"
  shows "connect_args (server # concat (map written ss)) =
      Inr (server, flag_value (map snd ss) ''c'' '''', connect_of (map snd ss)) \<and>
    (ss \<noteq> [] \<longrightarrow> connect_args (concat (map written ss) @ server # ignored) = connect_args (server # concat (map written ss)))"
proof -
  have "parse_flags connect_flagset (concat (map written ss)) = Inr (map snd ss, [])"
    using parse_all_written [OF connect_names_ok(1) assms(1), of "[]"] by simp
  moreover have "parse_flags connect_flagset (concat (map written ss) @ server # ignored) = Inr (map snd ss, server # ignored)"
    using parse_all_written [OF connect_names_ok(1) assms(1), of "server # ignored"] not_flag [OF assms(3)] by simp
  ultimately show ?thesis
    using assms(2,3) written_first [of ss] by (auto simp: connect_args_def Let_def nth_arg_def)
qed


section \<open>The table can be read back\<close>

definition words :: "string \<Rightarrow> string list" where
  "words s = filter (\<lambda>w. w \<noteq> []) (split_at (CHR '' '') s)"

lemma words_space: "words (CHR '' '' # s) = words s"
  by (simp add: words_def)

lemma words_spaces: "words (replicate k (CHR '' '') @ s) = words s"
  by (induction k) (simp_all add: words_space)

lemma words_cell:
  assumes "s \<noteq> []" "CHR '' '' \<notin> set s"
  shows "words (s @ CHR '' '' # t) = s # words t" "words s = [s]"
proof -
  have "split_at (CHR '' '') (s @ CHR '' '' # t) = s # split_at (CHR '' '') t" "split_at (CHR '' '') s = [s]"
    using assms(2) by (induction s) auto
  then show "words (s @ CHR '' '' # t) = s # words t" "words s = [s]" using assms(1) by (simp_all add: words_def)
qed

lemma words_pad:
  assumes "s \<noteq> []" "CHR '' '' \<notin> set s" "length s < w"
  shows "words (pad w s @ t) = s # words t"
proof -
  obtain k where "w - length s = Suc k" using assms(3) by (cases "w - length s") auto
  then show ?thesis using words_cell(1) [OF assms(1,2)] words_spaces by (simp add: pad_def)
qed

lemma column_width_ge:
  assumes "r \<in> set rows"
  shows "length (r ! j) + 2 \<le> column_width rows j"
proof -
  have "column_width rows j = Max (set (0 # map (\<lambda>r. length (r ! j) + 2) rows))"
    unfolding column_width_def Max.set_eq_fold ..
  then show ?thesis using assms by simp
qed

text \<open>Every line of the table shows the fields of its row and nothing else, when no field is empty or has a space.\<close>

theorem status_readable:
  assumes "r \<in> set rows" "r \<noteq> []" "\<forall>s \<in> set r. s \<noteq> [] \<and> CHR '' '' \<notin> set s"
  shows "words (tab_line rows r) = r"
proof -
  have cells: "words (concat (map (\<lambda>j. pad (column_width rows j) (r ! j)) [i..<i + n]) @ t) = map ((!) r) [i..<i + n] @ words t"
    if "i + n \<le> length r" for i n t
    using that
  proof (induction n arbitrary: i)
    case (Suc n)
    have "length (r ! i) < column_width rows i" using column_width_ge [OF assms(1), of i] by simp
    moreover have "r ! i \<in> set r" using Suc.prems by simp
    moreover have "[i..<i + Suc n] = i # [Suc i..<Suc i + n]" by (simp add: upt_conv_Cons del: upt_Suc)
    ultimately show ?case
      using Suc.IH [of "Suc i"] Suc.prems assms(3) words_pad [of "r ! i" "column_width rows i"] by (simp del: upt_Suc)
  qed simp
  have "words (tab_line rows r) = map ((!) r) [0..<length r - 1] @ words (last r)"
    using cells [of 0 "length r - 1" "last r"] by (simp add: tab_line_def)
  also have "words (last r) = [last r]" using assms(2,3) words_cell(2) [of "last r"] by simp
  also have "map ((!) r) [0..<length r - 1] = butlast r" by (auto intro: nth_equalityI simp: nth_butlast)
  finally show ?thesis using assms(2) by simp
qed

section \<open>Witnesses\<close>

theorem connect_cli_witness:
  "connect_args [''srv:4747'', ''-id'', ''alice'', ''--iface=t0''] =
     Inr (''srv:4747'', '''', \<lparr>cf_id = ''alice'', cf_secret = '''', cf_secret_env = ''GREMLIND_SECRET'', cf_iface = ''t0''\<rparr>) \<and>
   connect_args [''-id'', ''alice'', ''--iface=t0'', ''srv:4747'', ''-id'', ''bob''] =
     connect_args [''srv:4747'', ''-id'', ''alice'', ''--iface=t0'']"
proof -
  let ?ss = "[(Spelling False False, ''id'', ''alice''), (Spelling True True, ''iface'', ''t0'')]"
  have "\<forall>s \<in> set ?ss. settable connect_flagset s" by (simp add: connect_flagset_def)
  moreover have "\<not> has_prefix ''srv:4747'' ''-''" by (simp add: has_prefix_iff)
  ultimately have "connect_args (''srv:4747'' # concat (map written ?ss)) =
      Inr (''srv:4747'', flag_value (map snd ?ss) ''c'' '''', connect_of (map snd ?ss)) \<and>
    connect_args (concat (map written ?ss) @ ''srv:4747'' # [''-id'', ''bob'']) = connect_args (''srv:4747'' # concat (map written ?ss))"
    using connect_cli [of ?ss "''srv:4747''" "[''-id'', ''bob'']"] by simp
  then show ?thesis by (simp add: flag_value_def connect_of_def)
qed

definition demo_server_env :: server_env where
  "demo_server_env = \<lparr>sn_denied = \<lambda>_ _. True, sn_order = [(''mss'', 0), (''mss4'', 0), (''mss6'', 0)],
     sn_file = \<lambda>_. Inr (Inr demo_config), sn_perm = \<lambda>_. Some 384, sn_start = demo_start, sn_listen = \<lambda>_. None,
     sn_sys = demo_sys, sn_path = Absent\<rparr>"


end
