(* ===== verification/End_To_End.thy ===== *)
theory End_To_End
  imports Dialer Provisioning Startup
begin

text \<open>
  Both daemons against each other: the control server with the session manager as its
  \<^verbatim>\<open>Establisher\<close>, and the dialer that builds the other end of the tunnel from the grant.
\<close>

section \<open>The session manager behind the control server\<close>

definition zero_grant :: session_grant where
  "zero_grant = \<lparr>g_client_inner = AddrZero, g_server_inner = AddrZero, g_server_outer = AddrZero,
     g_grekey = 0, g_flags = 0, g_mtu = 0, g_key = 0\<rparr>"

text \<open>
  The methods of the manager as the server calls them, with the data-plane events so far. One
  connection makes at most one call of each, so one environment and one time are enough;
  \<open>msg\<close> gives the text of an error. The environment is one with which \<^verbatim>\<open>Establish\<close> returns.
\<close>

definition manager_est ::
  "(est_error \<Rightarrow> string) \<Rightarrow> mgr_cfg \<Rightarrow> est_env \<Rightarrow> int \<Rightarrow> (manager \<times> dp_event list) establisher" where
  "manager_est msg cfg env now =
     \<lparr>es_establish = (\<lambda>p (m, evs).
        case the (Establish cfg env p m) of
          (Inl (code, err), m', evs') \<Rightarrow> ((zero_grant, code, Some (msg err)), m', evs @ evs')
        | (Inr g, m', evs') \<Rightarrow> ((g, ResultOK, None), m', evs @ evs')),
      es_teardown = (\<lambda>p g (m, evs).
        case Teardown_session cfg g now m of (m', evs') \<Rightarrow> (m', evs @ evs'))\<rparr>"

lemma manager_est_granted:
  "Establish cfg env p m = Some (Inr g, m', evs') \<Longrightarrow>
     es_establish (manager_est msg cfg env now) p (m, evs) = ((g, ResultOK, None), m', evs @ evs')"
  by (simp add: manager_est_def)

section \<open>What a grant carries\<close>

lemma establish_ensures:
  assumes "mgr_inv cfg m" "Establish cfg env p m = Some (Inr g, m', evs)"
  shows "\<exists>k e. EvEnsure (ensure_params cfg e) None \<in> set evs \<and> g = grant_of cfg k e \<and> k \<noteq> 0 \<and>
    e_ifname e = ifNameFor cfg (sp_client p) k \<and> e_outer e = sp_outer p \<and> e_mtu e = est_mtu cfg env p \<and>
    e_grekey e = (if useGREKey cfg then k else 0)"
  using assms(2)
proof (cases rule: Establish_cases)
  case (run k e ev m1 evs1)
  from assms(1) run(1) show ?thesis
  proof (cases rule: establish_locked_cases)
    case (ok k' e' m2 pl)
    then have eq: "k' = k" "e' = e" by auto
    from run(2) have g: "g = grant_of cfg k e" "m' = start_monitor cfg e m1" by (cases rule: provision_cases; simp)+
    have "EvEnsure (ensure_params cfg e) None \<in> set evs1"
      using run(2) g(1) by (auto simp: provision_def Let_def split: option.splits)
    moreover from ok(9) eq have "e_ifname e = ifNameFor cfg (sp_client p) k" "e_outer e = sp_outer p"
      "e_mtu e = est_mtu cfg env p" "e_grekey e = (if useGREKey cfg then k else 0)" by (metis entry.select_convs)+
    ultimately show ?thesis using run(3) g(1) ok(7) eq by (intro exI [of _ k] exI [of _ e]) simp
  qed simp_all
qed simp_all

lemma tunnel_flags_bits:
  "tunnel_flags cfg AND TunnelFlagGREKey \<noteq> 0 \<longleftrightarrow> useGREKey cfg"
  "tunnel_flags cfg AND TunnelFlagGRESeq \<noteq> 0 \<longleftrightarrow> useGRESeq cfg"
  "tunnel_flags cfg AND NOT (TunnelFlagGREKey OR TunnelFlagGRESeq) = 0"
  by (simp_all add: tunnel_flags_def TunnelFlagGREKey_def TunnelFlagGRESeq_def)

lemma reply_flags_grant:
  "k \<noteq> 0 \<Longrightarrow> e_grekey e = (if useGREKey cfg then k else 0) \<Longrightarrow> reply_flags (grant_of cfg k e) = tunnel_flags cfg"
  by (simp add: grant_of_def reply_flags_def tunnel_flags_def TunnelFlagGREKey_def TunnelFlagGRESeq_def)

lemma grant_of_fields:
  "g_client_inner (grant_of cfg k e) = e_inner e" "g_server_inner (grant_of cfg k e) = serverInner cfg"
  "g_server_outer (grant_of cfg k e) = greLocal cfg" "g_grekey (grant_of cfg k e) = e_grekey e"
  "g_mtu (grant_of cfg k e) = of_int (e_mtu e)"
  by (simp_all add: grant_of_def)

lemma grant_in_pool:
  assumes "mgr_inv cfg m" "Establish cfg env p m = Some (Inr g, m', evs)"
  shows "g_client_inner g \<in> claimable (mpool m)"
  using assms
proof (cases rule: establish_alloc)
  case (alloc m2 r pl)
  then show ?thesis using allocInner_ok(2) [OF mgr_invD(2) [OF alloc(1)], of cfg "leases m2"] by auto
qed simp

text \<open>Whatever the manager grants, a client can accept, unless an address has a zone.\<close>

lemma manager_grant_usable:
  assumes "mgr_inv cfg m" "Establish cfg env p m = Some (Inr g, m', evs)"
    "zone (greLocal cfg) = ''''" "zone (serverInner cfg) = ''''"
  shows "grant_usable g"
proof -
  obtain k e where e: "g = grant_of cfg k e" "k \<noteq> 0" "e_grekey e = (if useGREKey cfg then k else 0)"
    using establish_ensures [OF assms(1,2)] by blast
  have "zone (g_client_inner g) = ''''" using grant_in_pool [OF assms(1,2)] by (simp add: claimable_def contains_def)
  moreover have "g_server_inner g = serverInner cfg" "g_server_outer g = greLocal cfg" "g_grekey g = e_grekey e"
    by (simp_all add: e(1) grant_of_fields)
  moreover have flags: "reply_flags g = tunnel_flags cfg" unfolding e(1) by (rule reply_flags_grant [OF e(2,3)])
  ultimately show ?thesis
    using assms(3,4) e(2,3) unfolding grant_usable_def grant_zoneless_def flags tunnel_flags_bits by simp
qed

section \<open>The two ends\<close>

text \<open>Interfaces that are the two ends of one tunnel.\<close>

definition mirrored :: "gre_params \<Rightarrow> gre_params \<Rightarrow> bool" where
  "mirrored sp cp \<longleftrightarrow> gp_local cp = gp_remote sp \<and> gp_remote cp = gp_local sp \<and>
     gp_inner_local cp = gp_inner_peer sp \<and> gp_inner_peer cp = gp_inner_local sp \<and>
     gp_key cp = gp_key sp \<and> gp_seq cp = gp_seq sp \<and> gp_mtu cp = gp_mtu sp \<and>
     gp_fou_dport cp = gp_fou_sport sp \<and> gp_fou_sport cp = gp_fou_dport sp"

lemma ends_mirrored:
  assumes "mgr_inv cfg m" "Establish cfg env p m = Some (Inr g, m', evs)" "est_mtu cfg env p < 65536"
    "fouPort cfg \<noteq> 0 \<longrightarrow> \<not> useGREKey cfg \<and> \<not> useGRESeq cfg" "c_fou_port ccfg = fouPort cfg"
  shows "\<exists>sp. EvEnsure sp None \<in> set evs \<and> mirrored sp (dial_params ccfg ifn (sp_outer p) (session_of g))"
proof -
  obtain k e where e: "EvEnsure (ensure_params cfg e) None \<in> set evs" "g = grant_of cfg k e" "k \<noteq> 0"
    "e_outer e = sp_outer p" "e_mtu e = est_mtu cfg env p" "e_grekey e = (if useGREKey cfg then k else 0)"
    using establish_ensures [OF assms(1,2)] by blast
  have "0 \<le> est_mtu cfg env p" by (simp add: est_mtu_eq minimumTunnelMTU_def Let_def le_max_iff_disj)
  then have mtu: "uint (word_of_int (e_mtu e) :: 16 word) = e_mtu e"
    using assms(3) e(5) by (simp add: uint_word_of_int_eq take_bit_int_eq_self)
  note flags = reply_flags_grant [OF e(3,6)]
  show ?thesis
    using e(1,4,6) assms(4,5) mtu
    by (intro exI [of _ "ensure_params cfg e"])
      (auto simp: Let_def mirrored_def dial_params_def session_of_def ensure_params_def flags tunnel_flags_bits e(2) grant_of_fields)
qed

section \<open>The dialer on a wire\<close>

text \<open>The client \<^verbatim>\<open>dialOnce\<close> builds on a connection, and a cycle whose connection delivers some bytes.\<close>

definition dialer_client :: "config \<Rightarrow> once_env \<Rightarrow> string \<Rightarrow> string \<Rightarrow> addr \<Rightarrow> net_addr \<Rightarrow> net_addr \<Rightarrow> client" where
  "dialer_client ccfg oenv cid secret requested la ra =
     \<lparr>cl_id = cid, cl_secret = secret, cl_mtu = of_int (detect_mtu ccfg oenv (tcpAddrIP la) (tcpAddrIP ra)),
      cl_requested = requested\<rparr>"

definition over_wire :: "once_env \<Rightarrow> net_addr \<Rightarrow> net_addr \<Rightarrow> bytes \<Rightarrow> once_env" where
  "over_wire oenv la ra y = oenv\<lparr>oe_dial := \<lambda>_. Inr (la, ra, idle\<lparr>inbuf := y\<rparr>)\<rparr>"

lemma over_wire_fields [simp]:
  "oe_lookup (over_wire oenv la ra y) = oe_lookup oenv" "oe_ifaces (over_wire oenv la ra y) = oe_ifaces oenv"
  "oe_rnd (over_wire oenv la ra y) = oe_rnd oenv" "oe_ensure (over_wire oenv la ra y) = oe_ensure oenv"
  "oe_dial (over_wire oenv la ra y) src = Inr (la, ra, idle\<lparr>inbuf := y\<rparr>)"
  "detect_mtu ccfg (over_wire oenv la ra y) l r = detect_mtu ccfg oenv l r"
  by (simp_all add: over_wire_def detect_mtu_def split: option.split)

lemma dialOnce_run:
  assumes "chooseSourceAddress (oe_lookup oenv) (oe_ifaces oenv) server (cc_rules (c_client ccfg)) (cc_fallback (c_client ccfg)) = Inr src"
    and "is_valid (tcpAddrIP la)"
    and "fst (client_run (dialer_client ccfg oenv cid secret requested la ra) (oe_rnd oenv) y) = Inr (ses, sec)"
  shows "dialOnce ccfg server cid secret ifn requested (over_wire oenv la ra y) =
    (case dial_session ccfg cid (over_wire oenv la ra y) (dial_params ccfg ifn (tcpAddrIP la) ses) of
       (err, evs) \<Rightarrow> ((cs_client_inner ses, True, err), evs))"
  using assms by (simp add: dialOnce_def dialer_client_def client_run_def Let_def)

lemma dial_session_ensures: "oe_ensure env = None \<Longrightarrow> EvEnsure p None \<in> set (snd (dial_session cfg cid env p))"
  by (simp add: dial_session_def Let_def)

text \<open>With the manager behind the server, a client that knows its secret is an honest one.\<close>

lemma manager_honest:
  assumes "mgr_inv cfg m" "zone (greLocal cfg) = ''''" "zone (serverInner cfg) = ''''"
    and "Establish cfg env (request_of (cl_id cl) peer (cl_mtu cl) (cl_requested cl)) m = Some (Inr g, m', evs)"
    and "ValidClientID (cl_id cl)" "server_secret sv henv (cl_id cl) = cl_secret cl" "zone (cl_requested cl) = ''''"
    and "he_nonce henv = Some sn" "length sn = NonceLen" "length cn = NonceLen"
  shows "honest cl cn sv henv sn (manager_est msg cfg env now) peer (m, []) (m', evs) g"
  using assms manager_grant_usable [OF assms(1,4,2,3)] manager_est_granted [OF assms(4), of msg now "[]"]
  by (simp add: honest_def)

end
