(* ===== verification/Spec2Isabelle.thy ===== *)
theory Spec2Isabelle
  imports Prelude Netip Names Ippool Wire Codec Crypto Secure Link Hooks Session Session_Inv
    Session_Props Session_Steps Unix_Socket Broker Broker_Steps Provisioning
    Netip_Text Server Client Handshake Admission Config Startup Netlink Tunnel
    Mssclamp Mssclamp_Props Health Source Dialer Netlinkd Admin Hardening Flags Cli End_To_End
begin

text \<open>
  A verification library for gremlind, a daemon that negotiates GRE tunnels over an encrypted
  TCP control channel. All paths are under \<^verbatim>\<open>src/\<close>.

  \<^bold>\<open>The program.\<close> A client dials the server, both run a challenge-response handshake and switch to
  an encrypted channel; the client asks for a session, the session manager gives it an inner
  address, a key and an MTU and has the data-plane build a GRE interface; the client builds the
  other end. Keepalive messages hold the session; the end of the connection tears it down. The
  privileged work may be left to a separate broker process. Firewall rules clamp the TCP segment
  size, hooks and a health check run on the side, and the dialer reconnects with backoff.

  \<^bold>\<open>Theories and sources.\<close>
  \<^item> \<^verbatim>\<open>Prelude\<close>: bytes, Go strings, big-endian words, results of fallible functions, and the locale
    \<^verbatim>\<open>transition_system\<close>. \<^verbatim>\<open>Netip\<close>, \<^verbatim>\<open>Netip_Text\<close>: addresses and prefixes of the standard library and
    their texts. These model the Go standard library, as far as the program uses it.
  \<^item> \<^verbatim>\<open>Names\<close>: \<^verbatim>\<open>internal/control/identity.go\<close>, \<^verbatim>\<open>internal/gre/name.go\<close>. \<^verbatim>\<open>Ippool\<close>:
    \<^verbatim>\<open>internal/ippool/pool.go\<close>.
  \<^item> \<^verbatim>\<open>Wire\<close>, \<^verbatim>\<open>Codec\<close>: \<^verbatim>\<open>internal/control/proto.go\<close> and \<^verbatim>\<open>codec.go\<close>; field codecs first, then messages
    and frames on a connection. A connection is a record of what can still be read, what has been
    written, and a plan of partial and failing writes.
  \<^item> \<^verbatim>\<open>Crypto\<close>: SHA-256, HMAC, AES-GCM of the standard library, computed. \<^verbatim>\<open>Secure\<close>:
    \<^verbatim>\<open>internal/auth/auth.go\<close> and \<^verbatim>\<open>internal/control/secure.go\<close>.
  \<^item> \<^verbatim>\<open>Link\<close>, \<^verbatim>\<open>Netlink\<close>, \<^verbatim>\<open>Tunnel\<close>: \<^verbatim>\<open>internal/gre\<close>: parameters and overhead, netlink messages byte by
    byte with the parsing of replies, and the operations on interfaces.
  \<^item> \<^verbatim>\<open>Session\<close>, \<^verbatim>\<open>Session_Inv\<close>, \<^verbatim>\<open>Session_Props\<close>, \<^verbatim>\<open>Session_Steps\<close>: \<^verbatim>\<open>internal/session/manager.go\<close>: the
    operations, the invariant of the manager, the properties of a call that runs alone, and the
    interleavings of the sections under the mutex.
  \<^item> \<^verbatim>\<open>Server\<close>, \<^verbatim>\<open>Admission\<close>: \<^verbatim>\<open>internal/control/server.go\<close>. \<^verbatim>\<open>Client\<close>: \<^verbatim>\<open>internal/control/client.go\<close>.
    \<^verbatim>\<open>Handshake\<close> runs the two against each other.
  \<^item> \<^verbatim>\<open>Broker\<close>: \<^verbatim>\<open>internal/provisionrpc/rpc.go\<close>; \<^verbatim>\<open>Broker_Steps\<close> interleaves its
    concurrent handlers, \<^verbatim>\<open>Provisioning\<close> puts the session manager in front of it.
    \<^verbatim>\<open>Hooks\<close>: \<^verbatim>\<open>internal/hooks/hooks.go\<close>.
  \<^item> \<^verbatim>\<open>Config\<close>: \<^verbatim>\<open>internal/config/config.go\<close>: defaults, the checks after loading, the checks of a server.
  \<^item> \<^verbatim>\<open>Mssclamp\<close>, \<^verbatim>\<open>Mssclamp_Props\<close>: \<^verbatim>\<open>internal/mssclamp/mssclamp.go\<close>. \<^verbatim>\<open>Health\<close>:
    \<^verbatim>\<open>internal/healthcheck/healthcheck.go\<close>. \<^verbatim>\<open>Admin\<close>: \<^verbatim>\<open>internal/admin/admin.go\<close>; its socket and that of
    the broker are handled by the same steps, in \<^verbatim>\<open>Unix_Socket\<close>. \<^verbatim>\<open>Hardening\<close>:
    \<^verbatim>\<open>internal/hardening/hardening_linux.go\<close>.
  \<^item> \<^verbatim>\<open>Startup\<close>, \<^verbatim>\<open>Source\<close>, \<^verbatim>\<open>Dialer\<close>, \<^verbatim>\<open>Netlinkd\<close>: \<^verbatim>\<open>cmd/gremlind/main.go\<close>: putting the server together,
    choosing a source address, the reconnecting client, the broker process. \<^verbatim>\<open>Flags\<close> is the flag
    package of the standard library, \<^verbatim>\<open>Cli\<close> the four subcommands from their arguments on.
  \<^item> \<^verbatim>\<open>End_To_End\<close>: the dialer against the control server with the session manager behind it; the
    theorem at the end of this theory is about that composition.

  \<^bold>\<open>State and effects.\<close> Go structs are records, error returns are sums or options, state is passed
  explicitly. Calls of the session manager and of the dialer to the data-plane are events in a
  list, in the order of the code, and a replay over the set of interface names gives their
  effect. What lies outside the program (the kernel, the file system, the firewall tools, commands,
  the random source, clocks, map iteration order, YAML and JSON decoding) is an argument of the definitions; where a property
  relies on documented behaviour of it, that is a named predicate (\<^const>\<open>kernel_ok\<close>,
  \<^const>\<open>iptables_ok\<close>, \<^const>\<open>nft_ok\<close>, \<^const>\<open>backend_answers\<close>, \<^const>\<open>sock_ok\<close>) and a witness gives a concrete instance.

  \<^bold>\<open>What is shown.\<close>
  \<^item> Manager: static and sticky leases are honoured, granted addresses are exclusive, refusals are
    justified, interfaces mirror sessions, MTU negotiation is optimal within its bounds, Establish
    returns, and all interleavings of locked sections keep the invariant.
  \<^item> Channel and codec: round trips, canonical encodings, bounded reads, distinct nonces, rejection
    of anything but the peer's next message.
  \<^item> Handshake: agreement, completion for honest parties, authentication, uniform refusals; every
    established session is torn down; admission stays within its limits and never blocks for good.
  \<^item> Privileged side: the broker is confined to permitted names and its own interfaces under every
    interleaving of its handlers, starts on a clean slate, hardened and with a socket no stranger
    could ever use, serves every request of the manager while its ledger mirrors the registry,
    creates links all or nothing, and encodes its requests so that they parse back.
  \<^item> Side components: clamp rules are installed exactly once and removed exactly, the health check
    fires exactly at its threshold, the source rules are obeyed, the dialer backs off and cleans up,
    configuration checks accept exactly the valid configurations, a server with a valid one starts
    however its flags are written, and the flags of connect are read back from every spelling.
  \<^item> End to end: an honest dialer and a server with its manager complete a session and build the
    two ends of one tunnel.
  \<^item> Defects found while modelling are stated as theorems: the races in the manager, in the writers
    of the client and in the broker, the leak after a failing random source, the empty fallback
    secret, zoned addresses, the cap of the MTU, byte order of attributes, flags that are ignored,
    stale clamp rules, cancellation taken for failure.

  \<^bold>\<open>Loops and bounds.\<close> Loops over data are structural or have a measure. Loops that may run forever
  (the deletion loop of iptables, the health check) are partial functions whose value None means
  that they do not return, and the properties say when they do. The search of the manager for a
  key consumes a finite list of draws: None means that all were refused. The dialer is observed for
  any finite number of cycles. No fuel is used elsewhere.

  \<^bold>\<open>Not modelled.\<close> Logging; the listeners, deadlines and timers of the network code, of which only
  the outcome (data, error, cancellation) is an input; signals, which are the cancellation of a
  context; decoding of YAML and JSON, durations in it included; the usage text; the processes of
  hooks and commands beyond their arguments, environment and result. Texts of errors are kept only where the program inspects them.
  Functions on text assume ASCII where the source would fold Unicode space or quoting, which
  interface names and tool output do not contain.
\<close>

section \<open>Properties that span components\<close>

text \<open>
  C1. A tunnel, end to end. An honest dialer and the control server with the session manager
  behind it, over a reliable wire: when the manager has a session to grant, their dialogue
  reaches in two rounds a point where neither has more to say; there the manager holds the
  session, the dialer has established it with the address it was granted, and the interfaces the
  two built are the ends of one tunnel: outer and inner addresses swapped, the same key, sequence
  option, MTU and UDP ports. (Client and server agree on identity, secret and UDP port, no
  address is translated on the way, no address has a zone, with UDP the key and sequence option
  are off, which starting the server ensures, and the MTU fits its field.)
\<close>

theorem tunnel_end_to_end:
  assumes mgr: "mgr_inv cfg m" "zone (greLocal cfg) = ''''" "zone (serverInner cfg) = ''''"
      "fouPort cfg \<noteq> 0 \<longrightarrow> \<not> useGREKey cfg \<and> \<not> useGRESeq cfg" "c_fou_port ccfg = fouPort cfg"
    and grant: "Establish cfg env (request_of (cl_id cl) la (cl_mtu cl) (cl_requested cl)) m = Some (Inr g, m', evs)"
      "est_mtu cfg env (request_of (cl_id cl) la (cl_mtu cl) (cl_requested cl)) < 65536"
    and client: "cl = dialer_client ccfg oenv cid secret requested la ra" "ValidClientID cid" "zone requested = ''''"
      "server_secret sv henv cid = secret"
    and nonces: "he_nonce henv = Some sn" "length sn = NonceLen" "oe_rnd oenv = Some cn" "length cn = NonceLen"
    and dial: "is_valid (tcpAddrIP la)" "oe_ensure oenv = None"
      "chooseSourceAddress (oe_lookup oenv) (oe_ifaces oenv) server (cc_rules (c_client ccfg)) (cc_fallback (c_client ccfg)) = Inr src"
  shows "\<exists>x y err cevs sp cp.
    (\<forall>n. dialogue (\<lambda>y. outbuf (snd (client_run cl (oe_rnd oenv) y)))
        (\<lambda>x. outbuf (fst (snd (server_run sv henv (manager_est msg cfg env now) la (m, []) x)))) (n + 2) = (x, y)) \<and>
    snd (snd (server_run sv henv (manager_est msg cfg env now) la (m, []) x)) = (m', evs) \<and>
    dialOnce ccfg server cid secret ifn requested (over_wire oenv la ra y) = ((g_client_inner g, True, err), cevs) \<and>
    EvEnsure sp None \<in> set evs \<and> EvEnsure cp None \<in> set cevs \<and> mirrored sp cp"
proof -
  have cl: "cl_id cl = cid" "cl_secret cl = secret" "cl_requested cl = requested" by (simp_all add: client(1) dialer_client_def)
  have hon: "honest cl cn sv henv sn (manager_est msg cfg env now) la (m, []) (m', evs) g"
    using mgr(1-3) grant(1) client(2-) nonces by (intro manager_honest) (simp_all add: cl)
  from dialogue_completes [OF hon] obtain x y csec where
    fix2: "\<forall>n. dialogue (\<lambda>y. outbuf (snd (client_run cl (Some cn) y)))
        (\<lambda>x. outbuf (fst (snd (server_run sv henv (manager_est msg cfg env now) la (m, []) x)))) (n + 2) = (x, y)"
    and run: "fst (client_run cl (Some cn) y) = Inr (session_of g, csec)"
    and srv: "snd (snd (server_run sv henv (manager_est msg cfg env now) la (m, []) x)) = (m', evs)" by blast
  obtain sp where sp: "EvEnsure sp None \<in> set evs" "mirrored sp (dial_params ccfg ifn (outerAddr la) (session_of g))"
    using ends_mirrored [OF mgr(1) grant mgr(4,5)] by (auto simp: request_of_def)
  let ?p = "dial_params ccfg ifn (tcpAddrIP la) (session_of g)"
  obtain err cevs where ses: "dial_session ccfg cid (over_wire oenv la ra y) ?p = (err, cevs)" by force
  have "dialOnce ccfg server cid secret ifn requested (over_wire oenv la ra y) = ((g_client_inner g, True, err), cevs)"
    using dialOnce_run [OF dial(3,1) run [unfolded client(1) nonces(3) [symmetric]]] ses by (simp add: session_of_def)
  moreover have "EvEnsure ?p None \<in> set cevs" using dial_session_ensures [of "over_wire oenv la ra y" ?p ccfg cid] dial(2) ses by simp
  moreover have "tcpAddrIP la = outerAddr la" by (simp add: tcpAddrIP_def outerAddr_def)
  ultimately show ?thesis using fix2 srv sp unfolding nonces(3) by metis
qed

definition bob_env :: once_env where
  "bob_env = \<lparr>oe_lookup = (\<lambda>_. None), oe_ifaces = None, oe_dial = (\<lambda>_. Inl ''''), oe_broker_path = (\<lambda>_ _. None),
     oe_broker_mtu = (\<lambda>_. None), oe_path = (\<lambda>_ _. None), oe_mtu = (\<lambda>_. Some 1400), oe_rnd = Some demo_nonce,
     oe_ensure = None, oe_clamp = None, oe_loops = KeepaliveEnds (ServerTeardown ''bye'')\<rparr>"

abbreviation "bob_client \<equiv> dialer_client zero_config bob_env ''bob'' ''hunter2'' AddrZero demo_peer (TCPAddr [192, 0, 2, 1])"

theorem tunnel_end_to_end_witness:
  "\<exists>m' evs y err cevs sp cp.
    Establish demo_cfg (Session_Props.demo_env 7) (demo_params ''bob'') demo_mgr = Some (Inr (demo_grant 0x0a000003 7), m', evs) \<and>
    dialOnce zero_config ''192.0.2.1:4747'' ''bob'' ''hunter2'' ''grem0'' AddrZero (over_wire bob_env demo_peer (TCPAddr [192, 0, 2, 1]) y)
      = ((V4 0x0a000003, True, err), cevs) \<and>
    EvEnsure sp None \<in> set evs \<and> EvEnsure cp None \<in> set cevs \<and> mirrored sp cp"
proof -
  obtain m' evs where est: "Establish demo_cfg (Session_Props.demo_env 7) (demo_params ''bob'') demo_mgr = Some (Inr (demo_grant 0x0a000003 7), m', evs)"
    using est_witness [OF demo_bob] by blast
  have outer: "outerAddr demo_peer = V4 0xcb007105" "is_valid (tcpAddrIP demo_peer)" "ValidClientID ''bob''" by code_simp+
  have "request_of (cl_id bob_client) demo_peer (cl_mtu bob_client) (cl_requested bob_client) = demo_params ''bob''"
    by (simp add: dialer_client_def request_of_def outer demo_params_def detect_mtu_def or_1500_def bob_env_def zero_config_def)
  moreover have "est_mtu demo_cfg (Session_Props.demo_env 7) (demo_params ''bob'') < 65536" by code_simp
  moreover have "zone (greLocal demo_cfg) = ''''" "zone (serverInner demo_cfg) = ''''" "c_fou_port zero_config = fouPort demo_cfg"
    "fouPort demo_cfg \<noteq> 0 \<longrightarrow> \<not> useGREKey demo_cfg \<and> \<not> useGRESeq demo_cfg"
    by (simp_all add: demo_cfg_def zero_config_def)
  moreover have "server_secret demo_server demo_hs ''bob'' = ''hunter2''" "he_nonce demo_hs = Some (replicate 32 5)"
    by (simp_all add: server_secret_def SecretFor_def demo_server_def demo_hs_def)
  moreover have "length (replicate 32 (5 :: byte)) = NonceLen" "length demo_nonce = NonceLen" by (simp_all add: NonceLen_def)
  moreover have "oe_rnd bob_env = Some demo_nonce" "oe_ensure bob_env = None" "zone AddrZero = ''''" by (simp_all add: bob_env_def)
  moreover have "chooseSourceAddress (oe_lookup bob_env) (oe_ifaces bob_env) ''192.0.2.1:4747'' (cc_rules (c_client zero_config)) (cc_fallback (c_client zero_config)) = Inr AddrZero"
    by (simp add: chooseSourceAddress_def zero_config_def)
  ultimately obtain y err cevs sp cp where
    "dialOnce zero_config ''192.0.2.1:4747'' ''bob'' ''hunter2'' ''grem0'' AddrZero (over_wire bob_env demo_peer (TCPAddr [192, 0, 2, 1]) y)
       = ((g_client_inner (demo_grant 0x0a000003 7), True, err), cevs)"
    "EvEnsure sp None \<in> set evs" "EvEnsure cp None \<in> set cevs" "mirrored sp cp"
    using tunnel_end_to_end [OF demo_inv, of zero_config "Session_Props.demo_env 7" bob_client demo_peer
        "demo_grant 0x0a000003 7" m' evs bob_env "''bob''" "''hunter2''" AddrZero "TCPAddr [192, 0, 2, 1]" demo_server demo_hs
        "replicate 32 5" demo_nonce "''192.0.2.1:4747''" AddrZero "\<lambda>_. ''''" 0 "''grem0''"] est outer(2,3) by auto
  moreover have "g_client_inner (demo_grant 0x0a000003 7) = V4 0x0a000003" by (simp add: demo_grant_def)
  ultimately show ?thesis using est by metis
qed

end
